(* ===== verification/JsBase.thy ===== *)
theory JsBase
  imports Complex_Main "HOL-Library.AList" "HOL-Library.Char_ord" "HOL-Library.List_Lexorder"
begin

text \<open>
  Shared base of the development: the JavaScript values and standard-library routines the
  TypeScript sources use (numbers with NaN and the infinities, \<open>Number(s)\<close>,
  \<open>BigInt(v)\<close>, \<open>Date\<close> values with their range, JSON values, \<open>Map\<close> as an association
  list in insertion order), HTTP results, and the generic list lemmas that every component
  uses. Strings are byte strings; case conversion and white space are those of ASCII.
  A numeral text denotes its exact value: the rounding of IEEE doubles beyond
  \<open>2^53\<close> is not modelled.
\<close>

section \<open>Strings\<close>

type_synonym npub = string
type_synonym blob_hash = string

definition char_code :: "char \<Rightarrow> nat" where
  "char_code c = of_char c"

definition is_digit :: "char \<Rightarrow> bool" where
  "is_digit c \<longleftrightarrow> 48 \<le> char_code c \<and> char_code c \<le> 57"

definition digit_value :: "char \<Rightarrow> nat" where
  "digit_value c = char_code c - 48"

definition hex_value :: "char \<Rightarrow> nat option" where
  "hex_value c = (let n = char_code c in
     if 48 \<le> n \<and> n \<le> 57 then Some (n - 48)
     else if 97 \<le> n \<and> n \<le> 102 then Some (n - 87)
     else if 65 \<le> n \<and> n \<le> 70 then Some (n - 55)
     else None)"

definition is_lower_hex :: "char \<Rightarrow> bool" where
  "is_lower_hex c \<longleftrightarrow> is_digit c \<or> (97 \<le> char_code c \<and> char_code c \<le> 102)"

definition is_upper_hex :: "char \<Rightarrow> bool" where
  "is_upper_hex c \<longleftrightarrow> is_digit c \<or> (65 \<le> char_code c \<and> char_code c \<le> 70)"

definition is_alnum :: "char \<Rightarrow> bool" where
  "is_alnum c \<longleftrightarrow> is_digit c \<or> (65 \<le> char_code c \<and> char_code c \<le> 90)
     \<or> (97 \<le> char_code c \<and> char_code c \<le> 122)"

definition is_word_char :: "char \<Rightarrow> bool" where
  "is_word_char c \<longleftrightarrow> is_alnum c \<or> c = CHR ''_''"

definition is_space :: "char \<Rightarrow> bool" where
  "is_space c \<longleftrightarrow> (let n = char_code c in n = 32 \<or> (9 \<le> n \<and> n \<le> 13) \<or> n = 160)"

definition lower_char :: "char \<Rightarrow> char" where
  "lower_char c = (let n = char_code c in if 65 \<le> n \<and> n \<le> 90 then char_of (n + 32) else c)"

definition upper_char :: "char \<Rightarrow> char" where
  "upper_char c = (let n = char_code c in if 97 \<le> n \<and> n \<le> 122 then char_of (n - 32) else c)"

definition to_lower :: "string \<Rightarrow> string" where
  "to_lower s = map lower_char s"

definition to_upper :: "string \<Rightarrow> string" where
  "to_upper s = map upper_char s"

definition trim_left :: "string \<Rightarrow> string" where
  "trim_left s = dropWhile is_space s"

definition trim_right :: "string \<Rightarrow> string" where
  "trim_right s = rev (dropWhile is_space (rev s))"

definition trim :: "string \<Rightarrow> string" where
  "trim s = trim_right (trim_left s)"

fun starts_with :: "string \<Rightarrow> string \<Rightarrow> bool" where
  "starts_with s [] = True"
| "starts_with [] (p # ps) = False"
| "starts_with (c # cs) (p # ps) = (c = p \<and> starts_with cs ps)"

definition ends_with :: "string \<Rightarrow> string \<Rightarrow> bool" where
  "ends_with s p = starts_with (rev s) (rev p)"

fun contains_str :: "string \<Rightarrow> string \<Rightarrow> bool" where
  "contains_str [] p = (p = [])"
| "contains_str (c # cs) p = (starts_with (c # cs) p \<or> contains_str cs p)"

text \<open>\<open>s.split(sep)\<close> for a one-character separator: never empty.\<close>

fun split_on :: "char \<Rightarrow> string \<Rightarrow> string list" where
  "split_on sep [] = [[]]"
| "split_on sep (c # cs) =
     (if c = sep then [] # split_on sep cs
      else (case split_on sep cs of [] \<Rightarrow> [[c]] | w # ws \<Rightarrow> (c # w) # ws))"

text \<open>\<open>s.replace(/\/+$/, "")\<close>.\<close>

definition strip_trailing_slashes :: "string \<Rightarrow> string" where
  "strip_trailing_slashes s = rev (dropWhile (\<lambda>c. c = CHR ''/'') (rev s))"

text \<open>\<open>/^[a-f0-9]{64}$/\<close> and its case-insensitive variant.\<close>

definition is_sha256_hex :: "string \<Rightarrow> bool" where
  "is_sha256_hex s \<longleftrightarrow> length s = 64 \<and> list_all is_lower_hex s"

definition is_sha256_hex_ci :: "string \<Rightarrow> bool" where
  "is_sha256_hex_ci s \<longleftrightarrow> length s = 64 \<and> list_all (\<lambda>c. is_lower_hex c \<or> is_upper_hex c) s"

section \<open>Numbers\<close>

text \<open>
  A JavaScript number: a finite value, an infinity or NaN. Comparisons with NaN are false.
\<close>

datatype js_number = Num rat | PInf | NInf | NaN

fun num_lt :: "js_number \<Rightarrow> js_number \<Rightarrow> bool" where
  "num_lt NaN _ = False"
| "num_lt _ NaN = False"
| "num_lt (Num a) (Num b) = (a < b)"
| "num_lt (Num a) PInf = True"
| "num_lt NInf (Num b) = True"
| "num_lt NInf PInf = True"
| "num_lt _ _ = False"

fun num_le :: "js_number \<Rightarrow> js_number \<Rightarrow> bool" where
  "num_le NaN _ = False"
| "num_le _ NaN = False"
| "num_le a b = (num_lt a b \<or> a = b)"

fun num_is_finite :: "js_number \<Rightarrow> bool" where
  "num_is_finite (Num _) = True"
| "num_is_finite _ = False"

definition rat_is_int :: "rat \<Rightarrow> bool" where
  "rat_is_int r \<longleftrightarrow> of_int (floor r) = r"

fun num_is_integer :: "js_number \<Rightarrow> bool" where
  "num_is_integer (Num r) = rat_is_int r"
| "num_is_integer _ = False"

text \<open>The integer a finite integral number denotes; used only behind \<open>num_is_integer\<close>.\<close>

fun num_to_int :: "js_number \<Rightarrow> int" where
  "num_to_int (Num r) = floor r"
| "num_to_int _ = 0"

fun num_floor :: "js_number \<Rightarrow> js_number" where
  "num_floor (Num r) = Num (of_int (floor r))"
| "num_floor x = x"

abbreviation num_of_int :: "int \<Rightarrow> js_number" where
  "num_of_int i \<equiv> Num (of_int i)"

subsection \<open>Texts to numbers\<close>

definition nat_of_digits :: "nat \<Rightarrow> nat list \<Rightarrow> nat" where
  "nat_of_digits b ds = foldl (\<lambda>a d. a * b + d) 0 ds"

definition decimal_nat :: "string \<Rightarrow> nat" where
  "decimal_nat s = nat_of_digits 10 (map digit_value s)"

definition all_digits :: "string \<Rightarrow> bool" where
  "all_digits s \<longleftrightarrow> s \<noteq> [] \<and> list_all is_digit s"

text \<open>Digits of a given radix, as in the prefixes \<open>0x\<close>, \<open>0o\<close> and \<open>0b\<close>.\<close>

definition radix_nat :: "nat \<Rightarrow> string \<Rightarrow> nat option" where
  "radix_nat b s =
     (if s \<noteq> [] \<and> list_all (\<lambda>c. case hex_value c of None \<Rightarrow> False | Some d \<Rightarrow> d < b) s
      then Some (nat_of_digits b (map (\<lambda>c. the (hex_value c)) s)) else None)"

definition radix_prefix :: "string \<Rightarrow> nat option" where
  "radix_prefix s =
     (case s of
        z # x # _ \<Rightarrow>
          if z \<noteq> CHR ''0'' then None
          else if x = CHR ''x'' \<or> x = CHR ''X'' then Some 16
          else if x = CHR ''o'' \<or> x = CHR ''O'' then Some 8
          else if x = CHR ''b'' \<or> x = CHR ''B'' then Some 2
          else None
      | _ \<Rightarrow> None)"

definition strip_sign :: "string \<Rightarrow> int \<times> string" where
  "strip_sign s =
     (case s of
        c # cs \<Rightarrow> if c = CHR ''-'' then (-1, cs) else if c = CHR ''+'' then (1, cs) else (1, s)
      | [] \<Rightarrow> (1, s))"

text \<open>An unsigned decimal literal: digits, optional fraction, optional exponent.\<close>

definition parse_exponent :: "string \<Rightarrow> int option" where
  "parse_exponent s =
     (case s of
        [] \<Rightarrow> Some 0
      | c # cs \<Rightarrow>
          if c = CHR ''e'' \<or> c = CHR ''E'' then
            (let (sg, ds) = strip_sign cs in
             if all_digits ds then Some (sg * int (decimal_nat ds)) else None)
          else None)"

definition parse_unsigned_decimal :: "string \<Rightarrow> rat option" where
  "parse_unsigned_decimal s =
     (let ip = takeWhile is_digit s; r1 = dropWhile is_digit s;
          has_dot = (r1 \<noteq> [] \<and> hd r1 = CHR ''.'');
          fp = (if has_dot then takeWhile is_digit (tl r1) else []);
          r2 = (if has_dot then dropWhile is_digit (tl r1) else r1)
      in if ip = [] \<and> fp = [] then None
         else (case parse_exponent r2 of
                 None \<Rightarrow> None
               | Some e \<Rightarrow>
                   (let m = of_nat (decimal_nat (ip @ fp)) / 10 ^ length fp in
                    Some (if 0 \<le> e then m * 10 ^ nat e else m / 10 ^ nat (- e)))))"

text \<open>\<open>Number(s)\<close> of a string.\<close>

definition js_Number :: "string \<Rightarrow> js_number" where
  "js_Number s =
     (let t = trim s in
      if t = [] then Num 0
      else (case radix_prefix t of
              Some b \<Rightarrow> (case radix_nat b (drop 2 t) of None \<Rightarrow> NaN | Some n \<Rightarrow> Num (of_nat n))
            | None \<Rightarrow>
                (let (sg, u) = strip_sign t in
                 if u = ''Infinity'' then (if sg < 0 then NInf else PInf)
                 else (case parse_unsigned_decimal u of
                         None \<Rightarrow> NaN
                       | Some r \<Rightarrow> Num (of_int sg * r)))))"

text \<open>\<open>parseInt(s, 10)\<close>: the longest decimal prefix, NaN when there is none.\<close>

definition js_parseInt :: "string \<Rightarrow> int option" where
  "js_parseInt s =
     (let (sg, u) = strip_sign (trim_left s); ds = takeWhile is_digit u
      in if ds = [] then None else Some (sg * int (decimal_nat ds)))"

text \<open>\<open>BigInt(s)\<close> of a string; \<open>None\<close> is the SyntaxError.\<close>

definition bigint_of_string :: "string \<Rightarrow> int option" where
  "bigint_of_string s =
     (let t = trim s in
      if t = [] then Some 0
      else (case radix_prefix t of
              Some b \<Rightarrow> map_option int (radix_nat b (drop 2 t))
            | None \<Rightarrow>
                (let (sg, ds) = strip_sign t in
                 if all_digits ds then Some (sg * int (decimal_nat ds)) else None)))"

text \<open>\<open>n.toString()\<close> of a bigint.\<close>

fun show_nat :: "nat \<Rightarrow> string" where
  "show_nat n = (if n < 10 then [char_of (48 + n)]
                 else show_nat (n div 10) @ [char_of (48 + n mod 10)])"

declare show_nat.simps [simp del]

definition show_int :: "int \<Rightarrow> string" where
  "show_int i = (if i < 0 then CHR ''-'' # show_nat (nat (- i)) else show_nat (nat i))"

section \<open>JSON values\<close>

text \<open>
  A parsed JSON or YAML value. An absent property is \<open>undefined\<close>, the value \<open>None\<close> of
  \<open>jprop\<close>; keys of an object are distinct.
\<close>

datatype json = JNull | JBool bool | JNum js_number | JStr string
  | JArr "json list" | JObj "(string \<times> json) list"

fun jprop :: "string \<Rightarrow> json \<Rightarrow> json option" where
  "jprop k (JObj kvs) = map_of kvs k"
| "jprop k _ = None"

fun truthy :: "json \<Rightarrow> bool" where
  "truthy JNull = False"
| "truthy (JBool b) = b"
| "truthy (JNum x) = (x \<noteq> NaN \<and> x \<noteq> Num 0)"
| "truthy (JStr s) = (s \<noteq> [])"
| "truthy _ = True"

text \<open>\<open>typeof v === "object"\<close> (true of \<open>null\<close> and of arrays).\<close>

fun typeof_object :: "json \<Rightarrow> bool" where
  "typeof_object JNull = True"
| "typeof_object (JArr _) = True"
| "typeof_object (JObj _) = True"
| "typeof_object _ = False"

text \<open>
  \<open>BigInt(v)\<close> of a JSON value: booleans are 0 and 1, integral numbers themselves, strings
  are parsed, an array is first turned into its comma-joined text. \<open>None\<close> is the
  exception (TypeError, RangeError or SyntaxError).
\<close>

fun bigint_of_json :: "json \<Rightarrow> int option" where
  "bigint_of_json JNull = None"
| "bigint_of_json (JBool b) = Some (if b then 1 else 0)"
| "bigint_of_json (JNum x) = (if num_is_integer x then Some (num_to_int x) else None)"
| "bigint_of_json (JStr s) = bigint_of_string s"
| "bigint_of_json (JObj _) = None"
| "bigint_of_json (JArr []) = Some 0"
| "bigint_of_json (JArr [v]) =
     (case v of
        JNull \<Rightarrow> Some 0
      | JBool _ \<Rightarrow> None
      | JNum x \<Rightarrow> (if num_is_integer x \<and> \<bar>num_to_int x\<bar> < 10 ^ 21 then Some (num_to_int x) else None)
      | _ \<Rightarrow> bigint_of_json v)"
| "bigint_of_json (JArr (_ # _ # _)) = None"

section \<open>Dates\<close>

text \<open>
  The time value of a \<open>Date\<close> in milliseconds; \<open>None\<close> is the invalid date, whose
  \<open>getTime()\<close> is NaN and compares false with everything.
\<close>

type_synonym date = "int option"

definition DAY_MS :: int where
  "DAY_MS = 24 * 60 * 60 * 1000"

definition MAX_DATE_MS :: int where
  "MAX_DATE_MS = 8640000000000000"

definition new_Date :: "int \<Rightarrow> date" where
  "new_Date t = (if \<bar>t\<bar> \<le> MAX_DATE_MS then Some t else None)"

fun date_add :: "date \<Rightarrow> int \<Rightarrow> date" where
  "date_add None d = None"
| "date_add (Some t) d = new_Date (t + d)"

fun date_lt :: "date \<Rightarrow> date \<Rightarrow> bool" where
  "date_lt (Some a) (Some b) = (a < b)"
| "date_lt _ _ = False"

fun date_ge :: "date \<Rightarrow> date \<Rightarrow> bool" where
  "date_ge (Some a) (Some b) = (b \<le> a)"
| "date_ge _ _ = False"

section \<open>HTTP results\<close>

text \<open>
  What a handler sends: a success status with its payload, or an error status with the
  error code of the JSON body.
\<close>

datatype 'a response = Success nat 'a | Failure nat string

fun resp_status :: "'a response \<Rightarrow> nat" where
  "resp_status (Success n _) = n"
| "resp_status (Failure n _) = n"

fun is_success :: "'a response \<Rightarrow> bool" where
  "is_success (Success _ _) = True"
| "is_success (Failure _ _) = False"

section \<open>Generic lemmas\<close>

named_theorems js_defs \<open>unfolding rules of the JavaScript base\<close>

declare new_Date_def [js_defs] DAY_MS_def [js_defs] MAX_DATE_MS_def [js_defs]

lemma char_code_bound [simp]: "char_code c < 256"
  by (simp add: char_code_def)

lemma char_code_char_of [simp]: "(n::nat) < 256 \<Longrightarrow> char_code (char_of n) = n"
  by (simp add: char_code_def of_char_of)

lemma is_digit_char_of [simp]: "(n::nat) < 10 \<Longrightarrow> is_digit (char_of (48 + n))"
  by (simp add: is_digit_def)

lemma digit_value_char_of [simp]: "(n::nat) < 10 \<Longrightarrow> digit_value (char_of (48 + n)) = n"
  by (simp add: digit_value_def)

lemma starts_with_append [simp]: "starts_with (p @ s) p"
  by (induction p) auto

lemma starts_with_iff: "starts_with s p \<longleftrightarrow> (\<exists>t. s = p @ t)"
  by (induction s p rule: starts_with.induct) auto

lemma nat_of_digits_snoc [simp]: "nat_of_digits b (ds @ [d]) = nat_of_digits b ds * b + d"
  by (simp add: nat_of_digits_def)

lemma show_nat_digits: "list_all is_digit (show_nat n)"
proof (induction n rule: show_nat.induct)
  case (1 n)
  then show ?case
    by (subst show_nat.simps) auto
qed

lemma show_nat_nonempty [simp]: "show_nat n \<noteq> []"
  by (subst show_nat.simps) simp

lemma all_digits_show [simp]: "all_digits (show_nat n)"
  by (simp add: all_digits_def show_nat_digits)

lemma show_nat_value: "decimal_nat (show_nat n) = n"
proof (induction n rule: show_nat.induct)
  case (1 n)
  show ?case
  proof (cases "n < 10")
    case True
    then show ?thesis
      by (subst show_nat.simps) (simp add: decimal_nat_def nat_of_digits_def)
  next
    case False
    then have "decimal_nat (show_nat (n div 10)) = n div 10"
      using "1.IH" by simp
    with False show ?thesis
      by (subst show_nat.simps) (simp add: decimal_nat_def)
  qed
qed

lemma trim_digits:
  assumes "s \<noteq> []" and "\<not> is_space (hd s)" and "\<not> is_space (last s)"
  shows "trim s = s"
proof -
  have l: "trim_left s = s"
    using assms(1,2) by (cases s) (simp_all add: trim_left_def)
  have "dropWhile is_space (rev s) = rev s"
    using assms(1,3) by (cases s rule: rev_cases) simp_all
  with l show ?thesis
    by (simp add: trim_def trim_right_def)
qed

lemma is_digit_not_space: "is_digit c \<Longrightarrow> \<not> is_space c"
  by (auto simp: is_digit_def is_space_def Let_def)

lemma list_all_hd: "list_all P s \<Longrightarrow> s \<noteq> [] \<Longrightarrow> P (hd s)"
  by (cases s) auto

lemma list_all_last: "list_all P s \<Longrightarrow> s \<noteq> [] \<Longrightarrow> P (last s)"
  by (cases s rule: rev_cases) auto

lemma is_digit_literals [simp]:
  "\<not> is_digit CHR ''-''" "\<not> is_digit CHR ''+''" "\<not> is_digit CHR ''x''" "\<not> is_digit CHR ''X''"
  "\<not> is_digit CHR ''o''" "\<not> is_digit CHR ''O''" "\<not> is_digit CHR ''b''" "\<not> is_digit CHR ''B''"
  by (simp_all add: is_digit_def char_code_def)

lemma digit_neq: "is_digit c \<Longrightarrow> \<not> is_digit d \<Longrightarrow> c \<noteq> d"
  by blast

lemma radix_prefix_digits:
  assumes "list_all is_digit s"
  shows "radix_prefix s = None"
proof (cases s)
  case (Cons z t)
  show ?thesis
  proof (cases t)
    case (Cons x u)
    with \<open>s = z # t\<close> assms have "is_digit x" by simp
    then show ?thesis
      using \<open>s = z # t\<close> Cons by (simp add: radix_prefix_def digit_neq)
  qed (simp add: \<open>s = z # t\<close> radix_prefix_def)
qed (simp add: radix_prefix_def)

lemma strip_sign_digits: "list_all is_digit s \<Longrightarrow> strip_sign s = (1, s)"
  by (cases s) (simp_all add: strip_sign_def digit_neq)

text \<open>Reading back the text of a bigint gives the bigint.\<close>

lemma bigint_show_int: "bigint_of_string (show_int i) = Some i"
proof (cases "i < 0")
  case True
  let ?d = "show_nat (nat (- i))"
  have d: "list_all is_digit ?d" by (rule show_nat_digits)
  have "\<not> is_space (last (CHR ''-'' # ?d))"
    using list_all_last [OF d] is_digit_not_space by simp
  then have t: "trim (CHR ''-'' # ?d) = CHR ''-'' # ?d"
    by (intro trim_digits) (simp_all add: is_space_def char_code_def Let_def)
  have r: "radix_prefix (CHR ''-'' # ?d) = None"
    by (simp add: radix_prefix_def split: list.split)
  show ?thesis
    using True d by (simp add: bigint_of_string_def show_int_def t r strip_sign_def
        all_digits_def show_nat_value Let_def)
next
  case False
  let ?d = "show_nat (nat i)"
  have d: "list_all is_digit ?d" by (rule show_nat_digits)
  have t: "trim ?d = ?d"
    using list_all_hd [OF d] list_all_last [OF d] by (intro trim_digits) (simp_all add: is_digit_not_space)
  show ?thesis
    using False d by (simp add: bigint_of_string_def show_int_def t radix_prefix_digits
        strip_sign_digits all_digits_def show_nat_value Let_def)
qed

text \<open>Digits read as a number, hence \<open>Number\<close> of the text of a natural number.\<close>

lemma js_Number_digits:
  assumes "all_digits s"
  shows "js_Number s = Num (of_nat (decimal_nat s))"
proof -
  have d: "s \<noteq> []" "list_all is_digit s" using assms by (auto simp: all_digits_def)
  have t: "trim s = s"
    using list_all_hd [OF d(2)] list_all_last [OF d(2)] d(1) by (intro trim_digits) (simp_all add: is_digit_not_space)
  have w: "takeWhile is_digit s = s" "dropWhile is_digit s = []"
    using d(2) by (simp_all add: takeWhile_eq_all_conv dropWhile_eq_Nil_conv list_all_iff)
  have u: "parse_unsigned_decimal s = Some (of_nat (decimal_nat s))"
    using d(1) by (simp add: parse_unsigned_decimal_def w parse_exponent_def Let_def)
  have "\<not> is_digit CHR ''I''" by (simp add: is_digit_def char_code_def)
  then have "s \<noteq> ''Infinity''" using d(2) by auto
  with d u show ?thesis
    by (simp add: js_Number_def t radix_prefix_digits strip_sign_digits Let_def)
qed

lemma js_Number_show_nat: "js_Number (show_nat n) = Num (of_nat n)"
  by (simp add: js_Number_digits show_nat_value)

lemma new_Date_in_range [simp]: "\<bar>t\<bar> \<le> MAX_DATE_MS \<Longrightarrow> new_Date t = Some t"
  by (simp add: new_Date_def)

lemma new_Date_SomeD: "new_Date t = Some u \<Longrightarrow> u = t \<and> \<bar>t\<bar> \<le> MAX_DATE_MS"
  by (simp add: new_Date_def split: if_splits)

end
