(* ===== verification/Tables.thy ===== *)
theory Tables
  imports JsBase
begin

text \<open>
  Database tables as lists of rows in insertion order, with the operations the sources call
  through Prisma and libSQL (find by key, update by key, delete by key, ordered pages) and
  the lemmas on keys, lookups and sums that the component theories share. Also the generic
  invariant rule for transition systems, as a locale.
\<close>

section \<open>Operations\<close>

definition find_row :: "('r \<Rightarrow> 'k) \<Rightarrow> 'k \<Rightarrow> 'r list \<Rightarrow> 'r option" where
  "find_row key k t = find (\<lambda>r. key r = k) t"

definition update_row :: "('r \<Rightarrow> 'k) \<Rightarrow> 'k \<Rightarrow> ('r \<Rightarrow> 'r) \<Rightarrow> 'r list \<Rightarrow> 'r list" where
  "update_row key k f t = map (\<lambda>r. if key r = k then f r else r) t"

definition delete_row :: "('r \<Rightarrow> 'k) \<Rightarrow> 'k \<Rightarrow> 'r list \<Rightarrow> 'r list" where
  "delete_row key k t = filter (\<lambda>r. key r \<noteq> k) t"

text \<open>\<open>SUM(val) WHERE P\<close>.\<close>

definition sum_where :: "('r \<Rightarrow> int) \<Rightarrow> ('r \<Rightarrow> bool) \<Rightarrow> 'r list \<Rightarrow> int" where
  "sum_where val P t = sum_list (map val (filter P t))"

text \<open>\<open>skip\<close> and \<open>take\<close> of a query.\<close>

definition page_rows :: "nat \<Rightarrow> nat \<Rightarrow> 'r list \<Rightarrow> 'r list" where
  "page_rows skip tk t = take tk (drop skip t)"

text \<open>The value range of a Postgres \<open>bigint\<close> column.\<close>

definition in_int8 :: "int \<Rightarrow> bool" where
  "in_int8 i \<longleftrightarrow> - (2 ^ 63) \<le> i \<and> i < 2 ^ 63"

section \<open>Lookup\<close>

lemma find_row_Nil [simp]: "find_row key k [] = None"
  by (simp add: find_row_def)

lemma find_row_Cons [simp]:
  "find_row key k (r # t) = (if key r = k then Some r else find_row key k t)"
  by (simp add: find_row_def)

lemma find_row_SomeD: "find_row key k t = Some r \<Longrightarrow> r \<in> set t \<and> key r = k"
  by (induction t) (auto split: if_splits)

lemma find_row_None_iff: "find_row key k t = None \<longleftrightarrow> k \<notin> key ` set t"
  by (induction t) auto

lemma find_row_append:
  "find_row key k (s @ t) = (case find_row key k s of None \<Rightarrow> find_row key k t | Some r \<Rightarrow> Some r)"
  by (induction s) auto

lemma find_row_unique:
  "distinct (map key t) \<Longrightarrow> r \<in> set t \<Longrightarrow> find_row key (key r) t = Some r"
  by (induction t) force+

lemma find_row_update:
  assumes "\<And>r. key (f r) = key r"
  shows "find_row key k (update_row key j f t) =
    (if k = j then map_option f (find_row key k t) else find_row key k t)"
  using assms by (induction t) (auto simp: update_row_def)

lemma find_row_delete:
  "find_row key k (delete_row key j t) = (if k = j then None else find_row key k t)"
  by (induction t) (auto simp: delete_row_def)

section \<open>Keys\<close>

lemma map_key_update [simp]: "(\<And>r. key (f r) = key r) \<Longrightarrow> map key (update_row key k f t) = map key t"
  by (induction t) (auto simp: update_row_def)

lemma set_key_update [simp]: "(\<And>r. key (f r) = key r) \<Longrightarrow> key ` set (update_row key k f t) = key ` set t"
  using map_key_update [of key f k t] by (metis list.set_map)

lemma update_row_Nil [simp]: "update_row key k f [] = []"
  by (simp add: update_row_def)

lemma length_update_row [simp]: "length (update_row key k f t) = length t"
  by (simp add: update_row_def)

lemma set_delete_row [simp]: "set (delete_row key k t) = {r \<in> set t. key r \<noteq> k}"
  by (auto simp: delete_row_def)

lemma distinct_delete_row: "distinct (map key t) \<Longrightarrow> distinct (map key (delete_row key k t))"
  by (simp add: delete_row_def distinct_map_filter)

lemma update_rowE:
  assumes "x \<in> set (update_row key k f t)"
  obtains r where "r \<in> set t" "x = (if key r = k then f r else r)"
  using assms by (auto simp: update_row_def split: if_splits)

lemma length_delete_row_less: "k \<in> key ` set t \<Longrightarrow> length (delete_row key k t) < length t"
  by (induction t) (auto simp: delete_row_def le_imp_less_Suc)

lemma delete_row_absent: "k \<notin> key ` set t \<Longrightarrow> delete_row key k t = t"
  by (induction t) (auto simp: delete_row_def)

section \<open>Sums\<close>

lemma sum_where_Nil [simp]: "sum_where val P [] = 0"
  by (simp add: sum_where_def)

lemma sum_where_append [simp]: "sum_where val P (s @ t) = sum_where val P s + sum_where val P t"
  by (simp add: sum_where_def)

lemma sum_where_Cons [simp]:
  "sum_where val P (r # t) = (if P r then val r else 0) + sum_where val P t"
  by (simp add: sum_where_def)

lemma sum_where_none: "(\<And>r. r \<in> set t \<Longrightarrow> \<not> P r) \<Longrightarrow> sum_where val P t = 0"
  by (induction t) auto

lemma sum_where_nonneg: "(\<And>r. r \<in> set t \<Longrightarrow> P r \<Longrightarrow> 0 \<le> val r) \<Longrightarrow> 0 \<le> sum_where val P t"
  by (induction t) (auto simp: add_nonneg_nonneg)

lemma sum_where_delete_other:
  "(\<And>r. r \<in> set t \<Longrightarrow> key r = k \<Longrightarrow> \<not> P r) \<Longrightarrow> sum_where val P (delete_row key k t) = sum_where val P t"
  by (induction t) (auto simp: delete_row_def)

lemma sum_where_delete:
  assumes "distinct (map key t)" and "r \<in> set t"
  shows "sum_where val P (delete_row key (key r) t) = sum_where val P t - (if P r then val r else 0)"
  using assms
proof (induction t)
  case (Cons x t)
  show ?case
  proof (cases "x = r")
    case True
    then have "delete_row key (key r) t = t"
      using Cons.prems(1) by (intro delete_row_absent) simp
    with True show ?thesis by (simp add: delete_row_def)
  next
    case False
    with Cons show ?thesis by (force simp: delete_row_def)
  qed
qed simp

lemma length_filter_delete:
  assumes "distinct (map key t)" and "r \<in> set t" and "P r"
  shows "length (filter P t) = Suc (length (filter P (delete_row key (key r) t)))"
  using assms
proof (induction t)
  case (Cons x t)
  show ?case
  proof (cases "x = r")
    case True
    then have "delete_row key (key r) t = t"
      using Cons.prems(1) by (intro delete_row_absent) simp
    with True Cons.prems show ?thesis by (simp add: delete_row_def)
  next
    case False
    with Cons show ?thesis by (force simp: delete_row_def)
  qed
qed simp

section \<open>Transition systems\<close>

text \<open>
  The interface of a component whose operations are atomic steps: an initial state, a step
  relation, and an invariant that holds initially and is kept by every step.
\<close>

locale invariant_system =
  fixes init :: "'s \<Rightarrow> bool"
    and step :: "'s \<Rightarrow> 's \<Rightarrow> bool"
    and inv :: "'s \<Rightarrow> bool"
  assumes init_inv: "init s \<Longrightarrow> inv s"
    and step_inv: "step s t \<Longrightarrow> inv s \<Longrightarrow> inv t"
begin

lemma reachable_inv: "init s \<Longrightarrow> step\<^sup>*\<^sup>* s t \<Longrightarrow> inv t"
proof -
  assume i: "init s" and r: "step\<^sup>*\<^sup>* s t"
  from r show "inv t"
  proof (induction rule: rtranclp_induct)
    case base
    show ?case by (rule init_inv [OF i])
  next
    case (step t u)
    from step_inv [OF step.hyps(2) step.IH] show ?case .
  qed
qed

lemma inv_steps: "inv s \<Longrightarrow> step\<^sup>*\<^sup>* s t \<Longrightarrow> inv t"
  by (rotate_tac 1, induction rule: rtranclp_induct) (auto intro: step_inv)

end

end
