(* ===== verification/Entitlement.thy ===== *)
theory Entitlement
  imports JsBase
begin

text \<open>
  Entitlement writes, \<open>packages/db/src/entitlement.ts\<close>: the validation of a request body
  and the pure computation of the new expiry and allowance. The lemmas say what an accepted
  request satisfies, that a grant never shortens a plan, and when the allowance changes.
\<close>

section \<open>Requests\<close>

datatype EntitlementMode = Extend | Upgrade

datatype EntitlementSource = SrcPayment | SrcAdmin

text \<open>\<open>EntitlementError\<close>: an HTTP status and an error code.\<close>

datatype EntitlementError = EntitlementError nat string

record ParsedEntitlementRequest =
  durationDays :: int
  r_storageBytes :: "json option"
  source :: EntitlementSource
  storageBytesBig :: int
  mode :: "EntitlementMode option"
  force :: bool
  paymentHash :: "string option"
  r_planExpiresAt :: "string option"

definition MAX_DURATION_DAYS :: int where
  "MAX_DURATION_DAYS = 36500"

fun parse_durationDays :: "json option \<Rightarrow> int option" where
  "parse_durationDays (Some (JNum x)) =
     (if num_is_integer x \<and> 0 < num_to_int x \<and> num_to_int x \<le> MAX_DURATION_DAYS
      then Some (num_to_int x) else None)"
| "parse_durationDays _ = None"

definition parse_source :: "json option \<Rightarrow> EntitlementSource option" where
  "parse_source v =
     (if v = Some (JStr ''payment'') then Some SrcPayment
      else if v = Some (JStr ''admin'') then Some SrcAdmin else None)"

text \<open>\<open>BigInt(b.storageBytes)\<close>, which also throws on undefined, and the positivity check.\<close>

definition parse_storageBytes :: "json option \<Rightarrow> int option" where
  "parse_storageBytes v =
     (case v of
        None \<Rightarrow> None
      | Some j \<Rightarrow>
          (case bigint_of_json j of
             None \<Rightarrow> None
           | Some n \<Rightarrow> if n \<le> 0 then None else Some n))"

definition parse_mode :: "json option \<Rightarrow> EntitlementError + EntitlementMode option" where
  "parse_mode v =
     (case v of
        None \<Rightarrow> Inr None
      | Some j \<Rightarrow>
          if j = JStr ''extend'' then Inr (Some Extend)
          else if j = JStr ''upgrade'' then Inr (Some Upgrade)
          else Inl (EntitlementError 400 ''invalid_mode''))"

fun parse_paymentHash :: "json option \<Rightarrow> EntitlementError + string option" where
  "parse_paymentHash None = Inr None"
| "parse_paymentHash (Some (JStr s)) =
     (if is_sha256_hex_ci s then Inr (Some (to_lower s))
      else Inl (EntitlementError 400 ''invalid_payment_hash''))"
| "parse_paymentHash (Some _) = Inl (EntitlementError 400 ''invalid_payment_hash'')"

text \<open>The admin-only expiry override; \<open>date_parse\<close> is \<open>Date.parse\<close>.\<close>

definition parse_override ::
  "(string \<Rightarrow> date) \<Rightarrow> EntitlementSource \<Rightarrow> json option \<Rightarrow> EntitlementError + string option" where
  "parse_override date_parse src v =
     (case v of
        None \<Rightarrow> Inr None
      | Some j \<Rightarrow>
          if src \<noteq> SrcAdmin then Inl (EntitlementError 403 ''expiry_override_requires_admin'')
          else (case j of
                  JStr s \<Rightarrow> (if date_parse s = None
                             then Inl (EntitlementError 400 ''invalid_plan_expires_at'')
                             else Inr (Some s))
                | _ \<Rightarrow> Inl (EntitlementError 400 ''invalid_plan_expires_at'')))"

definition parseEntitlementRequest ::
  "(string \<Rightarrow> date) \<Rightarrow> json option \<Rightarrow> EntitlementError + ParsedEntitlementRequest" where
  "parseEntitlementRequest date_parse body =
     (case body of
        None \<Rightarrow> Inl (EntitlementError 400 ''invalid_entitlement'')
      | Some b \<Rightarrow>
      if \<not> truthy b \<or> \<not> typeof_object b then Inl (EntitlementError 400 ''invalid_entitlement'') else
      (case parse_durationDays (jprop ''durationDays'' b) of
         None \<Rightarrow> Inl (EntitlementError 400 ''invalid_duration'')
       | Some days \<Rightarrow>
      (case parse_source (jprop ''source'' b) of
         None \<Rightarrow> Inl (EntitlementError 400 ''invalid_source'')
       | Some src \<Rightarrow>
      (case parse_storageBytes (jprop ''storageBytes'' b) of
         None \<Rightarrow> Inl (EntitlementError 400 ''invalid_storage_bytes'')
       | Some bytes \<Rightarrow>
      (case parse_mode (jprop ''mode'' b) of
         Inl e \<Rightarrow> Inl e
       | Inr md \<Rightarrow>
      (let frc = (jprop ''force'' b = Some (JBool True)) in
       if frc \<and> src \<noteq> SrcAdmin then Inl (EntitlementError 403 ''force_requires_admin'') else
      (case parse_paymentHash (jprop ''paymentHash'' b) of
         Inl e \<Rightarrow> Inl e
       | Inr ph \<Rightarrow>
      if src = SrcPayment \<and> ph = None then Inl (EntitlementError 400 ''payment_hash_required'') else
      (case parse_override date_parse src (jprop ''planExpiresAt'' b) of
         Inl e \<Rightarrow> Inl e
       | Inr ovr \<Rightarrow>
          Inr \<lparr>durationDays = days, r_storageBytes = jprop ''storageBytes'' b, source = src,
               storageBytesBig = bytes, mode = md, force = frc, paymentHash = ph,
               r_planExpiresAt = ovr\<rparr>))))))))"

section \<open>Effect\<close>

text \<open>
  The entitlement fields of a user row. Dates of the database are valid; the allowance is
  null until the first grant.
\<close>

record UserEntitlement =
  ue_planExpiresAt :: "int option"
  ue_storageBytes :: "int option"

record EntitlementEffect =
  ef_planExpiresAt :: date
  ef_storageBytes :: "int option"

definition is_live :: "UserEntitlement \<Rightarrow> int \<Rightarrow> bool" where
  "is_live user now = (case ue_planExpiresAt user of None \<Rightarrow> False | Some t \<Rightarrow> now < t)"

definition computeEntitlement ::
  "(string \<Rightarrow> date) \<Rightarrow> UserEntitlement \<Rightarrow> ParsedEntitlementRequest \<Rightarrow> int
    \<Rightarrow> EntitlementError + EntitlementEffect" where
  "computeEntitlement date_parse user request now =
     (let live = is_live user now in
      if live \<and> \<not> force request \<and> mode request = None
      then Inl (EntitlementError 409 ''mode_required'')
      else
        (let md = (case mode request of None \<Rightarrow> Extend | Some m \<Rightarrow> m);
             base = max now (case ue_planExpiresAt user of None \<Rightarrow> 0 | Some t \<Rightarrow> t);
             expires = new_Date (base + durationDays request * DAY_MS);
             preserve = (md = Extend \<and> live \<and> \<not> force request);
             bytes = (if preserve then ue_storageBytes user else Some (storageBytesBig request))
         in Inr \<lparr>ef_planExpiresAt =
                   (case r_planExpiresAt request of
                      Some s \<Rightarrow> (if s \<noteq> [] then date_parse s else expires)
                    | None \<Rightarrow> expires),
                 ef_storageBytes = bytes\<rparr>))"

section \<open>Lemmas\<close>

lemma lower_char_hex:
  assumes "is_lower_hex c \<or> is_upper_hex c"
  shows "is_lower_hex (lower_char c)"
proof (cases "65 \<le> char_code c \<and> char_code c \<le> 90")
  case True
  with assms have "char_code c \<le> 70"
    by (auto simp: is_lower_hex_def is_upper_hex_def is_digit_def)
  with True show ?thesis
    by (simp add: lower_char_def Let_def is_lower_hex_def)
next
  case False
  with assms show ?thesis
    by (auto simp: lower_char_def Let_def is_lower_hex_def is_upper_hex_def)
qed

lemma to_lower_sha256: "is_sha256_hex_ci s \<Longrightarrow> is_sha256_hex (to_lower s)"
  by (simp add: is_sha256_hex_ci_def is_sha256_hex_def to_lower_def list_all_iff lower_char_hex)

lemma parse_durationDays_bounds:
  "parse_durationDays v = Some d \<Longrightarrow> 0 < d \<and> d \<le> MAX_DURATION_DAYS"
  by (cases v rule: parse_durationDays.cases) (auto split: if_splits)

lemma parse_storageBytes_pos: "parse_storageBytes v = Some n \<Longrightarrow> 0 < n"
  by (auto simp: parse_storageBytes_def split: option.splits if_splits)

lemma parse_paymentHash_hex: "parse_paymentHash v = Inr (Some h) \<Longrightarrow> is_sha256_hex h"
  by (cases v rule: parse_paymentHash.cases) (auto split: if_splits dest: to_lower_sha256)

lemma parse_override_admin:
  "parse_override dp src v = Inr (Some s) \<Longrightarrow> src = SrcAdmin \<and> dp s \<noteq> None"
  by (auto simp: parse_override_def split: option.splits if_splits json.splits)

text \<open>What every accepted request satisfies.\<close>

definition valid_request :: "(string \<Rightarrow> date) \<Rightarrow> ParsedEntitlementRequest \<Rightarrow> bool" where
  "valid_request dp r \<longleftrightarrow>
     0 < durationDays r \<and> durationDays r \<le> MAX_DURATION_DAYS
     \<and> 0 < storageBytesBig r
     \<and> (source r = SrcPayment \<longrightarrow> paymentHash r \<noteq> None \<and> \<not> force r \<and> r_planExpiresAt r = None)
     \<and> (case paymentHash r of None \<Rightarrow> True | Some h \<Rightarrow> is_sha256_hex h)
     \<and> (case r_planExpiresAt r of None \<Rightarrow> True | Some s \<Rightarrow> dp s \<noteq> None)"

lemma parse_valid:
  assumes "parseEntitlementRequest dp body = Inr r"
  shows "valid_request dp r"
  using assms
  by (auto simp: parseEntitlementRequest_def valid_request_def Let_def
      split: option.splits if_splits sum.splits
      dest: parse_durationDays_bounds parse_storageBytes_pos parse_paymentHash_hex
        parse_override_admin)

lemma compute_mode_required:
  "computeEntitlement dp u r now = Inl e \<longleftrightarrow>
     e = EntitlementError 409 ''mode_required'' \<and> is_live u now \<and> \<not> force r \<and> mode r = None"
  by (auto simp: computeEntitlement_def Let_def)

lemma mode_exhaust: "m = None \<or> m = Some Extend \<or> m = Some Upgrade"
  by (cases m) (auto intro: EntitlementMode.exhaust)

lemma compute_allowance:
  assumes "computeEntitlement dp u r now = Inr ef"
  shows "ef_storageBytes ef =
    (if is_live u now \<and> \<not> force r \<and> mode r = Some Extend
     then ue_storageBytes u else Some (storageBytesBig r))"
  using assms mode_exhaust [of "mode r"]
  by (auto simp: computeEntitlement_def Let_def split: if_splits)

lemma compute_expiry:
  assumes "computeEntitlement dp u r now = Inr ef" and "r_planExpiresAt r = None"
  shows "ef_planExpiresAt ef =
    new_Date (max now (case ue_planExpiresAt u of None \<Rightarrow> 0 | Some t \<Rightarrow> t) + durationDays r * DAY_MS)"
  using assms by (auto simp: computeEntitlement_def Let_def split: if_splits)

section \<open>Properties\<close>

text \<open>
  Validation of entitlement bodies: an accepted request asks for 1 to 36500 days and a
  positive allowance; a payment request carries a lower-case 64-digit payment hash and can
  neither force nor override the expiry; an expiry override is a valid date.
\<close>

theorem parseEntitlementRequest_sound:
  assumes "parseEntitlementRequest dp body = Inr r"
  shows "0 < durationDays r \<and> durationDays r \<le> 36500 \<and> 0 < storageBytesBig r
    \<and> (source r = SrcPayment \<longrightarrow>
         (\<exists>h. paymentHash r = Some h \<and> is_sha256_hex h) \<and> \<not> force r \<and> r_planExpiresAt r = None)
    \<and> (\<forall>s. r_planExpiresAt r = Some s \<longrightarrow> source r = SrcAdmin \<and> dp s \<noteq> None)"
  using parse_valid [OF assms]
  by (auto simp: valid_request_def MAX_DURATION_DAYS_def split: option.splits
      intro: EntitlementSource.exhaust [of "source r"])

text \<open>A concrete payment request, for the witnesses.\<close>

definition sample_body :: json where
  "sample_body = JObj [(''durationDays'', JNum (Num 30)), (''source'', JStr ''payment''),
     (''storageBytes'', JStr ''1024''), (''paymentHash'', JStr (replicate 64 CHR ''A''))]"

definition sample_request :: ParsedEntitlementRequest where
  "sample_request = \<lparr>durationDays = 30, r_storageBytes = Some (JStr ''1024''), source = SrcPayment,
     storageBytesBig = 1024, mode = None, force = False,
     paymentHash = Some (replicate 64 CHR ''a''), r_planExpiresAt = None\<rparr>"

lemma sample_parse: "parseEntitlementRequest dp (Some sample_body) = Inr sample_request"
proof -
  have hex: "is_sha256_hex_ci (replicate 64 CHR ''A'')"
    by code_simp
  have low: "to_lower (replicate 64 CHR ''A'') = replicate 64 CHR ''a''"
    by code_simp
  have big: "bigint_of_string ''1024'' = Some 1024"
    by code_simp
  show ?thesis
    by (simp add: sample_body_def sample_request_def parseEntitlementRequest_def parse_source_def
        parse_storageBytes_def big parse_mode_def parse_override_def rat_is_int_def
        MAX_DURATION_DAYS_def hex low)
qed

theorem parseEntitlementRequest_sound_witness:
  "\<exists>r. parseEntitlementRequest (\<lambda>_. None) (Some sample_body) = Inr r
     \<and> (\<exists>h. paymentHash r = Some h \<and> is_sha256_hex h) \<and> 0 < storageBytesBig r"
  using parseEntitlementRequest_sound [OF sample_parse [of "\<lambda>_. None"]] sample_parse [of "\<lambda>_. None"]
  by (simp add: sample_request_def)

text \<open>
  C6. A paid grant never shortens a plan: when an accepted payment request is applied, the
  new expiry is the later of now and the old expiry plus the bought days (or the invalid
  date beyond the range of \<open>Date\<close>), hence strictly later than both.
\<close>

theorem paid_grant_extends:
  assumes "parseEntitlementRequest dp body = Inr r" and "source r = SrcPayment"
    and "computeEntitlement dp u r now = Inr ef" and "ef_planExpiresAt ef = Some t"
  shows "t = max now (case ue_planExpiresAt u of None \<Rightarrow> 0 | Some e \<Rightarrow> e) + durationDays r * DAY_MS
    \<and> now < t \<and> (\<forall>e. ue_planExpiresAt u = Some e \<longrightarrow> e < t)"
proof -
  have v: "0 < durationDays r" "r_planExpiresAt r = None"
    using parse_valid [OF assms(1)] assms(2) by (auto simp: valid_request_def)
  have "new_Date (max now (case ue_planExpiresAt u of None \<Rightarrow> 0 | Some e \<Rightarrow> e) + durationDays r * DAY_MS) = Some t"
    using compute_expiry [OF assms(3) v(2)] assms(4) by simp
  moreover have "0 < durationDays r * DAY_MS"
    using v(1) by (simp add: DAY_MS_def)
  ultimately show ?thesis
    by (auto dest!: new_Date_SomeD split: option.splits)
qed

theorem paid_grant_extends_witness:
  "computeEntitlement (\<lambda>_. None) \<lparr>ue_planExpiresAt = Some 5000, ue_storageBytes = Some 7\<rparr>
      sample_request 9000
     = Inr \<lparr>ef_planExpiresAt = Some (9000 + 30 * DAY_MS), ef_storageBytes = Some 1024\<rparr>
   \<and> 5000 < 9000 + 30 * DAY_MS"
proof -
  have c: "computeEntitlement (\<lambda>_. None) \<lparr>ue_planExpiresAt = Some 5000, ue_storageBytes = Some 7\<rparr>
      sample_request 9000
     = Inr \<lparr>ef_planExpiresAt = Some (9000 + 30 * DAY_MS), ef_storageBytes = Some 1024\<rparr>"
    by (simp add: computeEntitlement_def is_live_def sample_request_def js_defs)
  have s: "source sample_request = SrcPayment"
    by (simp add: sample_request_def)
  show ?thesis
    using paid_grant_extends [OF sample_parse s c, of "9000 + 30 * DAY_MS"] c by simp
qed

text \<open>
  When the allowance changes: renewing a live plan (mode extend, not forced) keeps the
  allowance; every other accepted grant (no live plan, an upgrade, or an admin force) sets
  it to the requested size; and a live plan without mode is refused with mode_required.
\<close>

lemma computeEntitlement_allowance:
  "(\<forall>e. computeEntitlement dp u r now = Inl e \<longleftrightarrow>
        e = EntitlementError 409 ''mode_required'' \<and> is_live u now \<and> \<not> force r \<and> mode r = None)
   \<and> (case computeEntitlement dp u r now of
        Inl _ \<Rightarrow> True
      | Inr ef \<Rightarrow> ef_storageBytes ef =
          (if is_live u now \<and> \<not> force r \<and> mode r = Some Extend
           then ue_storageBytes u else Some (storageBytesBig r)))"
  by (auto simp: compute_mode_required dest: compute_allowance split: sum.split)

end
