(* ===== verification/DbApi.thy ===== *)
theory DbApi
  imports Tables Entitlement
begin

text \<open>
  The data service \<open>packages/db\<close>: its tables (\<open>prisma/schema.prisma\<close>) and the handlers of
  \<open>src/index.ts\<close> and \<open>src/routes/users.ts\<close>, \<open>admin.ts\<close>, \<open>notifications.ts\<close>,
  \<open>moderation.ts\<close>, \<open>service-accounts.ts\<close> behind the service gate, with
  \<open>src/pagination.ts\<close>. A transaction is a function from the state to a response and a new
  state; an exception inside it gives back the old state. Rows are typed; the JSON texts
  of dates and sizes are the subject of the theory \<open>Serialize\<close>.
\<close>

section \<open>Tables\<close>

record User =
  u_npub :: npub
  u_planExpiresAt :: "int option"
  u_storageBytes :: "int option"
  u_usedStorage :: int
  u_createdAt :: int

record Blob =
  b_hash :: blob_hash
  b_npub :: npub
  b_size :: int
  b_replicas :: "string list"
  b_createdAt :: int

record EntitlementGrant =
  g_paymentHash :: string
  g_npub :: npub
  g_createdAt :: int

record ServiceAccount =
  sa_npub :: npub
  sa_label :: "string option"
  sa_enabled :: bool
  sa_createdAt :: int

record NotificationLog =
  nl_id :: string
  nl_npub :: npub
  nl_kind :: string
  nl_ref :: "string option"
  nl_channel :: string
  nl_sentAt :: int

record ModerationAction =
  ma_id :: string
  ma_hash :: blob_hash
  ma_npub :: npub
  ma_adminNpub :: npub
  ma_reason :: string
  ma_createdAt :: int

record db =
  users :: "User list"
  blobs :: "Blob list"
  grants :: "EntitlementGrant list"
  serviceAccounts :: "ServiceAccount list"
  notificationLogs :: "NotificationLog list"
  moderationActions :: "ModerationAction list"

text \<open>The compound key \<open>hash_npub\<close> of a blob row.\<close>

definition blob_key :: "Blob \<Rightarrow> blob_hash \<times> npub" where
  "blob_key b = (b_hash b, b_npub b)"

abbreviation find_user :: "db \<Rightarrow> npub \<Rightarrow> User option" where
  "find_user d n \<equiv> find_row u_npub n (users d)"

abbreviation find_blob :: "db \<Rightarrow> blob_hash \<Rightarrow> npub \<Rightarrow> Blob option" where
  "find_blob d h n \<equiv> find_row blob_key (h, n) (blobs d)"

text \<open>Prisma's error codes that the handlers tell apart.\<close>

datatype prisma_error = P2002 | P2025 | OtherError

section \<open>Pagination\<close>

record Pagination =
  pg_page :: nat
  pg_pageSize :: nat
  pg_skip :: nat
  pg_take :: nat

record 'a paginated =
  items :: "'a list"
  total :: nat
  page :: nat
  pageSize :: nat

definition DEFAULT_PAGE_SIZE :: nat where
  "DEFAULT_PAGE_SIZE = 25"

definition MAX_PAGE_SIZE :: nat where
  "MAX_PAGE_SIZE = 100"

text \<open>A query value is a string, another parsed value, or absent.\<close>

definition parse_digits :: "json option \<Rightarrow> nat option" where
  "parse_digits v =
     (case v of Some (JStr s) \<Rightarrow> (if all_digits s then Some (decimal_nat s) else None) | _ \<Rightarrow> None)"

definition parsePagination :: "(string \<Rightarrow> json option) \<Rightarrow> Pagination" where
  "parsePagination query =
     (let p = (case parse_digits (query ''page'') of Some n \<Rightarrow> max 1 n | None \<Rightarrow> 1);
          ps = (case parse_digits (query ''pageSize'') of
                  Some n \<Rightarrow> min MAX_PAGE_SIZE (max 1 n) | None \<Rightarrow> DEFAULT_PAGE_SIZE)
      in \<lparr>pg_page = p, pg_pageSize = ps, pg_skip = (p - 1) * ps, pg_take = ps\<rparr>)"

definition paginated :: "'a list \<Rightarrow> nat \<Rightarrow> Pagination \<Rightarrow> 'a paginated" where
  "paginated xs n pg = \<lparr>items = xs, total = n, page = pg_page pg, pageSize = pg_pageSize pg\<rparr>"

definition queryString :: "json option \<Rightarrow> string option" where
  "queryString v = (case v of Some (JStr s) \<Rightarrow> (if s \<noteq> [] then Some s else None) | _ \<Rightarrow> None)"

text \<open>A filtered, ordered page of a table and the count of the filtered rows.\<close>

definition find_page :: "('r \<Rightarrow> bool) \<Rightarrow> ('r \<Rightarrow> int) \<Rightarrow> Pagination \<Rightarrow> 'r list \<Rightarrow> 'r paginated" where
  "find_page P ord pg t =
     (let rows = filter P t in
      paginated (page_rows (pg_skip pg) (pg_take pg) (sort_key ord rows)) (length rows) pg)"

section \<open>Blob routes\<close>

text \<open>\<open>GET /blobs/total\<close>.\<close>

definition getBlobsTotal :: "db \<Rightarrow> int" where
  "getBlobsTotal d = sum_where b_size (\<lambda>_. True) (blobs d)"

record BlobWithOwners =
  bo_blob :: Blob
  bo_owners :: "npub list"

text \<open>\<open>GET /blobs/:hash\<close>: the oldest row and the owners, oldest first.\<close>

definition getBlob :: "db \<Rightarrow> blob_hash \<Rightarrow> BlobWithOwners response" where
  "getBlob d h =
     (case sort_key b_createdAt (filter (\<lambda>b. b_hash b = h) (blobs d)) of
        [] \<Rightarrow> Failure 404 ''not_found''
      | first # rest \<Rightarrow> Success 200 \<lparr>bo_blob = first, bo_owners = map b_npub (first # rest)\<rparr>)"

text \<open>The effect of the transaction of \<open>POST /blobs\<close> on the two tables it writes.\<close>

definition add_blob :: "Blob \<Rightarrow> db \<Rightarrow> db" where
  "add_blob b d = d\<lparr>blobs := blobs d @ [b],
     users := update_row u_npub (b_npub b)
                (\<lambda>u. u\<lparr>u_usedStorage := u_usedStorage u + b_size b\<rparr>) (users d)\<rparr>"

text \<open>
  \<open>POST /blobs\<close>. The body's size is \<open>BigInt\<close>-converted inside the try block; a value
  outside the column's range makes the insert or the increment fail.
\<close>

definition postBlob ::
  "int \<Rightarrow> blob_hash \<Rightarrow> npub \<Rightarrow> json \<Rightarrow> string list \<Rightarrow> db \<Rightarrow> (Blob \<times> int) response \<times> db" where
  "postBlob now h n sz replicas d =
     (case bigint_of_json sz of
        None \<Rightarrow> (Failure 500 ''internal_error'', d)
      | Some sizeBig \<Rightarrow>
     (case find_user d n of
        None \<Rightarrow> (Failure 404 ''user_not_found'', d)
      | Some current \<Rightarrow>
      if find_blob d h n \<noteq> None then (Failure 409 ''already_exists'', d)
      else if (case u_storageBytes current of
                 None \<Rightarrow> False
               | Some a \<Rightarrow> a < u_usedStorage current + sizeBig)
      then (Failure 409 ''quota_exceeded'', d)
      else if \<not> in_int8 sizeBig \<or> \<not> in_int8 (u_usedStorage current + sizeBig)
      then (Failure 500 ''internal_error'', d)
      else
        (let b = \<lparr>b_hash = h, b_npub = n, b_size = sizeBig, b_replicas = replicas,
                  b_createdAt = now\<rparr>
         in (Success 201 (b, u_usedStorage current + sizeBig), add_blob b d))))"

text \<open>
  The loop of \<open>DELETE /blobs/:hash\<close>: each row is deleted and its owner gets the bytes
  back; the last owner's new usage is remembered.
\<close>

definition drop_blob :: "Blob \<Rightarrow> db \<Rightarrow> db" where
  "drop_blob b d = d\<lparr>blobs := delete_row blob_key (blob_key b) (blobs d),
     users := update_row u_npub (b_npub b)
                (\<lambda>u. u\<lparr>u_usedStorage := u_usedStorage u - b_size b\<rparr>) (users d)\<rparr>"

fun delete_rows :: "Blob list \<Rightarrow> int \<Rightarrow> db \<Rightarrow> prisma_error + (int \<times> db)" where
  "delete_rows [] lastUsed d = Inr (lastUsed, d)"
| "delete_rows (r # rs) lastUsed d =
     (if find_row blob_key (blob_key r) (blobs d) = None then Inl P2025
      else (case find_user d (b_npub r) of
              None \<Rightarrow> Inl P2025
            | Some u \<Rightarrow>
                if \<not> in_int8 (u_usedStorage u - b_size r) then Inl OtherError
                else delete_rows rs (u_usedStorage u - b_size r) (drop_blob r d)))"

record DeleteResult =
  dr_usedStorage :: int
  dr_remainingOwners :: nat

text \<open>\<open>DELETE /blobs/:hash?npub=\<close> or \<open>?all=true\<close>.\<close>

definition deleteBlob :: "blob_hash \<Rightarrow> npub option \<Rightarrow> bool \<Rightarrow> db \<Rightarrow> DeleteResult response \<times> db" where
  "deleteBlob h n all d =
     (if (n = None \<or> n = Some []) \<and> \<not> all then (Failure 400 ''npub_or_all_required'', d)
      else
        (let rows = filter (\<lambda>b. b_hash b = h \<and> (all \<or> Some (b_npub b) = n)) (blobs d) in
         if rows = [] then (Failure 404 ''not_found'', d)
         else (case delete_rows rows 0 d of
                 Inl P2025 \<Rightarrow> (Failure 404 ''not_found'', d)
               | Inl _ \<Rightarrow> (Failure 500 ''internal_error'', d)
               | Inr (lastUsed, d') \<Rightarrow>
                   (Success 200 \<lparr>dr_usedStorage = lastUsed,
                      dr_remainingOwners = length (filter (\<lambda>b. b_hash b = h) (blobs d'))\<rparr>, d'))))"

section \<open>User routes\<close>

text \<open>\<open>GET /users/attention\<close>: users with an expiry, soonest first.\<close>

definition getAttention :: "(string \<Rightarrow> json option) \<Rightarrow> db \<Rightarrow> User paginated" where
  "getAttention query d =
     find_page (\<lambda>u. u_planExpiresAt u \<noteq> None) (\<lambda>u. the (u_planExpiresAt u))
       (parsePagination query) (users d)"

text \<open>\<open>GET /users/:npub\<close>.\<close>

definition getUser :: "db \<Rightarrow> npub \<Rightarrow> User response" where
  "getUser d n =
     (case find_user d n of None \<Rightarrow> Failure 404 ''not_found'' | Some u \<Rightarrow> Success 200 u)"

text \<open>\<open>GET /users\<close>: newest first, optional case-insensitive npub substring.\<close>

definition listUsers :: "(string \<Rightarrow> json option) \<Rightarrow> db \<Rightarrow> User paginated" where
  "listUsers query d =
     find_page (\<lambda>u. case queryString (query ''query'') of
                      None \<Rightarrow> True | Some q \<Rightarrow> contains_str (to_lower (u_npub u)) (to_lower q))
       (\<lambda>u. - u_createdAt u) (parsePagination query) (users d)"

text \<open>The upsert of a user row: created with no plan, no allowance and no usage.\<close>

definition upsert_user :: "int \<Rightarrow> npub \<Rightarrow> db \<Rightarrow> User \<times> db" where
  "upsert_user now n d =
     (case find_user d n of
        Some u \<Rightarrow> (u, d)
      | None \<Rightarrow>
          (let u = \<lparr>u_npub = n, u_planExpiresAt = None, u_storageBytes = None, u_usedStorage = 0,
                    u_createdAt = now\<rparr>
           in (u, d\<lparr>users := users d @ [u]\<rparr>)))"

definition user_entitlement :: "User \<Rightarrow> UserEntitlement" where
  "user_entitlement u = \<lparr>ue_planExpiresAt = u_planExpiresAt u, ue_storageBytes = u_storageBytes u\<rparr>"

text \<open>
  The transaction of \<open>POST /users/:npub/entitlement\<close>. An error (from
  \<open>computeEntitlement\<close> or from Prisma) rolls everything back.
\<close>

datatype tx_error = TxEntitlement EntitlementError | TxPrisma prisma_error

definition claim_grant ::
  "int \<Rightarrow> npub \<Rightarrow> string option \<Rightarrow> db \<Rightarrow> tx_error + db" where
  "claim_grant now n ph d =
     (case ph of
        None \<Rightarrow> Inr d
      | Some h \<Rightarrow>
          if find_row g_paymentHash h (grants d) \<noteq> None then Inl (TxPrisma P2002)
          else Inr (d\<lparr>grants := grants d @ [\<lparr>g_paymentHash = h, g_npub = n, g_createdAt = now\<rparr>]\<rparr>))"

definition set_entitlement :: "npub \<Rightarrow> int \<Rightarrow> int option \<Rightarrow> db \<Rightarrow> db" where
  "set_entitlement n expires bytes d =
     d\<lparr>users := update_row u_npub n
         (\<lambda>u. u\<lparr>u_planExpiresAt := Some expires, u_storageBytes := bytes\<rparr>) (users d)\<rparr>"

definition entitlement_tx ::
  "(string \<Rightarrow> date) \<Rightarrow> int \<Rightarrow> npub \<Rightarrow> ParsedEntitlementRequest \<Rightarrow> db \<Rightarrow> tx_error + (User \<times> db)" where
  "entitlement_tx date_parse now n request d =
     (let (current, d1) = upsert_user now n d in
      case claim_grant now n (paymentHash request) d1 of
        Inl e \<Rightarrow> Inl e
      | Inr d2 \<Rightarrow>
      (case computeEntitlement date_parse (user_entitlement current) request now of
         Inl e \<Rightarrow> Inl (TxEntitlement e)
       | Inr effect \<Rightarrow>
      (case ef_planExpiresAt effect of
         None \<Rightarrow> Inl (TxPrisma OtherError)
       | Some t \<Rightarrow>
          if (case ef_storageBytes effect of None \<Rightarrow> False | Some b \<Rightarrow> \<not> in_int8 b)
          then Inl (TxPrisma OtherError)
          else Inr (current\<lparr>u_planExpiresAt := Some t, u_storageBytes := ef_storageBytes effect\<rparr>,
                    set_entitlement n t (ef_storageBytes effect) d2))))"

definition postEntitlement ::
  "(string \<Rightarrow> date) \<Rightarrow> int \<Rightarrow> npub \<Rightarrow> json option \<Rightarrow> db \<Rightarrow> User response \<times> db" where
  "postEntitlement date_parse now n body d =
     (case parseEntitlementRequest date_parse body of
        Inl (EntitlementError st code) \<Rightarrow> (Failure st code, d)
      | Inr request \<Rightarrow>
     (case entitlement_tx date_parse now n request d of
        Inr (u, d') \<Rightarrow> (Success 200 u, d')
      | Inl (TxEntitlement (EntitlementError st code)) \<Rightarrow> (Failure st code, d)
      | Inl (TxPrisma e) \<Rightarrow>
          (case (e, paymentHash request) of
             (P2002, Some h) \<Rightarrow>
               (case find_row g_paymentHash h (grants d) of
                  Some g \<Rightarrow>
                    if g_npub g \<noteq> n then (Failure 409 ''payment_hash_used_by_other_user'', d)
                    else (case find_user d n of
                            Some u \<Rightarrow> (Success 200 u, d)
                          | None \<Rightarrow> (Failure 500 ''internal_error'', d))
                | None \<Rightarrow>
                    (case find_user d n of
                       Some u \<Rightarrow> (Success 200 u, d)
                     | None \<Rightarrow> (Failure 500 ''internal_error'', d)))
           | _ \<Rightarrow> (Failure 500 ''internal_error'', d))))"

text \<open>\<open>GET /users/:npub/blobs\<close>: newest first.\<close>

definition listUserBlobs :: "npub \<Rightarrow> (string \<Rightarrow> json option) \<Rightarrow> db \<Rightarrow> Blob paginated" where
  "listUserBlobs n query d =
     find_page (\<lambda>b. b_npub b = n) (\<lambda>b. - b_createdAt b) (parsePagination query) (blobs d)"

text \<open>\<open>DELETE /users/:npub/blobs\<close>: all rows of one owner in one transaction.\<close>

definition deleteUserBlobs :: "npub \<Rightarrow> db \<Rightarrow> Blob list response \<times> db" where
  "deleteUserBlobs n d =
     (let bs = filter (\<lambda>b. b_npub b = n) (blobs d) in
      if bs = [] then (Success 200 [], d)
      else if find_user d n = None then (Failure 500 ''internal_error'', d)
      else (Success 200 bs,
            d\<lparr>blobs := filter (\<lambda>b. b_npub b \<noteq> n) (blobs d),
              users := update_row u_npub n (\<lambda>u. u\<lparr>u_usedStorage := 0\<rparr>) (users d)\<rparr>))"

text \<open>\<open>GET /users/:npub/notifications\<close>, and \<open>GET /notifications?npub=\<close>.\<close>

definition listUserNotifications ::
  "npub \<Rightarrow> (string \<Rightarrow> json option) \<Rightarrow> db \<Rightarrow> NotificationLog paginated" where
  "listUserNotifications n query d =
     find_page (\<lambda>r. nl_npub r = n) (\<lambda>r. - nl_sentAt r) (parsePagination query) (notificationLogs d)"

definition getNotifications ::
  "(string \<Rightarrow> json option) \<Rightarrow> db \<Rightarrow> NotificationLog paginated response" where
  "getNotifications query d =
     (case queryString (query ''npub'') of
        None \<Rightarrow> Failure 400 ''npub_required''
      | Some n \<Rightarrow> Success 200 (listUserNotifications n query d))"

section \<open>Notifications, moderation, service accounts, statistics\<close>

text \<open>
  The unique index on (npub, kind, ref, channel). Postgres treats NULLs in a unique index as
  distinct, so a row without ref never conflicts.
\<close>

definition nl_conflict :: "npub \<Rightarrow> string \<Rightarrow> string option \<Rightarrow> string \<Rightarrow> NotificationLog \<Rightarrow> bool" where
  "nl_conflict n k rf ch r \<longleftrightarrow>
     rf \<noteq> None \<and> nl_npub r = n \<and> nl_kind r = k \<and> nl_ref r = rf \<and> nl_channel r = ch"

text \<open>\<open>POST /notifications\<close> with its fields as strings; \<open>fresh\<close> is the generated id.\<close>

definition postNotification ::
  "int \<Rightarrow> string \<Rightarrow> npub \<Rightarrow> string \<Rightarrow> string option \<Rightarrow> string \<Rightarrow> db \<Rightarrow> NotificationLog response \<times> db" where
  "postNotification now fresh n k rf ch d =
     (if n = [] \<or> k = [] \<or> ch = [] then (Failure 400 ''invalid_notification'', d)
      else if list_ex (nl_conflict n k rf ch) (notificationLogs d)
      then (Failure 409 ''already_exists'', d)
      else
        (let r = \<lparr>nl_id = fresh, nl_npub = n, nl_kind = k, nl_ref = rf, nl_channel = ch,
                  nl_sentAt = now\<rparr>
         in (Success 201 r, d\<lparr>notificationLogs := notificationLogs d @ [r]\<rparr>)))"

text \<open>\<open>POST /moderation\<close> and \<open>GET /moderation\<close>.\<close>

definition postModeration ::
  "int \<Rightarrow> string \<Rightarrow> blob_hash \<Rightarrow> npub \<Rightarrow> npub \<Rightarrow> string \<Rightarrow> db \<Rightarrow> ModerationAction response \<times> db" where
  "postModeration now fresh h n admin reason d =
     (if h = [] \<or> n = [] \<or> admin = [] \<or> reason = []
      then (Failure 400 ''invalid_moderation_action'', d)
      else
        (let a = \<lparr>ma_id = fresh, ma_hash = h, ma_npub = n, ma_adminNpub = admin,
                  ma_reason = reason, ma_createdAt = now\<rparr>
         in (Success 201 a, d\<lparr>moderationActions := moderationActions d @ [a]\<rparr>)))"

definition opt_eq :: "string option \<Rightarrow> string \<Rightarrow> bool" where
  "opt_eq f v = (case f of None \<Rightarrow> True | Some x \<Rightarrow> v = x)"

definition getModeration :: "(string \<Rightarrow> json option) \<Rightarrow> db \<Rightarrow> ModerationAction paginated" where
  "getModeration query d =
     find_page (\<lambda>a. opt_eq (queryString (query ''hash'')) (ma_hash a)
                   \<and> opt_eq (queryString (query ''npub'')) (ma_npub a))
       (\<lambda>a. - ma_createdAt a) (parsePagination query) (moderationActions d)"

text \<open>\<open>GET /service-accounts/:npub\<close> and the list.\<close>

definition getServiceAccount :: "db \<Rightarrow> npub \<Rightarrow> ServiceAccount response" where
  "getServiceAccount d n =
     (case find_row sa_npub n (serviceAccounts d) of
        None \<Rightarrow> Failure 404 ''not_found'' | Some a \<Rightarrow> Success 200 a)"

definition listServiceAccounts :: "(string \<Rightarrow> json option) \<Rightarrow> db \<Rightarrow> ServiceAccount paginated" where
  "listServiceAccounts query d =
     find_page (\<lambda>a. case queryString (query ''enabled'') of
                      None \<Rightarrow> True | Some e \<Rightarrow> sa_enabled a = (e = ''true''))
       (\<lambda>a. - sa_createdAt a) (parsePagination query) (serviceAccounts d)"

text \<open>The upsert of \<open>scripts/registerService.ts\<close>.\<close>

definition registerService :: "int \<Rightarrow> npub \<Rightarrow> string option \<Rightarrow> bool \<Rightarrow> db \<Rightarrow> db" where
  "registerService now n label enabled d =
     (case find_row sa_npub n (serviceAccounts d) of
        Some _ \<Rightarrow>
          d\<lparr>serviceAccounts := update_row sa_npub n
              (\<lambda>a. a\<lparr>sa_enabled := enabled,
                     sa_label := (case label of None \<Rightarrow> sa_label a | Some l \<Rightarrow> Some l)\<rparr>)
              (serviceAccounts d)\<rparr>
      | None \<Rightarrow>
          d\<lparr>serviceAccounts := serviceAccounts d @
              [\<lparr>sa_npub = n, sa_label = label, sa_enabled = enabled, sa_createdAt = now\<rparr>]\<rparr>)"

text \<open>\<open>GET /blobs\<close> (admin search) and \<open>GET /storage-stats\<close>.\<close>

definition listAllBlobs :: "(string \<Rightarrow> json option) \<Rightarrow> db \<Rightarrow> Blob paginated" where
  "listAllBlobs query d =
     find_page (\<lambda>b. opt_eq (queryString (query ''hash'')) (b_hash b)
         \<and> (case queryString (query ''query'') of
              Some q \<Rightarrow> contains_str (to_lower (b_npub b)) (to_lower q)
            | None \<Rightarrow> opt_eq (queryString (query ''npub'')) (b_npub b)))
       (\<lambda>b. - b_createdAt b) (parsePagination query) (blobs d)"

record StorageStats =
  st_users :: nat
  st_blobs :: nat
  st_bytes :: int

definition storageStats :: "db \<Rightarrow> StorageStats" where
  "storageStats d = \<lparr>st_users = length (users d), st_blobs = length (blobs d),
     st_bytes = sum_where b_size (\<lambda>_. True) (blobs d)\<rparr>"

end
