(* ===== verification/DbApi_Inv.thy ===== *)
theory DbApi_Inv
  imports DbApi
begin

text \<open>
  The accounting invariant of the data service and its proofs: every user's recorded usage is
  the sum of the sizes of the blob rows that name them as owner, every blob row has a user
  row, and the unique keys hold. Every transaction keeps it, so it holds in every reachable
  state, for any interleaving of transactions.
\<close>

section \<open>Definitions\<close>

definition used_by :: "db \<Rightarrow> npub \<Rightarrow> int" where
  "used_by d n = sum_where b_size (\<lambda>b. b_npub b = n) (blobs d)"

definition db_ok :: "db \<Rightarrow> bool" where
  "db_ok d \<longleftrightarrow>
     distinct (map u_npub (users d)) \<and> distinct (map blob_key (blobs d))
     \<and> distinct (map g_paymentHash (grants d))
     \<and> (\<forall>b \<in> set (blobs d). b_npub b \<in> u_npub ` set (users d))
     \<and> (\<forall>u \<in> set (users d). u_usedStorage u = used_by d (u_npub u) \<and> in_int8 (u_usedStorage u))
     \<and> (\<forall>g \<in> set (grants d). g_npub g \<in> u_npub ` set (users d))"

definition empty_db :: db where
  "empty_db = \<lparr>users = [], blobs = [], grants = [], serviceAccounts = [], notificationLogs = [],
     moderationActions = []\<rparr>"

text \<open>One transaction of any caller of the data service.\<close>

inductive db_step :: "db \<Rightarrow> db \<Rightarrow> bool" where
  step_postBlob: "db_step d (snd (postBlob now h n sz rs d))"
| step_deleteBlob: "db_step d (snd (deleteBlob h no all d))"
| step_postEntitlement: "db_step d (snd (postEntitlement dp now n body d))"
| step_deleteUserBlobs: "db_step d (snd (deleteUserBlobs n d))"
| step_postNotification: "db_step d (snd (postNotification now fresh n k rf ch d))"
| step_postModeration: "db_step d (snd (postModeration now fresh h n admin rsn d))"
| step_registerService: "db_step d (registerService now n label enabled d)"

text \<open>All users are within their allowance.\<close>

definition within_quota :: "db \<Rightarrow> bool" where
  "within_quota d \<longleftrightarrow>
     (\<forall>u \<in> set (users d). case u_storageBytes u of None \<Rightarrow> True | Some a \<Rightarrow> u_usedStorage u \<le> a)"

definition sizes_ok :: "db \<Rightarrow> bool" where
  "sizes_ok d \<longleftrightarrow> (\<forall>b \<in> set (blobs d). 0 \<le> b_size b)"

section \<open>Lemmas\<close>

lemma db_okI [intro?]:
  assumes "distinct (map u_npub (users d))" and "distinct (map blob_key (blobs d))"
    and "distinct (map g_paymentHash (grants d))"
    and "\<And>b. b \<in> set (blobs d) \<Longrightarrow> b_npub b \<in> u_npub ` set (users d)"
    and "\<And>u. u \<in> set (users d) \<Longrightarrow> u_usedStorage u = used_by d (u_npub u) \<and> in_int8 (u_usedStorage u)"
    and "\<And>g. g \<in> set (grants d) \<Longrightarrow> g_npub g \<in> u_npub ` set (users d)"
  shows "db_ok d"
  unfolding db_ok_def using assms by blast

lemma db_okD:
  assumes "db_ok d"
  shows "distinct (map u_npub (users d))" and "distinct (map blob_key (blobs d))"
    and "distinct (map g_paymentHash (grants d))"
    and "b \<in> set (blobs d) \<Longrightarrow> b_npub b \<in> u_npub ` set (users d)"
    and "u \<in> set (users d) \<Longrightarrow> u_usedStorage u = used_by d (u_npub u)"
    and "u \<in> set (users d) \<Longrightarrow> in_int8 (u_usedStorage u)"
    and "g \<in> set (grants d) \<Longrightarrow> g_npub g \<in> u_npub ` set (users d)"
  using assms unfolding db_ok_def by blast+

lemma empty_db_ok: "db_ok empty_db"
  by (simp add: db_ok_def empty_db_def)

lemma find_user_used:
  "db_ok d \<Longrightarrow> find_user d n = Some u \<Longrightarrow> u_npub u = n \<and> u_usedStorage u = used_by d n"
  by (auto simp: db_ok_def dest: find_row_SomeD)

text \<open>The tables that carry the invariant.\<close>

definition same_ledger :: "db \<Rightarrow> db \<Rightarrow> bool" where
  "same_ledger d d' \<longleftrightarrow> users d' = users d \<and> blobs d' = blobs d \<and> grants d' = grants d"

lemma db_ok_cong:
  assumes ok: "db_ok d" and "blobs d' = blobs d"
    and same: "map (\<lambda>u. (u_npub u, u_usedStorage u)) (users d') = map (\<lambda>u. (u_npub u, u_usedStorage u)) (users d)"
    and "distinct (map g_paymentHash (grants d'))"
    and "\<And>g. g \<in> set (grants d') \<Longrightarrow> g_npub g \<in> u_npub ` set (users d)"
  shows "db_ok d'"
proof -
  have npubs: "map u_npub (users d') = map u_npub (users d)"
    using arg_cong [OF same, of "map fst"] by (simp add: comp_def)
  have used: "u_usedStorage u = used_by d' (u_npub u) \<and> in_int8 (u_usedStorage u)" if "u \<in> set (users d')" for u
  proof -
    have "(u_npub u, u_usedStorage u) \<in> set (map (\<lambda>u. (u_npub u, u_usedStorage u)) (users d))"
      using that same [symmetric] by auto
    then obtain v where "v \<in> set (users d)" "u_npub u = u_npub v" "u_usedStorage u = u_usedStorage v"
      by auto
    with db_okD(5,6) [OF ok] assms(2) show ?thesis by (auto simp: used_by_def)
  qed
  have "u_npub ` set (users d') = u_npub ` set (users d)"
    using npubs by (metis list.set_map)
  then show ?thesis
    using assms(2,4,5) npubs db_okD(1,2,4) [OF ok] by (intro db_okI [OF _ _ _ _ used]) simp_all
qed

lemma same_ledger_ok: "same_ledger d d' \<Longrightarrow> db_ok d \<Longrightarrow> db_ok d'"
  by (rule db_ok_cong) (auto simp: same_ledger_def dest: db_okD(3,7))

lemma find_row_key: "find_row key k t = Some r \<Longrightarrow> k \<in> key ` set t"
  by (force dest: find_row_SomeD)

lemma users_add_blob [simp]: "map u_npub (users (add_blob b d)) = map u_npub (users d)"
  by (simp add: add_blob_def)

lemma users_drop_blob [simp]: "map u_npub (users (drop_blob b d)) = map u_npub (users d)"
  by (simp add: drop_blob_def)

lemma npubs_add_blob [simp]: "u_npub ` set (users (add_blob b d)) = u_npub ` set (users d)"
  by (simp add: add_blob_def)

lemma npubs_drop_blob [simp]: "u_npub ` set (users (drop_blob b d)) = u_npub ` set (users d)"
  by (simp add: drop_blob_def)

lemma used_by_add_blob:
  "used_by (add_blob b d) n = used_by d n + (if n = b_npub b then b_size b else 0)"
  by (auto simp: used_by_def add_blob_def)

lemma used_by_drop_blob:
  assumes "db_ok d" and "b \<in> set (blobs d)"
  shows "used_by (drop_blob b d) n = used_by d n - (if n = b_npub b then b_size b else 0)"
  using assms by (auto simp: used_by_def drop_blob_def sum_where_delete db_ok_def)

lemma find_user_add_blob:
  "find_user (add_blob b d) n =
     (if n = b_npub b
      then map_option (\<lambda>u. u\<lparr>u_usedStorage := u_usedStorage u + b_size b\<rparr>) (find_user d n)
      else find_user d n)"
  by (simp add: add_blob_def find_row_update)

lemma find_user_drop_blob:
  "find_user (drop_blob b d) n =
     (if n = b_npub b
      then map_option (\<lambda>u. u\<lparr>u_usedStorage := u_usedStorage u - b_size b\<rparr>) (find_user d n)
      else find_user d n)"
  by (simp add: drop_blob_def find_row_update)

lemma add_blob_ok:
  assumes ok: "db_ok d" and user: "find_user d (b_npub b) = Some u"
    and fresh: "find_row blob_key (blob_key b) (blobs d) = None"
    and range: "in_int8 (u_usedStorage u + b_size b)"
  shows "db_ok (add_blob b d)"
proof -
  have owner: "b_npub b \<in> u_npub ` set (users d)"
    using user by (rule find_row_key)
  have used: "u_usedStorage x = used_by (add_blob b d) (u_npub x) \<and> in_int8 (u_usedStorage x)"
    if "x \<in> set (users (add_blob b d))" for x
  proof -
    from that obtain r where r: "r \<in> set (users d)"
      and x: "x = (if u_npub r = b_npub b then r\<lparr>u_usedStorage := u_usedStorage r + b_size b\<rparr> else r)"
      by (auto simp: add_blob_def elim: update_rowE)
    have "u_npub r = b_npub b \<Longrightarrow> u = r"
      using ok user r find_row_unique [of u_npub "users d" r] by (simp add: db_ok_def)
    with x r ok range show ?thesis
      unfolding used_by_add_blob by (auto simp: db_ok_def)
  qed
  have keys: "distinct (map blob_key (blobs (add_blob b d)))"
    using ok fresh by (auto simp: add_blob_def db_ok_def find_row_None_iff)
  have owners: "x \<in> set (blobs (add_blob b d)) \<Longrightarrow> b_npub x \<in> u_npub ` set (users (add_blob b d))" for x
    using ok owner by (auto simp: add_blob_def dest: db_okD(4))
  show ?thesis
    using db_okD(1,3,7) [OF ok] by (intro db_okI [OF _ keys _ owners used]) (simp_all add: add_blob_def)
qed

lemma drop_blob_ok:
  assumes ok: "db_ok d" and mem: "b \<in> set (blobs d)"
    and user: "find_user d (b_npub b) = Some u" and range: "in_int8 (u_usedStorage u - b_size b)"
  shows "db_ok (drop_blob b d)"
proof -
  have used: "u_usedStorage x = used_by (drop_blob b d) (u_npub x) \<and> in_int8 (u_usedStorage x)"
    if "x \<in> set (users (drop_blob b d))" for x
  proof -
    from that obtain r where r: "r \<in> set (users d)"
      and x: "x = (if u_npub r = b_npub b then r\<lparr>u_usedStorage := u_usedStorage r - b_size b\<rparr> else r)"
      by (auto simp: drop_blob_def elim: update_rowE)
    have "u_npub r = b_npub b \<Longrightarrow> u = r"
      using ok user r find_row_unique [of u_npub "users d" r] by (simp add: db_ok_def)
    with x r ok range show ?thesis
      unfolding used_by_drop_blob [OF ok mem] by (auto simp: db_ok_def)
  qed
  have keys: "distinct (map blob_key (blobs (drop_blob b d)))"
    using ok by (simp add: drop_blob_def db_ok_def distinct_delete_row)
  have owners: "x \<in> set (blobs (drop_blob b d)) \<Longrightarrow> b_npub x \<in> u_npub ` set (users (drop_blob b d))" for x
    using ok by (auto simp: drop_blob_def dest: db_okD(4))
  show ?thesis
    using db_okD(1,3,7) [OF ok] by (intro db_okI [OF _ keys _ owners used]) (simp_all add: drop_blob_def)
qed

text \<open>
  The deletion loop on distinct rows of the table: it keeps the invariant, removes exactly
  these rows, and leaves every other table and the entitlement fields alone.
\<close>

definition same_entitlements :: "db \<Rightarrow> db \<Rightarrow> bool" where
  "same_entitlements d d' \<longleftrightarrow>
     (\<forall>n. map_option (\<lambda>u. u\<lparr>u_usedStorage := 0\<rparr>) (find_user d' n)
        = map_option (\<lambda>u. u\<lparr>u_usedStorage := 0\<rparr>) (find_user d n))
     \<and> grants d' = grants d \<and> serviceAccounts d' = serviceAccounts d
     \<and> notificationLogs d' = notificationLogs d \<and> moderationActions d' = moderationActions d"

lemma same_entitlements_trans:
  "same_entitlements d d' \<Longrightarrow> same_entitlements d' d'' \<Longrightarrow> same_entitlements d d''"
  by (simp add: same_entitlements_def)

lemma drop_blob_entitlements: "same_entitlements d (drop_blob b d)"
  by (auto simp: same_entitlements_def find_user_drop_blob option.map_comp comp_def)
    (simp_all add: drop_blob_def)

lemma subset_drop_blob:
  "set (r # rs) \<subseteq> set (blobs d) \<Longrightarrow> distinct (map blob_key (r # rs)) \<Longrightarrow>
     set rs \<subseteq> set (blobs (drop_blob r d))"
  by (simp add: drop_blob_def subset_iff image_iff) metis

lemma delete_rows_step:
  assumes "delete_rows (r # rs) l d = Inr res"
  obtains u where "find_user d (b_npub r) = Some u" "in_int8 (u_usedStorage u - b_size r)"
    "delete_rows rs (u_usedStorage u - b_size r) (drop_blob r d) = Inr res"
  using assms by (auto split: if_splits option.splits)

lemma delete_rows_result:
  assumes "db_ok d" and "set rs \<subseteq> set (blobs d)" and "distinct (map blob_key rs)"
    and "delete_rows rs l d = Inr (l', d')"
  shows "db_ok d' \<and> blobs d' = filter (\<lambda>b. blob_key b \<notin> blob_key ` set rs) (blobs d)
    \<and> same_entitlements d d'"
  using assms
proof (induction rs arbitrary: l d)
  case Nil
  then show ?case by (simp add: same_entitlements_def)
next
  case (Cons r rs)
  from Cons.prems(4) obtain u where u: "find_user d (b_npub r) = Some u" "in_int8 (u_usedStorage u - b_size r)"
    and rec: "delete_rows rs (u_usedStorage u - b_size r) (drop_blob r d) = Inr (l', d')"
    by (rule delete_rows_step)
  have ok: "db_ok (drop_blob r d)"
    using Cons.prems(1,2) u by (auto intro: drop_blob_ok)
  have sub: "set rs \<subseteq> set (blobs (drop_blob r d))"
    using Cons.prems(2,3) by (rule subset_drop_blob)
  from Cons.IH [OF ok sub _ rec] Cons.prems(3)
  have IH: "db_ok d'" "blobs d' = filter (\<lambda>b. blob_key b \<notin> blob_key ` set rs) (blobs (drop_blob r d))"
    "same_entitlements (drop_blob r d) d'"
    by auto
  have "blobs d' = filter (\<lambda>b. blob_key b \<notin> blob_key ` set (r # rs)) (blobs d)"
    unfolding IH(2) by (auto simp: drop_blob_def delete_row_def intro: filter_cong)
  with IH same_entitlements_trans [OF drop_blob_entitlements] show ?case by blast
qed

lemma delete_rows_total:
  assumes "db_ok d" and "set rs \<subseteq> set (blobs d)" and "distinct (map blob_key rs)" and "sizes_ok d"
  shows "\<exists>l' d'. delete_rows rs l d = Inr (l', d')"
  using assms
proof (induction rs arbitrary: l d)
  case (Cons r rs)
  have mem: "r \<in> set (blobs d)" using Cons.prems(2) by simp
  then obtain u where u: "find_user d (b_npub r) = Some u"
    using Cons.prems(1) find_row_None_iff [of u_npub "b_npub r" "users d"]
    by (auto simp: db_ok_def)
  have f: "find_row blob_key (blob_key r) (blobs d) = Some r"
    using Cons.prems(1) mem by (intro find_row_unique) (simp_all add: db_ok_def)
  have used: "u_usedStorage u = used_by d (b_npub r)" "in_int8 (u_usedStorage u)"
    using Cons.prems(1) u by (auto simp: db_ok_def dest!: find_row_SomeD)
  have "0 \<le> used_by (drop_blob r d) (b_npub r)"
    using Cons.prems(4) unfolding used_by_def
    by (intro sum_where_nonneg) (auto simp: drop_blob_def sizes_ok_def)
  then have range: "in_int8 (u_usedStorage u - b_size r)"
    using used Cons.prems(4) mem used_by_drop_blob [OF Cons.prems(1) mem, of "b_npub r"]
    by (auto simp: in_int8_def sizes_ok_def)
  have "db_ok (drop_blob r d)"
    using Cons.prems(1) mem u range by (rule drop_blob_ok)
  moreover have "set rs \<subseteq> set (blobs (drop_blob r d))"
    using Cons.prems(2,3) by (rule subset_drop_blob)
  moreover have "sizes_ok (drop_blob r d)"
    using Cons.prems(4) by (auto simp: drop_blob_def sizes_ok_def)
  ultimately show ?case
    using Cons.IH Cons.prems(3) u f range by simp
qed simp

section \<open>Handlers keep the invariant\<close>

lemma postBlob_success:
  assumes "postBlob now h n sz rs d = (Success st r, d')"
  shows "\<exists>u s b. bigint_of_json sz = Some s \<and> find_user d n = Some u \<and> find_blob d h n = None
    \<and> (\<forall>a. u_storageBytes u = Some a \<longrightarrow> u_usedStorage u + s \<le> a)
    \<and> in_int8 (u_usedStorage u + s)
    \<and> b = \<lparr>b_hash = h, b_npub = n, b_size = s, b_replicas = rs, b_createdAt = now\<rparr>
    \<and> st = 201 \<and> r = (b, u_usedStorage u + s) \<and> d' = add_blob b d"
  using assms by (auto simp: postBlob_def Let_def split: option.splits if_splits)

lemma postBlob_failure: "postBlob now h n sz rs d = (Failure st c, d') \<Longrightarrow> d' = d"
  by (auto simp: postBlob_def Let_def split: option.splits if_splits)

lemma postBlob_ok:
  assumes "db_ok d"
  shows "db_ok (snd (postBlob now h n sz rs d))"
proof (cases "fst (postBlob now h n sz rs d)")
  case (Success st x)
  then have "postBlob now h n sz rs d = (Success st x, snd (postBlob now h n sz rs d))"
    by (simp add: prod_eq_iff)
  from postBlob_success [OF this] assms show ?thesis
    by (auto simp: blob_key_def intro!: add_blob_ok)
next
  case (Failure st c)
  then have "postBlob now h n sz rs d = (Failure st c, snd (postBlob now h n sz rs d))"
    by (simp add: prod_eq_iff)
  from postBlob_failure [OF this] assms show ?thesis by simp
qed

lemma rows_of_hash:
  assumes "db_ok d"
  shows "set (filter P (blobs d)) \<subseteq> set (blobs d)" and "distinct (map blob_key (filter P (blobs d)))"
  using assms by (auto simp: db_ok_def distinct_map_filter)

lemma deleteBlob_success:
  assumes "deleteBlob h n all d = (Success st r, d')"
  shows "\<exists>l. delete_rows (filter (\<lambda>b. b_hash b = h \<and> (all \<or> Some (b_npub b) = n)) (blobs d)) 0 d = Inr (l, d')
    \<and> (\<exists>b \<in> set (blobs d). b_hash b = h \<and> (all \<or> Some (b_npub b) = n)) \<and> st = 200
    \<and> r = \<lparr>dr_usedStorage = l, dr_remainingOwners = length (filter (\<lambda>b. b_hash b = h) (blobs d'))\<rparr>"
  using assms
  by (auto simp: deleteBlob_def Let_def filter_empty_conv split: if_splits sum.splits prisma_error.splits)

lemma deleteBlob_failure: "deleteBlob h n all d = (Failure st c, d') \<Longrightarrow> d' = d"
  by (auto simp: deleteBlob_def Let_def split: if_splits sum.splits prisma_error.splits)

lemma deleteBlob_blobs:
  assumes ok: "db_ok d" and del: "deleteBlob h n all d = (Success st r, d')"
  shows "db_ok d' \<and> same_entitlements d d'
    \<and> blobs d' = filter (\<lambda>b. \<not> (b_hash b = h \<and> (all \<or> Some (b_npub b) = n))) (blobs d)"
proof -
  let ?P = "\<lambda>b. b_hash b = h \<and> (all \<or> Some (b_npub b) = n)"
  from del obtain l where "delete_rows (filter ?P (blobs d)) 0 d = Inr (l, d')"
    using deleteBlob_success by blast
  from delete_rows_result [OF ok rows_of_hash [OF ok] this]
  have res: "db_ok d'" "same_entitlements d d'"
    "blobs d' = filter (\<lambda>b. blob_key b \<notin> blob_key ` set (filter ?P (blobs d))) (blobs d)"
    by auto
  have "blobs d' = filter (\<lambda>b. \<not> ?P b) (blobs d)"
    unfolding res(3) by (rule filter_cong [OF refl]) (auto simp: blob_key_def image_iff)
  with res(1,2) show ?thesis by blast
qed

lemma deleteBlob_ok:
  assumes "db_ok d"
  shows "db_ok (snd (deleteBlob h n all d))"
proof (cases "fst (deleteBlob h n all d)")
  case (Success st r)
  then have "deleteBlob h n all d = (Success st r, snd (deleteBlob h n all d))"
    by (simp add: prod_eq_iff)
  from deleteBlob_blobs [OF assms this] show ?thesis by blast
next
  case (Failure st c)
  then have "deleteBlob h n all d = (Failure st c, snd (deleteBlob h n all d))"
    by (simp add: prod_eq_iff)
  from deleteBlob_failure [OF this] assms show ?thesis by simp
qed

text \<open>Entitlement writes touch no blob row and no recorded usage.\<close>

lemma used_by_same_blobs: "blobs d' = blobs d \<Longrightarrow> used_by d' n = used_by d n"
  by (simp add: used_by_def)

lemma used_by_absent: "db_ok d \<Longrightarrow> n \<notin> u_npub ` set (users d) \<Longrightarrow> used_by d n = 0"
  unfolding used_by_def by (rule sum_where_none) (auto dest: db_okD(4))

lemma upsert_user_spec:
  assumes "upsert_user now n d = (u, d')" and "db_ok d"
  shows "db_ok d' \<and> find_user d' n = Some u \<and> blobs d' = blobs d \<and> grants d' = grants d
    \<and> (\<forall>m. m \<noteq> n \<longrightarrow> find_user d' m = find_user d m)"
proof (cases "find_user d n")
  case None
  then have n: "n \<notin> u_npub ` set (users d)"
    by (simp add: find_row_None_iff)
  have d': "d' = d\<lparr>users := users d @ [u]\<rparr>" and u: "u_npub u = n" "u_usedStorage u = 0"
    using assms(1) None by (auto simp: upsert_user_def Let_def)
  have "db_ok d'"
    using n u used_by_absent [OF assms(2) n] assms(2) unfolding d'
    by (intro db_okI) (auto simp: used_by_def in_int8_def dest: db_okD)
  then show ?thesis
    using u None unfolding d' by (simp add: find_row_append split: option.split)
next
  case (Some x)
  with assms show ?thesis by (auto simp: upsert_user_def)
qed

lemma claim_grant_spec:
  assumes "claim_grant now n ph d = Inr d'" and "db_ok d" and "find_user d n \<noteq> None"
  shows "db_ok d' \<and> users d' = users d \<and> blobs d' = blobs d
    \<and> grants d' = grants d @ (case ph of None \<Rightarrow> [] | Some h \<Rightarrow> [\<lparr>g_paymentHash = h, g_npub = n, g_createdAt = now\<rparr>])
    \<and> (\<forall>h. ph = Some h \<longrightarrow> find_row g_paymentHash h (grants d) = None)"
proof (cases ph)
  case (Some h)
  then have d': "d' = d\<lparr>grants := grants d @ [\<lparr>g_paymentHash = h, g_npub = n, g_createdAt = now\<rparr>]\<rparr>"
    and h: "find_row g_paymentHash h (grants d) = None"
    using assms(1) by (auto simp: claim_grant_def split: if_splits)
  have n: "n \<in> u_npub ` set (users d)"
    using assms(3) by (simp add: find_row_None_iff)
  have "db_ok d'"
    using db_okD(3,7) [OF assms(2)] n h
    by (intro db_ok_cong [OF assms(2)]) (auto simp: d' find_row_None_iff)
  with Some h show ?thesis unfolding d' by simp
qed (use assms in \<open>simp add: claim_grant_def\<close>)

lemma set_entitlement_ok:
  assumes "db_ok d"
  shows "db_ok (set_entitlement n t bytes d)"
proof -
  have "map (\<lambda>u. (u_npub u, u_usedStorage u)) (users (set_entitlement n t bytes d))
      = map (\<lambda>u. (u_npub u, u_usedStorage u)) (users d)"
    by (simp add: set_entitlement_def update_row_def)
  then show ?thesis
    using db_okD(3,7) [OF assms]
    by (intro db_ok_cong [OF assms]) (simp_all add: set_entitlement_def)
qed

lemma entitlement_tx_spec:
  assumes ok: "db_ok d" and tx: "entitlement_tx dp now n r d = Inr (u, d')"
  shows "db_ok d' \<and> find_user d' n = Some u \<and> blobs d' = blobs d
    \<and> grants d' = grants d @ (case paymentHash r of None \<Rightarrow> []
         | Some h \<Rightarrow> [\<lparr>g_paymentHash = h, g_npub = n, g_createdAt = now\<rparr>])"
proof -
  obtain current d1 where up: "upsert_user now n d = (current, d1)" by fastforce
  with tx obtain d2 t bytes where cl: "claim_grant now n (paymentHash r) d1 = Inr d2"
    and d': "d' = set_entitlement n t bytes d2"
    and u: "u = current\<lparr>u_planExpiresAt := Some t, u_storageBytes := bytes\<rparr>"
    by (auto simp: entitlement_tx_def split: sum.splits option.splits if_splits)
  note one = upsert_user_spec [OF up ok]
  then have two: "db_ok d2" "users d2 = users d1" "blobs d2 = blobs d" 
    "grants d2 = grants d @ (case paymentHash r of None \<Rightarrow> []
         | Some h \<Rightarrow> [\<lparr>g_paymentHash = h, g_npub = n, g_createdAt = now\<rparr>])"
    using claim_grant_spec [OF cl] by auto
  then show ?thesis
    using one set_entitlement_ok [OF two(1)] unfolding d' u
    by (simp add: set_entitlement_def find_row_update)
qed

lemma postEntitlement_cases:
  "(\<exists>r u. parseEntitlementRequest dp body = Inr r \<and> entitlement_tx dp now n r d = Inr (u, snd (postEntitlement dp now n body d))
      \<and> fst (postEntitlement dp now n body d) = Success 200 u)
   \<or> snd (postEntitlement dp now n body d) = d"
  by (auto simp: postEntitlement_def
      split: sum.split EntitlementError.split tx_error.split prisma_error.split option.split)

lemma postEntitlement_ok: "db_ok d \<Longrightarrow> db_ok (snd (postEntitlement dp now n body d))"
  using postEntitlement_cases [of dp body now n d] entitlement_tx_spec by metis

lemma deleteUserBlobs_state:
  assumes ok: "db_ok d"
  shows "deleteUserBlobs n d = (Success 200 (filter (\<lambda>b. b_npub b = n) (blobs d)),
    d\<lparr>blobs := filter (\<lambda>b. b_npub b \<noteq> n) (blobs d),
      users := update_row u_npub n (\<lambda>u. u\<lparr>u_usedStorage := 0\<rparr>) (users d)\<rparr>)"
proof (cases "filter (\<lambda>b. b_npub b = n) (blobs d) = []")
  case True
  then have none: "used_by d n = 0" "filter (\<lambda>b. b_npub b \<noteq> n) (blobs d) = blobs d"
    by (auto simp: used_by_def sum_where_def filter_empty_conv filter_id_conv)
  have "update_row u_npub n (\<lambda>u. u\<lparr>u_usedStorage := 0\<rparr>) (users d) = users d"
    unfolding update_row_def using none(1) db_okD(5) [OF ok] by (intro map_idI) auto
  with True none show ?thesis by (simp add: deleteUserBlobs_def)
next
  case False
  then obtain b where "b \<in> set (blobs d)" "b_npub b = n"
    by (auto simp: filter_empty_conv)
  with db_okD(4) [OF ok, of b] have "find_user d n \<noteq> None"
    by (auto simp: find_row_None_iff)
  with False show ?thesis by (simp add: deleteUserBlobs_def Let_def)
qed

lemma used_by_filter_owner:
  "sum_where b_size (\<lambda>b. b_npub b = m) (filter (\<lambda>b. b_npub b \<noteq> n) t) =
     (if m = n then 0 else sum_where b_size (\<lambda>b. b_npub b = m) t)"
  by (induction t) auto

lemma deleteUserBlobs_ok:
  assumes ok: "db_ok d"
  shows "db_ok (snd (deleteUserBlobs n d))"
proof -
  let ?d = "snd (deleteUserBlobs n d)"
  note state = deleteUserBlobs_state [OF ok, of n]
  have used: "u_usedStorage x = used_by ?d (u_npub x) \<and> in_int8 (u_usedStorage x)" if "x \<in> set (users ?d)" for x
    using that db_okD(5,6) [OF ok]
    by (auto simp: state used_by_def used_by_filter_owner in_int8_def elim!: update_rowE split: if_splits)
  show ?thesis
    using db_okD(1-4,7) [OF ok]
    by (intro db_okI [OF _ _ _ _ used]) (simp_all add: state distinct_map_filter)
qed

section \<open>Every reachable state\<close>

lemma side_tables:
  "same_ledger d (snd (postNotification now fresh n k rf ch d))"
  "same_ledger d (snd (postModeration now fresh h n admin rsn d))"
  "same_ledger d (registerService now n label enabled d)"
  by (auto simp: same_ledger_def postNotification_def postModeration_def registerService_def Let_def
      split: option.split)

lemma db_step_ok: "db_step d d' \<Longrightarrow> db_ok d \<Longrightarrow> db_ok d'"
  by (induction rule: db_step.induct)
    (auto intro: postBlob_ok deleteBlob_ok postEntitlement_ok deleteUserBlobs_ok
      same_ledger_ok [OF side_tables(1)] same_ledger_ok [OF side_tables(2)]
      same_ledger_ok [OF side_tables(3)])

interpretation ledger: invariant_system "\<lambda>d. d = empty_db" db_step db_ok
  by unfold_locales (auto simp: empty_db_ok intro: db_step_ok)

end
