(* ===== verification/Nip98.thy ===== *)
theory Nip98
  imports DbApi_Inv
begin

text \<open>
  Service-to-service authentication, \<open>packages/nip98/src/index.ts\<close> and \<open>verify.ts\<close>, and the
  gate of the data service, \<open>packages/db/src/internal-auth.ts\<close>. The signature check, the
  base64 and JSON codecs and the hash function are arguments. The replay cache is an
  interface of the source, so the verifier takes its \<open>remember\<close> as an argument; the locale
  \<open>replay_guard\<close> states what it promises, and the in-memory cache interprets it.
\<close>

section \<open>Events and headers\<close>

record NostrEvent =
  ev_id :: string
  ev_pubkey :: string
  ev_created_at :: js_number
  ev_kind :: js_number
  ev_tags :: "string list list"
  ev_content :: string
  ev_sig :: string

text \<open>
  The text of a header as an event: no JSON text, a JSON value that is no event (the
  signature check raises on it), or an event.
\<close>

datatype header_event = BadJson | BadEvent | Ev NostrEvent

datatype header_value = NoHeader | HStr string | HArr "string list"

definition header_raw :: "header_value \<Rightarrow> string option" where
  "header_raw h =
     (case h of NoHeader \<Rightarrow> None | HStr s \<Rightarrow> Some s
      | HArr [] \<Rightarrow> None | HArr (s # _) \<Rightarrow> Some s)"

text \<open>\<open>replace(/^Nostr\s+/i, "")\<close>.\<close>

definition strip_nostr :: "string \<Rightarrow> string" where
  "strip_nostr s =
     (if to_lower (take 5 s) = ''nostr'' \<and> drop 5 s \<noteq> [] \<and> is_space (hd (drop 5 s))
      then dropWhile is_space (drop 5 s) else s)"

text \<open>\<open>tags.find((t) => t[0] === name)?.[1]\<close>.\<close>

fun find_tag :: "string \<Rightarrow> string list list \<Rightarrow> string option" where
  "find_tag name [] = None"
| "find_tag name (t # ts) =
     (case t of
        [] \<Rightarrow> find_tag name ts
      | k # rest \<Rightarrow>
          if k = name then (case rest of [] \<Rightarrow> None | v # _ \<Rightarrow> Some v) else find_tag name ts)"

section \<open>Replay cache\<close>

definition DEFAULT_SKEW :: int where
  "DEFAULT_SKEW = 300"

type_synonym seen = "(string \<times> int) list"

definition remember :: "string \<Rightarrow> int \<Rightarrow> seen \<Rightarrow> bool \<times> seen" where
  "remember k now s =
     (let s' = filter (\<lambda>(_, t). \<not> (DEFAULT_SKEW * 2 < now - t)) s in
      if k \<in> fst ` set s' then (False, s') else (True, s' @ [(k, now)]))"

section \<open>Verification\<close>

datatype body = BufferBody string | NoBody | JsonBody json

record Nip98Request =
  rq_authorization :: header_value
  rq_method :: string
  rq_originalUrl :: string
  rq_protocol :: string
  rq_host :: "string option"
  rq_body :: body

record Signer =
  sg_pubkey :: string
  sg_npub :: npub

text \<open>Errors: a \<open>Nip98Error\<close> with status and message, or another exception.\<close>

datatype nip98_error = Nip98Error string nat | RaisedError

definition derivedUrl :: "Nip98Request \<Rightarrow> string" where
  "derivedUrl req =
     rq_protocol req @ ''://'' @ (case rq_host req of None \<Rightarrow> ''undefined'' | Some h \<Rightarrow> h)
       @ rq_originalUrl req"

definition payload_hash :: "(string \<Rightarrow> string) \<Rightarrow> (json \<Rightarrow> string) \<Rightarrow> body \<Rightarrow> string" where
  "payload_hash sha256 stringify b =
     (case b of
        BufferBody bytes \<Rightarrow> sha256 bytes
      | NoBody \<Rightarrow> sha256 ''''
      | JsonBody j \<Rightarrow> sha256 (stringify j))"

text \<open>\<open>Math.abs(now - created) > skew\<close> on numbers.\<close>

definition outside_window :: "int \<Rightarrow> int \<Rightarrow> js_number \<Rightarrow> bool" where
  "outside_window skew now created =
     (case created of
        Num r \<Rightarrow> of_int skew < \<bar>of_int now - r\<bar>
      | PInf \<Rightarrow> True | NInf \<Rightarrow> True | NaN \<Rightarrow> False)"

text \<open>The primitives the verifier calls: codec, signature check, hash, \<open>JSON.stringify\<close>, bech32.\<close>

record nostr_prims =
  p_parse :: "string \<Rightarrow> header_event"
  p_verifyEvent :: "NostrEvent \<Rightarrow> bool"
  p_sha256Hex :: "string \<Rightarrow> string"
  p_stringify :: "json \<Rightarrow> string"
  p_npubEncode :: "string \<Rightarrow> npub"

definition url_matches :: "Nip98Request \<Rightarrow> string option \<Rightarrow> string \<Rightarrow> bool" where
  "url_matches req expectedUrl uTag \<longleftrightarrow>
     strip_trailing_slashes (derivedUrl req) = strip_trailing_slashes uTag
     \<or> (case expectedUrl of None \<Rightarrow> False
        | Some e \<Rightarrow> strip_trailing_slashes e = strip_trailing_slashes uTag)"

definition payload_ok :: "nostr_prims \<Rightarrow> Nip98Request \<Rightarrow> string list list \<Rightarrow> bool" where
  "payload_ok P req tags =
     (case find_tag ''payload'' tags of
        None \<Rightarrow> True
      | Some p \<Rightarrow> p = [] \<or> payload_hash (p_sha256Hex P) (p_stringify P) (rq_body req) = to_lower p)"

definition verifyNip98 ::
  "nostr_prims \<Rightarrow> (string \<Rightarrow> int \<Rightarrow> 's \<Rightarrow> bool \<times> 's) \<Rightarrow> string option \<Rightarrow> int option
    \<Rightarrow> int \<Rightarrow> Nip98Request \<Rightarrow> 's \<Rightarrow> (nip98_error + Signer) \<times> 's" where
  "verifyNip98 P remember_op expectedUrl maxSkewSeconds now req replay =
     (let raw = header_raw (rq_authorization req) in
      if raw = None \<or> raw = Some [] then (Inl (Nip98Error ''Missing Authorization header'' 401), replay)
      else
     (case p_parse P (strip_nostr (the raw)) of
        BadJson \<Rightarrow> (Inl (Nip98Error ''Malformed Authorization header'' 400), replay)
      | BadEvent \<Rightarrow> (Inl RaisedError, replay)
      | Ev event \<Rightarrow>
     if \<not> p_verifyEvent P event then (Inl (Nip98Error ''Invalid Nostr signature'' 401), replay)
     else if ev_kind event \<noteq> Num 27235
     then (Inl (Nip98Error ''Authorization event must be kind 27235'' 401), replay)
     else if outside_window (case maxSkewSeconds of None \<Rightarrow> DEFAULT_SKEW | Some s \<Rightarrow> s) now
               (ev_created_at event)
     then (Inl (Nip98Error ''Authorization event timestamp outside the accepted window'' 401), replay)
     else
     (let tags = ev_tags event; uTag = find_tag ''u'' tags;
          methodTag = map_option to_upper (find_tag ''method'' tags) in
      if uTag = None \<or> uTag = Some [] \<or> methodTag \<noteq> Some (to_upper (rq_method req))
      then (Inl (Nip98Error ''Authorization event must carry matching u and method tags'' 401), replay)
      else if \<not> url_matches req expectedUrl (the uTag)
      then (Inl (Nip98Error ''Authorization event URL does not match the request'' 401), replay)
      else if \<not> payload_ok P req tags
      then (Inl (Nip98Error ''Authorization event payload hash does not match the request body'' 401), replay)
      else
     (let (fresh, replay') = remember_op (ev_id event) now replay in
      if \<not> fresh then (Inl (Nip98Error ''Authorization event has already been used'' 401), replay')
      else (Inr \<lparr>sg_pubkey = ev_pubkey event, sg_npub = p_npubEncode P (ev_pubkey event)\<rparr>, replay')))))"

section \<open>Signing\<close>

datatype decoded_secret = NsecData string | OtherType | DecodeFails string

text \<open>\<open>decodeSecretKey\<close>; \<open>nip19_decode\<close> and \<open>hex_bytes\<close> are the library's decoders.\<close>

definition decodeSecretKey ::
  "(string \<Rightarrow> decoded_secret) \<Rightarrow> (string \<Rightarrow> string) \<Rightarrow> string \<Rightarrow> string + string" where
  "decodeSecretKey nip19_decode hex_bytes secret =
     (if starts_with secret ''nsec1'' then
        (case nip19_decode secret of
           NsecData d \<Rightarrow> Inr d
         | OtherType \<Rightarrow> Inl ''not an nsec''
         | DecodeFails msg \<Rightarrow> Inl msg)
      else if is_sha256_hex_ci secret then Inr (hex_bytes secret)
      else Inl ''secret key must be a bech32 nsec or 64-char hex'')"

record EventTemplate =
  et_kind :: js_number
  et_created_at :: js_number
  et_content :: string
  et_tags :: "string list list"

text \<open>The template signed by \<open>header\<close>, with the random nonce as argument.\<close>

definition nip98_template ::
  "(string \<Rightarrow> string) \<Rightarrow> (json \<Rightarrow> string) \<Rightarrow> string \<Rightarrow> int \<Rightarrow> string \<Rightarrow> string \<Rightarrow> json option \<Rightarrow> EventTemplate" where
  "nip98_template sha256 stringify nonce now meth url body =
     \<lparr>et_kind = Num 27235, et_created_at = num_of_int now, et_content = '''',
      et_tags = [[''u'', url], [''method'', to_upper meth], [''nonce'', nonce]]
        @ (case body of None \<Rightarrow> [] | Some j \<Rightarrow> [[''payload'', sha256 (stringify j)]])\<rparr>"

definition nip98_header ::
  "(EventTemplate \<Rightarrow> NostrEvent) \<Rightarrow> (NostrEvent \<Rightarrow> string) \<Rightarrow> (string \<Rightarrow> string) \<Rightarrow> (json \<Rightarrow> string)
    \<Rightarrow> string \<Rightarrow> int \<Rightarrow> string \<Rightarrow> string \<Rightarrow> json option \<Rightarrow> string" where
  "nip98_header finalize encode sha256 stringify nonce now meth url body =
     ''Nostr '' @ encode (finalize (nip98_template sha256 stringify nonce now meth url body))"

section \<open>The gate of the data service\<close>

datatype gate_result = GateNext npub | GateError nat string string | GateRaise

text \<open>\<open>createServiceAccountGate\<close>: status, body and \<open>X-Reason\<close>, or the request goes on.\<close>

definition serviceAccountGate ::
  "nostr_prims \<Rightarrow> (string \<Rightarrow> int \<Rightarrow> 's \<Rightarrow> bool \<times> 's) \<Rightarrow> int \<Rightarrow> Nip98Request \<Rightarrow> db \<Rightarrow> 's \<Rightarrow> gate_result \<times> 's" where
  "serviceAccountGate P remember_op now req d replay =
     (let (r, replay') = verifyNip98 P remember_op None None now req replay in
      (case r of
         Inl (Nip98Error msg st) \<Rightarrow> GateError st ''unauthorized'' msg
       | Inl RaisedError \<Rightarrow> GateRaise
       | Inr signer \<Rightarrow>
           (case find_row sa_npub (sg_npub signer) (serviceAccounts d) of
              Some a \<Rightarrow> (if sa_enabled a then GateNext (sg_npub signer)
                          else GateError 403 ''forbidden_service_account'' '''')
            | None \<Rightarrow> GateError 403 ''forbidden_service_account'' ''''), replay'))"

text \<open>A service that verifies one request after another with one cache.\<close>

fun verify_all ::
  "nostr_prims \<Rightarrow> (string \<Rightarrow> int \<Rightarrow> 's \<Rightarrow> bool \<times> 's) \<Rightarrow> (int \<times> Nip98Request) list \<Rightarrow> 's
    \<Rightarrow> (nip98_error + Signer) list" where
  "verify_all P remember_op [] s = []"
| "verify_all P remember_op ((now, req) # rs) s =
     (let (r, s') = verifyNip98 P remember_op None None now req s in r # verify_all P remember_op rs s')"

text \<open>The event a request carries in its header.\<close>

definition carries :: "nostr_prims \<Rightarrow> Nip98Request \<Rightarrow> NostrEvent \<Rightarrow> bool" where
  "carries P req event \<longleftrightarrow>
     (\<exists>raw. header_raw (rq_authorization req) = Some raw \<and> p_parse P (strip_nostr raw) = Ev event)"

section \<open>Replay protection\<close>

text \<open>
  What the verifier relies on: an accepted id is held from then on, an id stays held for the
  retention time, and a held id is refused.
\<close>

locale replay_guard =
  fixes remember_op :: "string \<Rightarrow> int \<Rightarrow> 's \<Rightarrow> bool \<times> 's"
    and held :: "'s \<Rightarrow> string \<Rightarrow> int \<Rightarrow> bool"
    and retention :: int
  assumes accept_held: "remember_op k now s = (True, s') \<Longrightarrow> held s' k now"
    and held_kept: "held s k t \<Longrightarrow> now \<le> t + retention \<Longrightarrow> held (snd (remember_op k' now s)) k t"
    and held_refused: "held s k t \<Longrightarrow> now \<le> t + retention \<Longrightarrow> \<not> fst (remember_op k now s)"
begin

text \<open>A request either leaves the cache alone or makes one call of \<open>remember\<close>.\<close>

lemma verify_accepts:
  assumes "verifyNip98 P remember_op xu ms now req s = (Inr sg, s')"
  obtains raw event where "header_raw (rq_authorization req) = Some raw" "raw \<noteq> []"
    "p_parse P (strip_nostr raw) = Ev event" "p_verifyEvent P event" "ev_kind event = Num 27235"
    "\<not> outside_window (case ms of None \<Rightarrow> DEFAULT_SKEW | Some k \<Rightarrow> k) now (ev_created_at event)"
    "remember_op (ev_id event) now s = (True, s')"
    "sg = \<lparr>sg_pubkey = ev_pubkey event, sg_npub = p_npubEncode P (ev_pubkey event)\<rparr>"
proof -
  from assms obtain raw event where raw: "header_raw (rq_authorization req) = Some raw" "raw \<noteq> []"
    and ev: "p_parse P (strip_nostr raw) = Ev event"
    by (auto simp: verifyNip98_def Let_def split: if_splits header_event.splits)
  with assms show thesis
    by (intro that [of raw event])
      (auto simp: verifyNip98_def Let_def split: if_splits prod.splits)
qed

lemma verify_keeps:
  assumes "held s k t" and "now \<le> t + retention"
  shows "held (snd (verifyNip98 P remember_op xu ms now req s)) k t"
  using assms held_kept [OF assms]
  by (simp add: verifyNip98_def Let_def case_prod_beta split: header_event.split)

text \<open>A held event is refused whatever request carries it.\<close>

lemma verify_refuses:
  assumes "held s (ev_id event) t" and "now \<le> t + retention"
    and "header_raw (rq_authorization req) = Some raw" and "p_parse P (strip_nostr raw) = Ev event"
  shows "\<nexists>sg s'. verifyNip98 P remember_op xu ms now req s = (Inr sg, s')"
proof
  assume "\<exists>sg s'. verifyNip98 P remember_op xu ms now req s = (Inr sg, s')"
  then obtain sg s' where "verifyNip98 P remember_op xu ms now req s = (Inr sg, s')" by blast
  then show False
    using assms held_refused [OF assms(1,2)] by (auto elim!: verify_accepts)
qed

lemma accepted_window:
  assumes "j < length reqs" and "carries P (snd (reqs ! j)) event" and "\<not> isl (verify_all P remember_op reqs s ! j)"
  shows "\<not> outside_window DEFAULT_SKEW (fst (reqs ! j)) (ev_created_at event)"
  using assms
proof (induction reqs arbitrary: s j)
  case (Cons x reqs)
  obtain now req where x: "x = (now, req)" by fastforce
  let ?v = "verifyNip98 P remember_op None None now req s"
  show ?case
  proof (cases j)
    case 0
    with Cons.prems(3) x obtain sg s' where "?v = (Inr sg, s')"
      by (cases ?v; cases "fst ?v") (auto simp: case_prod_beta)
    with Cons.prems(2) 0 x show ?thesis
      by (auto simp: carries_def elim!: verify_accepts)
  next
    case (Suc i)
    with Cons.IH [of i "snd ?v"] Cons.prems x show ?thesis by (auto simp: case_prod_beta)
  qed
qed simp

lemma held_never_accepted:
  assumes "sorted (map fst reqs)" and "held s (ev_id event) t" and "j < length reqs"
    and "fst (reqs ! j) \<le> t + retention" and "carries P (snd (reqs ! j)) event"
  shows "isl (verify_all P remember_op reqs s ! j)"
  using assms
proof (induction reqs arbitrary: s j)
  case (Cons x reqs)
  obtain now req where x: "x = (now, req)" by fastforce
  show ?case
  proof (cases j)
    case 0
    with Cons.prems x verify_refuses [of s event t now req _ P None None] show ?thesis
      by (cases "verifyNip98 P remember_op None None now req s"; cases "fst (verifyNip98 P remember_op None None now req s)")
        (auto simp: carries_def)
  next
    case (Suc i)
    have "now \<le> fst (reqs ! i)"
      using Cons.prems(1,3) Suc x by (auto simp: nth_mem)
    then have "held (snd (verifyNip98 P remember_op None None now req s)) (ev_id event) t"
      using Cons.prems(2,4) Suc by (intro verify_keeps) auto
    with Cons.IH [of "snd (verifyNip98 P remember_op None None now req s)" i] Cons.prems Suc x show ?thesis
      by (auto simp: case_prod_beta)
  qed
qed simp

text \<open>The accepted window is at most half of the retention time on each side.\<close>

lemma window_span:
  assumes "\<not> outside_window skew t c" and "\<not> outside_window skew now c" and "c \<noteq> NaN" and "2 * skew \<le> retention"
  shows "now \<le> t + retention"
proof (cases c)
  case (Num r)
  with assms have "\<bar>of_int t - r\<bar> \<le> (of_int skew :: rat)" "\<bar>of_int now - r\<bar> \<le> (of_int skew :: rat)"
    by (simp_all add: outside_window_def)
  then have "(of_int now :: rat) \<le> of_int t + 2 * of_int skew" by linarith
  then have "(of_int now :: rat) \<le> of_int (t + 2 * skew)" by simp
  then have "now \<le> t + 2 * skew" by (simp only: of_int_le_iff)
  with assms(4) show ?thesis by linarith
qed (use assms in \<open>auto simp: outside_window_def\<close>)

lemma accepted_once:
  assumes "sorted (map fst reqs)" and "i < j" and "j < length reqs" and "2 * DEFAULT_SKEW \<le> retention"
    and "carries P (snd (reqs ! i)) event" and "carries P (snd (reqs ! j)) event"
    and "ev_created_at event \<noteq> NaN"
    and "\<not> isl (verify_all P remember_op reqs s ! i)"
  shows "isl (verify_all P remember_op reqs s ! j)"
  using assms(1-3,5,6,8)
proof (induction reqs arbitrary: s i j)
  case (Cons x reqs)
  obtain now req where x: "x = (now, req)" by fastforce
  let ?v = "verifyNip98 P remember_op None None now req s"
  obtain k where j: "j = Suc k" using Cons.prems(2) by (cases j) auto
  show ?case
  proof (cases i)
    case 0
    with Cons.prems(6) x obtain sg s' where v: "?v = (Inr sg, s')"
      by (cases ?v; cases "fst ?v") (auto simp: case_prod_beta)
    with Cons.prems(4) 0 x have w: "\<not> outside_window DEFAULT_SKEW now (ev_created_at event)"
      and r: "remember_op (ev_id event) now s = (True, s')"
      by (auto simp: carries_def elim!: verify_accepts)
    show ?thesis
    proof (rule ccontr)
      assume acc: "\<not> isl (verify_all P remember_op (x # reqs) s ! j)"
      let ?now = "fst (reqs ! k)"
      have "\<not> isl (verify_all P remember_op reqs s' ! k)"
        using acc v x j by simp
      moreover from this have "\<not> outside_window DEFAULT_SKEW ?now (ev_created_at event)"
        using accepted_window Cons.prems(3,5) j by auto
      then have "?now \<le> now + retention"
        using window_span [OF w] assms(4,7) by blast
      ultimately show False
        using held_never_accepted [OF _ accept_held [OF r], of reqs k P] Cons.prems(1,3,5) j by auto
    qed
  next
    case (Suc i')
    with Cons.IH [of i' k "snd ?v"] Cons.prems x j show ?thesis
      by (auto simp: case_prod_beta)
  qed
qed simp

end

lemma remember_keys: "remember k now s = (b, s') \<Longrightarrow> s' = filter (\<lambda>(_, t). now - t \<le> 600) s @ (if b then [(k, now)] else [])"
  by (auto simp: remember_def Let_def DEFAULT_SKEW_def not_less split: if_splits intro!: filter_cong)

interpretation memory: replay_guard remember "\<lambda>s k t. (k, t) \<in> set s" 600
proof
  fix k now s s'
  assume "remember k now s = (True, s')"
  then show "(k, now) \<in> set s'" by (auto dest: remember_keys)
next
  fix s :: seen and k t now k'
  assume "(k, t) \<in> set s" "now \<le> t + 600"
  then show "(k, t) \<in> set (snd (remember k' now s))"
    using remember_keys [of k' now s "fst (remember k' now s)" "snd (remember k' now s)"] by auto
next
  fix s :: seen and k t now
  assume "(k, t) \<in> set s" "now \<le> t + 600"
  then have "(k, t) \<in> set (filter (\<lambda>(_, t). \<not> (DEFAULT_SKEW * 2 < now - t)) s)"
    by (simp add: DEFAULT_SKEW_def)
  then have "k \<in> fst ` set (filter (\<lambda>(_, t). \<not> (DEFAULT_SKEW * 2 < now - t)) s)"
    by (force simp only: image_iff fst_conv)
  then show "\<not> fst (remember k now s)"
    by (simp add: remember_def)
qed

lemma to_upper_idem: "to_upper (to_upper s) = to_upper s"
  by (induction s) (auto simp: to_upper_def upper_char_def Let_def)

lemma strip_nostr_header:
  "e \<noteq> [] \<Longrightarrow> \<not> is_space (hd e) \<Longrightarrow> strip_nostr (''Nostr '' @ e) = e"
proof -
  assume e: "e \<noteq> []" "\<not> is_space (hd e)"
  have "to_lower ''Nostr'' = ''nostr''" and sp: "is_space CHR '' ''" by code_simp+
  moreover have "dropWhile is_space e = e"
    using e by (cases e) auto
  ultimately show ?thesis by (simp add: strip_nostr_def)
qed

section \<open>Properties\<close>

text \<open>
  C18. Replay protection of the internal endpoints: when requests are verified one after the
  other with the in-memory cache and a clock that does not run backwards, two requests that
  carry the same event are never both accepted, however far apart they are; the cache keeps
  an id for 600 seconds, twice the accepted clock skew.
\<close>

theorem no_event_accepted_twice:
  assumes "sorted (map fst reqs)" and "i < j" and "j < length reqs"
    and "carries P (snd (reqs ! i)) event" and "carries P (snd (reqs ! j)) event"
    and "ev_created_at event \<noteq> NaN"
    and "verify_all P remember reqs seen ! i = Inr signer"
  shows "\<exists>e. verify_all P remember reqs seen ! j = Inl e"
proof -
  have "isl (verify_all P remember reqs seen ! j)"
    by (rule memory.accepted_once [OF assms(1-3) _ assms(4-6)]) (simp_all add: DEFAULT_SKEW_def assms(7))
  then show ?thesis by (cases "verify_all P remember reqs seen ! j") auto
qed

text \<open>A concrete event, its request and primitives, for the witnesses.\<close>

definition sample_event :: NostrEvent where
  "sample_event = \<lparr>ev_id = ''e1'', ev_pubkey = ''pk'', ev_created_at = Num 1000, ev_kind = Num 27235,
     ev_tags = [[''u'', ''http://h/x''], [''method'', ''GET''], [''nonce'', ''n'']], ev_content = [], ev_sig = ''s''\<rparr>"

definition sample_prims :: nostr_prims where
  "sample_prims = \<lparr>p_parse = (\<lambda>s. if s = ''e'' then Ev sample_event else BadJson), p_verifyEvent = (\<lambda>_. True),
     p_sha256Hex = (\<lambda>_. ''0''), p_stringify = (\<lambda>_. []), p_npubEncode = (\<lambda>k. ''npub1'' @ k)\<rparr>"

definition sample_request98 :: Nip98Request where
  "sample_request98 = \<lparr>rq_authorization = HStr ''Nostr e'', rq_method = ''get'', rq_originalUrl = ''/x'',
     rq_protocol = ''http'', rq_host = Some ''h'', rq_body = NoBody\<rparr>"

lemma sample_carries: "carries sample_prims sample_request98 sample_event"
proof -
  have "strip_nostr ''Nostr e'' = ''e''" by code_simp
  then show ?thesis
    by (simp add: carries_def sample_request98_def sample_prims_def header_raw_def)
qed

lemma sample_accepted:
  "verifyNip98 sample_prims remember None None 1100 sample_request98 []
     = (Inr \<lparr>sg_pubkey = ''pk'', sg_npub = ''npub1pk''\<rparr>, [(''e1'', 1100)])"
proof -
  have strip: "strip_nostr ''Nostr e'' = ''e''" "to_upper ''get'' = ''GET''" "to_upper ''GET'' = ''GET''" by code_simp+
  show ?thesis
    by (simp add: verifyNip98_def sample_request98_def sample_prims_def header_raw_def strip Let_def
        sample_event_def outside_window_def DEFAULT_SKEW_def url_matches_def derivedUrl_def
        payload_ok_def remember_def)
qed

theorem no_event_accepted_twice_witness:
  "verify_all sample_prims remember [(1100, sample_request98), (1250, sample_request98)] [] ! 0
     = Inr \<lparr>sg_pubkey = ''pk'', sg_npub = ''npub1pk''\<rparr>
   \<and> (\<exists>e. verify_all sample_prims remember [(1100, sample_request98), (1250, sample_request98)] [] ! 1 = Inl e)"
  using no_event_accepted_twice [of "[(1100, sample_request98), (1250, sample_request98)]" 0 1 sample_prims
      sample_event "[]" "\<lparr>sg_pubkey = ''pk'', sg_npub = ''npub1pk''\<rparr>"]
    sample_carries sample_accepted
  by (simp add: sample_event_def)

text \<open>
  C19. The gate of the data service: a request goes on only if its header carries an event
  that passes the signature check, is of kind 27235, was created within 300 seconds of now,
  names the request's method and URL and (if it has a payload tag) the hash of its body, and
  only if the signer has an enabled service account; the npub recorded is the signer's.
\<close>

theorem service_gate_sound:
  assumes "serviceAccountGate P remember now req d seen = (GateNext n, seen')"
  shows "\<exists>event a u m. carries P req event \<and> p_verifyEvent P event \<and> ev_kind event = Num 27235
    \<and> \<not> outside_window 300 now (ev_created_at event)
    \<and> find_tag ''u'' (ev_tags event) = Some u \<and> strip_trailing_slashes u = strip_trailing_slashes (derivedUrl req)
    \<and> find_tag ''method'' (ev_tags event) = Some m \<and> to_upper m = to_upper (rq_method req)
    \<and> payload_ok P req (ev_tags event)
    \<and> n = p_npubEncode P (ev_pubkey event)
    \<and> a \<in> set (serviceAccounts d) \<and> sa_npub a = n \<and> sa_enabled a"
proof -
  obtain sg where v: "verifyNip98 P remember None None now req seen = (Inr sg, seen')" and n: "n = sg_npub sg"
    and a: "\<exists>a. find_row sa_npub n (serviceAccounts d) = Some a \<and> sa_enabled a"
    using assms
    by (auto simp: serviceAccountGate_def Let_def split: prod.splits sum.splits nip98_error.splits
        option.splits if_splits)
  from v obtain raw event where ev: "header_raw (rq_authorization req) = Some raw" "raw \<noteq> []"
      "p_parse P (strip_nostr raw) = Ev event" "p_verifyEvent P event" "ev_kind event = Num 27235"
      "\<not> outside_window DEFAULT_SKEW now (ev_created_at event)"
      "sg = \<lparr>sg_pubkey = ev_pubkey event, sg_npub = p_npubEncode P (ev_pubkey event)\<rparr>"
    by (rule memory.verify_accepts) auto
  have "\<exists>u m. find_tag ''u'' (ev_tags event) = Some u \<and> strip_trailing_slashes u = strip_trailing_slashes (derivedUrl req)
    \<and> find_tag ''method'' (ev_tags event) = Some m \<and> to_upper m = to_upper (rq_method req)
    \<and> payload_ok P req (ev_tags event)"
    using v ev by (auto simp: verifyNip98_def Let_def url_matches_def split: if_splits prod.splits)
  with ev a n show ?thesis
    unfolding carries_def DEFAULT_SKEW_def by (auto dest!: find_row_SomeD)
qed

theorem service_gate_sound_witness:
  "\<exists>event. carries sample_prims sample_request98 event \<and> ev_kind event = Num 27235"
proof -
  let ?d = "empty_db\<lparr>serviceAccounts := [\<lparr>sa_npub = ''npub1pk'', sa_label = None, sa_enabled = True, sa_createdAt = 0\<rparr>]\<rparr>"
  have "serviceAccountGate sample_prims remember 1100 sample_request98 ?d []
      = (GateNext ''npub1pk'', [(''e1'', 1100)])"
    by (simp add: serviceAccountGate_def sample_accepted)
  from service_gate_sound [OF this] show ?thesis by blast
qed

text \<open>
  C20. Signed requests are accepted: a header made by the signer for a method, URL and body
  passes the verifier on a request that arrives on this URL with this method and body within
  300 seconds, unless its event id is in the cache. The codec inverts on the event, the
  signing primitive keeps the template and its output passes the check, and hashes are
  lower-case.
\<close>

theorem signed_request_accepted:
  assumes ev: "ev = finalize (nip98_template (p_sha256Hex P) (p_stringify P) nonce now meth url body)"
    and keeps: "ev_kind ev = Num 27235" "ev_created_at ev = num_of_int now"
      "ev_tags ev = et_tags (nip98_template (p_sha256Hex P) (p_stringify P) nonce now meth url body)"
    and codec: "p_parse P (encode ev) = Ev ev" "encode ev \<noteq> []" "\<not> is_space (hd (encode ev))"
    and prims: "p_verifyEvent P ev" "\<And>s. to_lower (p_sha256Hex P s) = p_sha256Hex P s"
    and req: "rq_authorization req = HStr (nip98_header finalize encode (p_sha256Hex P) (p_stringify P) nonce now meth url body)"
      "to_upper (rq_method req) = to_upper meth" "derivedUrl req = url"
      "\<And>j. body = Some j \<Longrightarrow> rq_body req = JsonBody j"
    and url: "url \<noteq> []" and window: "\<bar>now' - now\<bar> \<le> 300"
    and fresh: "ev_id ev \<notin> fst ` set seen"
  shows "fst (verifyNip98 P remember None None now' req seen) =
    Inr \<lparr>sg_pubkey = ev_pubkey ev, sg_npub = p_npubEncode P (ev_pubkey ev)\<rparr>"
proof -
  have raw: "header_raw (rq_authorization req) = Some (''Nostr '' @ encode ev)"
    by (simp add: req(1) header_raw_def nip98_header_def ev)
  have tags: "find_tag ''u'' (ev_tags ev) = Some url" "find_tag ''method'' (ev_tags ev) = Some (to_upper meth)"
    by (simp_all add: keeps(3) nip98_template_def)
  have "payload_ok P req (ev_tags ev)"
    using prims(2) req(4)
    by (auto simp: payload_ok_def keeps(3) nip98_template_def payload_hash_def split: option.split)
  moreover have "\<not> outside_window DEFAULT_SKEW now' (ev_created_at ev)"
  proof -
    have "(of_int \<bar>now' - now\<bar> :: rat) \<le> of_int 300" using window by (simp only: of_int_le_iff)
    then show ?thesis by (simp add: keeps(2) outside_window_def DEFAULT_SKEW_def)
  qed
  moreover have "fst (remember (ev_id ev) now' seen)"
    using fresh by (auto simp: remember_def Let_def)
  ultimately show ?thesis
    using raw strip_nostr_header [OF codec(2,3)] codec(1) prims(1) keeps(1) tags url req(2,3)
    by (simp add: verifyNip98_def Let_def url_matches_def case_prod_beta to_upper_idem)
qed

theorem signed_request_accepted_witness:
  "fst (verifyNip98 sample_prims remember None None 1100 sample_request98 [])
     = Inr \<lparr>sg_pubkey = ''pk'', sg_npub = ''npub1pk''\<rparr>"
proof -
  have up: "to_upper ''get'' = ''GET''" "to_upper ''GET'' = ''GET''" "\<not> is_space CHR ''e''" "to_lower ''0'' = ''0''"
    by code_simp+
  show ?thesis
    using signed_request_accepted [of sample_event "\<lambda>_. sample_event" sample_prims "''n''" 1000 "''get''"
        "''http://h/x''" None "\<lambda>_. ''e''" sample_request98 1100 "[]"]
    by (simp add: sample_event_def sample_prims_def sample_request98_def nip98_template_def nip98_header_def
        derivedUrl_def up)
qed

end
