(* ===== verification/Lifecycle.thy ===== *)
theory Lifecycle
  imports JsBase
begin

text \<open>
  The account lifecycle of \<open>packages/lifecycle/src/state.ts\<close> and \<open>load.ts\<close>: the
  validated configuration, and \<open>deriveAccess\<close>, the only source of enforcement, which
  computes the status and the permissions of an account from its expiry date, its usage
  and the current time. The lemmas give the windows in which each status holds, that
  statuses only get more severe with time, and what each permission implies.
\<close>

section \<open>Configuration\<close>

datatype UserStatus = UNPAID | ACTIVE | GRACE | WRITE_BLOCKED | READ_BLOCKED | CLOSED

record LifecycleNotifyConfig =
  expiryWarningDays :: "int list"
  quotaWarningPercent :: "int list"

record LifecycleConfig =
  graceDays :: int
  writeBlockedDays :: int
  readBlockedDays :: int
  purgeEnabled :: bool
  notify :: LifecycleNotifyConfig

definition DEFAULT_LIFECYCLE_CONFIG :: LifecycleConfig where
  "DEFAULT_LIFECYCLE_CONFIG =
     \<lparr>graceDays = 7, writeBlockedDays = 30, readBlockedDays = 30, purgeEnabled = False,
      notify = \<lparr>expiryWarningDays = [14, 3, 1], quotaWarningPercent = [80, 100]\<rparr>\<rparr>"

text \<open>The errors \<open>parseLifecycleConfig\<close> and \<open>loadLifecycleConfig\<close> throw.\<close>

datatype config_error =
    RootNotMapping
  | NotNonNegativeInteger string
  | NotArrayOfNonNegativeIntegers string
  | GraceDaysNotPositive
  | PurgeEnabledNotBoolean
  | ReadOrParseFailed string

text \<open>\<open>typeof v === "number" && Number.isInteger(v) && v >= 0\<close>.\<close>

fun json_nonneg_int :: "json \<Rightarrow> int option" where
  "json_nonneg_int (JNum x) =
     (if num_is_integer x \<and> 0 \<le> num_to_int x then Some (num_to_int x) else None)"
| "json_nonneg_int _ = None"

fun positiveInt :: "json option \<Rightarrow> string \<Rightarrow> int \<Rightarrow> config_error + int" where
  "positiveInt None name fallback = Inr fallback"
| "positiveInt (Some JNull) name fallback = Inr fallback"
| "positiveInt (Some v) name fallback =
     (case json_nonneg_int v of None \<Rightarrow> Inl (NotNonNegativeInteger name) | Some n \<Rightarrow> Inr n)"

text \<open>\<open>xs.sort((a, b) => b - a)\<close>: largest first.\<close>

definition sort_desc :: "int list \<Rightarrow> int list" where
  "sort_desc xs = sort_key uminus xs"

fun positiveIntArray :: "json option \<Rightarrow> string \<Rightarrow> int list \<Rightarrow> config_error + int list" where
  "positiveIntArray None name fallback = Inr fallback"
| "positiveIntArray (Some JNull) name fallback = Inr fallback"
| "positiveIntArray (Some (JArr vs)) name fallback =
     (if list_all (\<lambda>v. json_nonneg_int v \<noteq> None) vs
      then Inr (sort_desc (map (\<lambda>v. the (json_nonneg_int v)) vs))
      else Inl (NotArrayOfNonNegativeIntegers name))"
| "positiveIntArray (Some _) name fallback = Inl (NotArrayOfNonNegativeIntegers name)"

text \<open>The part of \<open>parseLifecycleConfig\<close> that reads the fields of the root mapping.\<close>

fun parse_purgeEnabled :: "json option \<Rightarrow> config_error + bool" where
  "parse_purgeEnabled None = Inr (purgeEnabled DEFAULT_LIFECYCLE_CONFIG)"
| "parse_purgeEnabled (Some (JBool b)) = Inr b"
| "parse_purgeEnabled (Some _) = Inl PurgeEnabledNotBoolean"

text \<open>\<open>rawNotify?.[key]\<close>, where only an object (or array) other than null counts.\<close>

definition notify_prop :: "json option \<Rightarrow> string \<Rightarrow> json option" where
  "notify_prop n key =
     (case n of
        Some v \<Rightarrow> (if typeof_object v \<and> v \<noteq> JNull then jprop key v else None)
      | None \<Rightarrow> None)"

definition parse_notify :: "json option \<Rightarrow> config_error + LifecycleNotifyConfig" where
  "parse_notify n =
     (case positiveIntArray (notify_prop n ''expiryWarningDays'') ''notify.expiryWarningDays''
             (expiryWarningDays (notify DEFAULT_LIFECYCLE_CONFIG)) of
        Inl e \<Rightarrow> Inl e
      | Inr ew \<Rightarrow>
         (case positiveIntArray (notify_prop n ''quotaWarningPercent'') ''notify.quotaWarningPercent''
                 (quotaWarningPercent (notify DEFAULT_LIFECYCLE_CONFIG)) of
            Inl e \<Rightarrow> Inl e
          | Inr qw \<Rightarrow>
             Inr \<lparr>expiryWarningDays = ew, quotaWarningPercent = filter (\<lambda>p. p \<le> 100) qw\<rparr>))"

definition parse_fields :: "json \<Rightarrow> config_error + LifecycleConfig" where
  "parse_fields r =
     (case positiveInt (jprop ''graceDays'' r) ''graceDays'' (graceDays DEFAULT_LIFECYCLE_CONFIG) of
        Inl e \<Rightarrow> Inl e
      | Inr gd \<Rightarrow>
      if gd \<le> 0 then Inl GraceDaysNotPositive else
      (case positiveInt (jprop ''writeBlockedDays'' r) ''writeBlockedDays''
              (writeBlockedDays DEFAULT_LIFECYCLE_CONFIG) of
         Inl e \<Rightarrow> Inl e
       | Inr wb \<Rightarrow>
      (case positiveInt (jprop ''readBlockedDays'' r) ''readBlockedDays''
              (readBlockedDays DEFAULT_LIFECYCLE_CONFIG) of
         Inl e \<Rightarrow> Inl e
       | Inr rb \<Rightarrow>
      (case parse_purgeEnabled (jprop ''purgeEnabled'' r) of
         Inl e \<Rightarrow> Inl e
       | Inr pe \<Rightarrow>
      (case parse_notify (jprop ''notify'' r) of
         Inl e \<Rightarrow> Inl e
       | Inr nc \<Rightarrow>
         Inr \<lparr>graceDays = gd, writeBlockedDays = wb, readBlockedDays = rb,
              purgeEnabled = pe, notify = nc\<rparr>)))))"

fun parseLifecycleConfig :: "json option \<Rightarrow> config_error + LifecycleConfig" where
  "parseLifecycleConfig None = Inr DEFAULT_LIFECYCLE_CONFIG"
| "parseLifecycleConfig (Some JNull) = Inr DEFAULT_LIFECYCLE_CONFIG"
| "parseLifecycleConfig (Some (JObj kvs)) = parse_fields (JObj kvs)"
| "parseLifecycleConfig (Some _) = Inl RootNotMapping"

text \<open>
  \<open>loadLifecycleConfig\<close>: reading and parsing the file either gives a YAML value, or fails
  with ENOENT (built-in defaults) or with another error (boot fails).
\<close>

datatype read_result = ReadYaml "json option" | ReadENOENT | ReadError string

fun loadLifecycleConfig :: "read_result \<Rightarrow> config_error + LifecycleConfig" where
  "loadLifecycleConfig (ReadYaml raw) = parseLifecycleConfig raw"
| "loadLifecycleConfig ReadENOENT = Inr DEFAULT_LIFECYCLE_CONFIG"
| "loadLifecycleConfig (ReadError msg) = Inl (ReadOrParseFailed msg)"

section \<open>Access\<close>

datatype access_reason = R_unpaid | R_active | R_grace_expired_plan | R_grace_over_quota
  | R_write_blocked | R_read_blocked | R_closed

record AccessState =
  status :: UserStatus
  canUpload :: bool
  canRead :: bool
  canDelete :: bool
  graceUntil :: "date option"
  writeBlockedUntil :: "date option"
  readBlockedUntil :: "date option"
  purgeAt :: "date option"
  reason :: access_reason

text \<open>
  \<open>EntitlementDates\<close> with the allowance. \<open>planExpiresAt\<close> is null, a \<open>Date\<close>, or a string;
  \<open>BigInt\<close> of the two sizes is done by the caller's decoding.
\<close>

datatype date_input = NullDate | DateObj date | DateStr string

record EntitlementDates =
  e_planExpiresAt :: date_input
  e_storageBytes :: "int option"
  e_usedStorage :: int

text \<open>
  \<open>toDate\<close>. \<open>date_parse\<close> is \<open>Date.parse\<close>: ECMA-262 leaves the accepted formats other
  than ISO 8601 to the implementation, so it is an argument. An unparsable value is null.
\<close>

fun toDate :: "(string \<Rightarrow> date) \<Rightarrow> date_input \<Rightarrow> int option" where
  "toDate date_parse NullDate = None"
| "toDate date_parse (DateObj d) = d"
| "toDate date_parse (DateStr s) = date_parse s"

definition unpaid_access :: AccessState where
  "unpaid_access = \<lparr>status = UNPAID, canUpload = False, canRead = False, canDelete = False,
     graceUntil = None, writeBlockedUntil = None, readBlockedUntil = None, purgeAt = None,
     reason = R_unpaid\<rparr>"

definition active_access :: AccessState where
  "active_access = \<lparr>status = ACTIVE, canUpload = True, canRead = True, canDelete = True,
     graceUntil = None, writeBlockedUntil = None, readBlockedUntil = None, purgeAt = None,
     reason = R_active\<rparr>"

text \<open>The window ends \<open>graceUntil\<close>, \<open>writeBlockedUntil\<close> and \<open>readBlockedUntil\<close>.\<close>

definition grace_end :: "int \<Rightarrow> LifecycleConfig \<Rightarrow> date" where
  "grace_end expiry config = new_Date (expiry + graceDays config * DAY_MS)"

definition write_end :: "int \<Rightarrow> LifecycleConfig \<Rightarrow> date" where
  "write_end expiry config = date_add (grace_end expiry config) (writeBlockedDays config * DAY_MS)"

definition read_end :: "int \<Rightarrow> LifecycleConfig \<Rightarrow> date" where
  "read_end expiry config = date_add (write_end expiry config) (readBlockedDays config * DAY_MS)"

definition deriveAccess ::
  "(string \<Rightarrow> date) \<Rightarrow> EntitlementDates \<Rightarrow> int \<Rightarrow> LifecycleConfig \<Rightarrow> AccessState" where
  "deriveAccess date_parse user now config =
     (let used = e_usedStorage user; allowance = e_storageBytes user in
      case toDate date_parse (e_planExpiresAt user) of
        None \<Rightarrow> unpaid_access
      | Some expiry \<Rightarrow>
         (let gu = grace_end expiry config;
              wu = write_end expiry config;
              ru = read_end expiry config;
              closed = date_ge (Some now) ru;
              overQuota = (case allowance of None \<Rightarrow> False | Some a \<Rightarrow> a < used)
          in
          if closed then
            \<lparr>status = CLOSED, canUpload = False, canRead = False, canDelete = False,
             graceUntil = Some gu, writeBlockedUntil = Some wu, readBlockedUntil = Some ru,
             purgeAt = Some ru, reason = R_closed\<rparr>
          else if now < expiry then
            (if overQuota then
               \<lparr>status = GRACE, canUpload = False, canRead = True, canDelete = True,
                graceUntil = Some gu, writeBlockedUntil = Some wu, readBlockedUntil = Some ru,
                purgeAt = None, reason = R_grace_over_quota\<rparr>
             else active_access)
          else if date_lt (Some now) gu then
            \<lparr>status = GRACE, canUpload = False, canRead = True, canDelete = True,
             graceUntil = Some gu, writeBlockedUntil = Some wu, readBlockedUntil = Some ru,
             purgeAt = None,
             reason = (if overQuota then R_grace_over_quota else R_grace_expired_plan)\<rparr>
          else if date_lt (Some now) wu then
            \<lparr>status = WRITE_BLOCKED, canUpload = False, canRead = True, canDelete = True,
             graceUntil = Some gu, writeBlockedUntil = Some wu, readBlockedUntil = Some ru,
             purgeAt = None, reason = R_write_blocked\<rparr>
          else
            \<lparr>status = READ_BLOCKED, canUpload = False, canRead = False, canDelete = True,
             graceUntil = Some gu, writeBlockedUntil = Some wu, readBlockedUntil = Some ru,
             purgeAt = Some ru, reason = R_read_blocked\<rparr>))"

text \<open>\<open>daysUntil\<close>: \<open>Math.ceil((target - now) / DAY_MS)\<close>.\<close>

definition daysUntil :: "int \<Rightarrow> int \<Rightarrow> int" where
  "daysUntil target now = - ((now - target) div DAY_MS)"

section \<open>Lemmas\<close>

named_theorems access_simps \<open>field values of the derived access states\<close>

subsection \<open>The configuration\<close>

text \<open>What a configuration that passed validation satisfies.\<close>

definition valid_config :: "LifecycleConfig \<Rightarrow> bool" where
  "valid_config c \<longleftrightarrow> 0 < graceDays c \<and> 0 \<le> writeBlockedDays c \<and> 0 \<le> readBlockedDays c"

lemma json_nonneg_int_nonneg: "json_nonneg_int v = Some n \<Longrightarrow> 0 \<le> n"
  by (cases v) (auto split: if_splits)

lemma positiveInt_nonneg: "positiveInt v name fb = Inr n \<Longrightarrow> 0 \<le> fb \<Longrightarrow> 0 \<le> n"
  by (cases "(v, name, fb)" rule: positiveInt.cases)
    (auto split: option.splits if_splits dest: json_nonneg_int_nonneg)

lemma sorted_sort_desc: "sorted_wrt (\<ge>) (sort_desc xs)"
proof -
  have "sorted (map uminus (sort_desc xs))"
    by (simp add: sort_desc_def)
  then show ?thesis
    by (simp add: sorted_wrt_map)
qed

lemma set_sort_desc [simp]: "set (sort_desc xs) = set xs"
  by (simp add: sort_desc_def)

lemma positiveIntArray_sound:
  assumes "positiveIntArray v name fb = Inr ns" and "sorted_wrt (\<ge>) fb" and "\<forall>n \<in> set fb. 0 \<le> n"
  shows "sorted_wrt (\<ge>) ns \<and> (\<forall>n \<in> set ns. 0 \<le> n)"
  using assms
  by (cases "(v, name, fb)" rule: positiveIntArray.cases)
    (fastforce split: if_splits simp: sorted_sort_desc list_all_iff dest: json_nonneg_int_nonneg)+

lemma parse_notify_sound:
  assumes "parse_notify n = Inr nc"
  shows "sorted_wrt (\<ge>) (expiryWarningDays nc) \<and> (\<forall>d \<in> set (expiryWarningDays nc). 0 \<le> d)"
    and "\<forall>p \<in> set (quotaWarningPercent nc). p \<le> 100"
proof -
  from assms obtain qw where
    ew: "positiveIntArray (notify_prop n ''expiryWarningDays'') ''notify.expiryWarningDays''
           [14, 3, 1] = Inr (expiryWarningDays nc)"
    and qw: "quotaWarningPercent nc = filter (\<lambda>p. p \<le> 100) qw"
    by (auto simp: parse_notify_def DEFAULT_LIFECYCLE_CONFIG_def split: sum.splits)
  from positiveIntArray_sound [OF ew]
  show "sorted_wrt (\<ge>) (expiryWarningDays nc) \<and> (\<forall>d \<in> set (expiryWarningDays nc). 0 \<le> d)"
    by simp
  show "\<forall>p \<in> set (quotaWarningPercent nc). p \<le> 100"
    by (simp add: qw)
qed

lemma parse_fields_sound:
  assumes "parse_fields r = Inr c"
  shows "valid_config c"
    and "sorted_wrt (\<ge>) (expiryWarningDays (notify c)) \<and> (\<forall>d \<in> set (expiryWarningDays (notify c)). 0 \<le> d)"
    and "\<forall>p \<in> set (quotaWarningPercent (notify c)). p \<le> 100"
  using assms
  by (auto simp: parse_fields_def valid_config_def DEFAULT_LIFECYCLE_CONFIG_def
      split: sum.splits if_splits dest: positiveInt_nonneg parse_notify_sound)

lemma default_config_valid: "valid_config DEFAULT_LIFECYCLE_CONFIG"
  by (simp add: valid_config_def DEFAULT_LIFECYCLE_CONFIG_def)

lemma parseLifecycleConfig_valid: "parseLifecycleConfig raw = Inr c \<Longrightarrow> valid_config c"
  by (cases raw rule: parseLifecycleConfig.cases)
    (auto simp: default_config_valid dest: parse_fields_sound)

subsection \<open>The access state\<close>

text \<open>How far an account is from being fully served.\<close>

fun severity :: "UserStatus \<Rightarrow> nat" where
  "severity ACTIVE = 0"
| "severity GRACE = 1"
| "severity WRITE_BLOCKED = 2"
| "severity READ_BLOCKED = 3"
| "severity CLOSED = 4"
| "severity UNPAID = 5"

lemma unpaid_access_simps [access_simps]:
  "status unpaid_access = UNPAID" "\<not> canUpload unpaid_access" "\<not> canRead unpaid_access"
  "\<not> canDelete unpaid_access" "purgeAt unpaid_access = None" "reason unpaid_access = R_unpaid"
  by (simp_all add: unpaid_access_def)

lemma active_access_simps [access_simps]:
  "status active_access = ACTIVE" "canUpload active_access" "canRead active_access"
  "canDelete active_access" "purgeAt active_access = None" "reason active_access = R_active"
  by (simp_all add: active_access_def)

lemma deriveAccess_unpaid:
  "toDate dp (e_planExpiresAt u) = None \<Longrightarrow> deriveAccess dp u now c = unpaid_access"
  by (simp add: deriveAccess_def)

text \<open>The three window ends when none of them leaves the range of \<open>Date\<close>.\<close>

definition windows_in_range :: "int \<Rightarrow> LifecycleConfig \<Rightarrow> bool" where
  "windows_in_range e c \<longleftrightarrow> \<bar>e\<bar> \<le> MAX_DATE_MS
     \<and> e + (graceDays c + writeBlockedDays c + readBlockedDays c) * DAY_MS \<le> MAX_DATE_MS"

lemma windows_values:
  assumes "valid_config c" and "windows_in_range e c"
  shows "grace_end e c = Some (e + graceDays c * DAY_MS)"
    and "write_end e c = Some (e + (graceDays c + writeBlockedDays c) * DAY_MS)"
    and "read_end e c = Some (e + (graceDays c + writeBlockedDays c + readBlockedDays c) * DAY_MS)"
proof -
  let ?g = "graceDays c" and ?w = "writeBlockedDays c" and ?r = "readBlockedDays c"
  have pos: "0 \<le> ?g * DAY_MS" "0 \<le> ?w * DAY_MS" "0 \<le> ?r * DAY_MS"
    using assms(1) by (simp_all add: valid_config_def DAY_MS_def)
  have top: "e + (?g * DAY_MS + ?w * DAY_MS + ?r * DAY_MS) \<le> MAX_DATE_MS" and low: "- MAX_DATE_MS \<le> e"
    using assms(2) by (simp_all add: windows_in_range_def algebra_simps abs_le_iff)
  show g: "grace_end e c = Some (e + ?g * DAY_MS)"
    unfolding grace_end_def by (rule new_Date_in_range) (use pos top low in linarith)
  have "new_Date (e + ?g * DAY_MS + ?w * DAY_MS) = Some (e + ?g * DAY_MS + ?w * DAY_MS)"
    by (rule new_Date_in_range) (use pos top low in linarith)
  then show w: "write_end e c = Some (e + (?g + ?w) * DAY_MS)"
    by (simp add: write_end_def g algebra_simps)
  have "new_Date (e + ?g * DAY_MS + ?w * DAY_MS + ?r * DAY_MS) = Some (e + ?g * DAY_MS + ?w * DAY_MS + ?r * DAY_MS)"
    by (rule new_Date_in_range) (use pos top low in linarith)
  then show "read_end e c = Some (e + (?g + ?w + ?r) * DAY_MS)"
    by (simp add: read_end_def w algebra_simps)
qed

text \<open>Even outside the range of \<open>Date\<close> the window ends that exist are in order.\<close>

lemma date_add_mono: "date_add d k = Some b \<Longrightarrow> 0 \<le> k \<Longrightarrow> \<exists>a. d = Some a \<and> a \<le> b"
  by (cases d) (auto dest: new_Date_SomeD)

lemma windows_ordered:
  assumes "valid_config c"
  shows "grace_end e c = Some g \<Longrightarrow> e \<le> g"
    and "write_end e c = Some w \<Longrightarrow> \<exists>g. grace_end e c = Some g \<and> g \<le> w"
    and "read_end e c = Some r \<Longrightarrow> \<exists>w. write_end e c = Some w \<and> w \<le> r"
  using assms
  by (auto simp: grace_end_def write_end_def read_end_def valid_config_def DAY_MS_def
      dest: new_Date_SomeD date_add_mono)

section \<open>Properties\<close>

text \<open>
  C4. Statuses only become more severe as time passes: for every configuration that passed
  validation and every entitlement that does not change, the status at a later time is at
  least as severe as at an earlier time (ACTIVE, GRACE, WRITE_BLOCKED, READ_BLOCKED,
  CLOSED, in this order; an account without expiry date stays UNPAID). This needs no
  assumption that the window ends are valid dates.
\<close>

theorem deriveAccess_severity_mono:
  assumes cfg: "parseLifecycleConfig raw = Inr c" and le: "now \<le> now'"
  shows "severity (status (deriveAccess dp u now c)) \<le> severity (status (deriveAccess dp u now' c))"
proof (cases "toDate dp (e_planExpiresAt u)")
  case None
  then show ?thesis by (simp add: deriveAccess_unpaid)
next
  case (Some e)
  have v: "valid_config c" by (rule parseLifecycleConfig_valid [OF cfg])
  note o = windows_ordered [OF v, of e]
  show ?thesis
    using le Some o
    by (cases "grace_end e c"; cases "write_end e c"; cases "read_end e c")
      (auto simp: deriveAccess_def Let_def access_simps split: option.splits if_splits)
qed

theorem deriveAccess_severity_mono_witness:
  "severity (status (deriveAccess (\<lambda>_. None)
       \<lparr>e_planExpiresAt = DateObj (Some 1000), e_storageBytes = Some 10, e_usedStorage = 3\<rparr>
       500 DEFAULT_LIFECYCLE_CONFIG)) = 0
   \<and> severity (status (deriveAccess (\<lambda>_. None)
       \<lparr>e_planExpiresAt = DateObj (Some 1000), e_storageBytes = Some 10, e_usedStorage = 3\<rparr>
       500 DEFAULT_LIFECYCLE_CONFIG))
     \<le> severity (status (deriveAccess (\<lambda>_. None)
       \<lparr>e_planExpiresAt = DateObj (Some 1000), e_storageBytes = Some 10, e_usedStorage = 3\<rparr>
       2000 DEFAULT_LIFECYCLE_CONFIG))"
proof -
  have p: "parseLifecycleConfig None = Inr DEFAULT_LIFECYCLE_CONFIG" by simp
  have "severity (status (deriveAccess (\<lambda>_. None)
       \<lparr>e_planExpiresAt = DateObj (Some 1000), e_storageBytes = Some 10, e_usedStorage = 3\<rparr>
       500 DEFAULT_LIFECYCLE_CONFIG)) = 0"
    by (simp add: deriveAccess_def DEFAULT_LIFECYCLE_CONFIG_def grace_end_def write_end_def
        read_end_def js_defs access_simps)
  then show ?thesis
    using deriveAccess_severity_mono [OF p, of 500 2000] by simp
qed

text \<open>
  What each permission means: uploads exactly in ACTIVE, reads exactly in ACTIVE, GRACE
  and WRITE_BLOCKED, deletes exactly outside UNPAID and CLOSED, and a purge date exactly in
  READ_BLOCKED and CLOSED.
\<close>

lemma deriveAccess_permissions:
  "(canUpload (deriveAccess dp u now c) \<longleftrightarrow> status (deriveAccess dp u now c) = ACTIVE)
   \<and> (canRead (deriveAccess dp u now c) \<longleftrightarrow>
        status (deriveAccess dp u now c) \<in> {ACTIVE, GRACE, WRITE_BLOCKED})
   \<and> (canDelete (deriveAccess dp u now c) \<longleftrightarrow>
        status (deriveAccess dp u now c) \<notin> {UNPAID, CLOSED})
   \<and> (purgeAt (deriveAccess dp u now c) \<noteq> None \<longleftrightarrow>
        status (deriveAccess dp u now c) \<in> {READ_BLOCKED, CLOSED})"
  by (auto simp: deriveAccess_def Let_def access_simps split: option.splits)



text \<open>
  Validation is fail-fast: a configuration that is accepted has a positive grace window,
  non-negative other windows, expiry warnings that are non-negative and largest first, and
  no quota warning above 100 percent.
\<close>

theorem parseLifecycleConfig_sound:
  assumes "parseLifecycleConfig raw = Inr c"
  shows "0 < graceDays c \<and> 0 \<le> writeBlockedDays c \<and> 0 \<le> readBlockedDays c
    \<and> sorted_wrt (\<ge>) (expiryWarningDays (notify c))
    \<and> (\<forall>d \<in> set (expiryWarningDays (notify c)). 0 \<le> d)
    \<and> (\<forall>p \<in> set (quotaWarningPercent (notify c)). p \<le> 100)"
proof (cases raw rule: parseLifecycleConfig.cases)
  case (3 kvs)
  with assms have "parse_fields (JObj kvs) = Inr c" by simp
  from parse_fields_sound [OF this] show ?thesis
    by (simp add: valid_config_def)
qed (use assms in \<open>auto simp: DEFAULT_LIFECYCLE_CONFIG_def\<close>)

theorem parseLifecycleConfig_sound_witness:
  "\<exists>c. parseLifecycleConfig (Some (JObj [(''graceDays'', JNum (Num 5)),
        (''notify'', JObj [(''expiryWarningDays'', JArr [JNum (Num 1), JNum (Num 9)])])])) = Inr c
     \<and> graceDays c = 5 \<and> sorted_wrt (\<ge>) (expiryWarningDays (notify c))"
proof -
  let ?raw = "Some (JObj [(''graceDays'', JNum (Num 5)),
        (''notify'', JObj [(''expiryWarningDays'', JArr [JNum (Num 1), JNum (Num 9)])])])"
  obtain c where c: "parseLifecycleConfig ?raw = Inr c" and g: "graceDays c = 5"
    by (simp add: parse_fields_def parse_notify_def notify_prop_def rat_is_int_def)
  show ?thesis using parseLifecycleConfig_sound [OF c] c g by blast
qed

text \<open>
  A grace window of \<open>10^9\<close> days passes validation, but its end is not a valid date: the
  comparison with it is false and the account is read-blocked the moment the plan expires.
\<close>

theorem overlong_grace_blocks_reads:
  "(\<exists>c. parseLifecycleConfig (Some (JObj [(''graceDays'', JNum (Num 1000000000))])) = Inr c
      \<and> graceDays c = 1000000000
      \<and> status (deriveAccess dp \<lparr>e_planExpiresAt = DateObj (Some 1000), e_storageBytes = None,
                                  e_usedStorage = 0\<rparr> 1000 c) = READ_BLOCKED)"
  by (simp add: parse_fields_def parse_notify_def notify_prop_def rat_is_int_def
      deriveAccess_def grace_end_def write_end_def read_end_def js_defs)

end
