(* ===== verification/Proxy_Auth.thy ===== *)
theory Proxy_Auth
  imports Nip98 Lifecycle "HOL-Library.AList"
begin

text \<open>
  Who may do what at the proxy, \<open>proxy/blossom/src\<close>: BUD-11 upload/read/delete tokens
  (\<open>nostr.ts\<close>), the admin and service gates (\<open>admin-auth.ts\<close>), the fixed-window rate limiter
  (\<open>rate-limit.ts\<close>) and the cached entitlement lookup (\<open>access.ts\<close>). The two caches share the
  interface \<open>ttl_cache\<close>; the limiter refines a per-key counter.
\<close>

section \<open>BUD-11 tokens (\<open>nostr.ts\<close>)\<close>

datatype BlossomAction = ActGet | ActUpload | ActList | ActDelete | ActMedia

fun action_name :: "BlossomAction \<Rightarrow> string" where
  "action_name ActGet = ''get''"
| "action_name ActUpload = ''upload''"
| "action_name ActList = ''list''"
| "action_name ActDelete = ''delete''"
| "action_name ActMedia = ''media''"

datatype auth_error = AuthError string nat | AuthRaised

text \<open>\<open>parseAuthHeader\<close> and the signature check of its result.\<close>

definition parseAuthHeader :: "nostr_prims \<Rightarrow> string \<Rightarrow> auth_error + NostrEvent" where
  "parseAuthHeader P authHeader =
     (case p_parse P (strip_nostr authHeader) of
        BadJson \<Rightarrow> Inl (AuthError ''Malformed Authorization event'' 400)
      | BadEvent \<Rightarrow> Inl AuthRaised
      | Ev event \<Rightarrow> Inr event)"

text \<open>The values of the \<open>x\<close> tags, lower-cased; a tag without a value gives undefined.\<close>

definition x_tags :: "string list list \<Rightarrow> string option list" where
  "x_tags tags =
     map (\<lambda>t. case t of _ # v # _ \<Rightarrow> Some (to_lower v) | _ \<Rightarrow> None)
       (filter (\<lambda>t. t \<noteq> [] \<and> hd t = ''x'') tags)"

definition quoted :: "string \<Rightarrow> string" where
  "quoted s = CHR 0x22 # s @ [CHR 0x22]"

definition scope_error :: "string option \<Rightarrow> bool \<Rightarrow> string list list \<Rightarrow> auth_error option" where
  "scope_error hash requireHashScope tags =
     (let xs = x_tags tags;
          missing = AuthError (''Authorization event must include an '' @ quoted ''x'' @ '' tag for the target blob hash'') 401
      in if hash \<noteq> None \<and> hash \<noteq> Some [] then
           (if xs \<noteq> [] then
              (if Some (to_lower (the hash)) \<notin> set xs
               then Some (AuthError (''Authorization event's '' @ quoted ''x'' @ '' tag does not match the target blob hash'') 401)
               else None)
            else if requireHashScope then Some missing else None)
         else if requireHashScope \<and> xs = [] then Some missing else None)"

definition valid_expiration :: "int \<Rightarrow> string option \<Rightarrow> bool" where
  "valid_expiration now v \<longleftrightarrow>
     v \<noteq> None \<and> v \<noteq> Some [] \<and> num_is_finite (js_Number (the v))
     \<and> \<not> num_le (js_Number (the v)) (num_of_int now)"

definition verifyAuthToken ::
  "nostr_prims \<Rightarrow> int \<Rightarrow> string option \<Rightarrow> BlossomAction \<Rightarrow> string option \<Rightarrow> bool \<Rightarrow> auth_error + npub" where
  "verifyAuthToken P now authHeader action hash requireHashScope =
     (if authHeader = None \<or> authHeader = Some []
      then Inl (AuthError ''Missing Authorization header'' 401)
      else
     (case parseAuthHeader P (the authHeader) of
        Inl e \<Rightarrow> Inl e
      | Inr event \<Rightarrow>
      if \<not> p_verifyEvent P event then Inl (AuthError ''Invalid Nostr signature'' 401)
      else if ev_kind event \<noteq> Num 24242
      then Inl (AuthError ''Authorization event must be kind 24242'' 401)
      else if num_lt (num_of_int now) (ev_created_at event)
      then Inl (AuthError ''Authorization event created_at must be in the past'' 401)
      else
     (let tags = ev_tags event in
      if \<not> valid_expiration now (find_tag ''expiration'' tags)
      then Inl (AuthError ''Authorization event is missing a valid future expiration tag'' 401)
      else if find_tag ''t'' tags \<noteq> Some (action_name action)
      then Inl (AuthError (''Authorization event must have a '' @ quoted ''t'' @ '' tag of '' @ quoted (action_name action)) 401)
      else
     (case scope_error hash requireHashScope tags of
        Some e \<Rightarrow> Inl e
      | None \<Rightarrow> Inr (p_npubEncode P (ev_pubkey event))))))"

section \<open>Caches (\<open>access.ts\<close>, \<open>admin-auth.ts\<close>)\<close>

text \<open>A cache entry: the value and the time of the lookup it came from.\<close>

type_synonym ('k, 'v) ttl_map = "'k \<Rightarrow> ('v \<times> int) option"

definition cache_hit :: "int \<Rightarrow> int \<Rightarrow> 'k \<Rightarrow> ('k, 'v) ttl_map \<Rightarrow> 'v option" where
  "cache_hit ttl now k c =
     (case c k of None \<Rightarrow> None | Some (v, t) \<Rightarrow> if now - t < ttl then Some v else None)"

text \<open>
  \<open>createAccessCache().get\<close>: \<open>fetched\<close> is what \<open>db.getUser\<close> gives if it is called, an error or
  the row or null. An error is rethrown and nothing is cached.
\<close>

definition access_get ::
  "int \<Rightarrow> int \<Rightarrow> npub \<Rightarrow> 'e + User option \<Rightarrow> (npub, User option) ttl_map
    \<Rightarrow> ('e + User option) \<times> (npub, User option) ttl_map" where
  "access_get ttl now n fetched c =
     (case cache_hit ttl now n c of
        Some u \<Rightarrow> (Inr u, c)
      | None \<Rightarrow> (case fetched of Inl e \<Rightarrow> (Inl e, c) | Inr u \<Rightarrow> (Inr u, c(n \<mapsto> (u, now)))))"

definition access_invalidate :: "npub \<Rightarrow> (npub, 'v) ttl_map \<Rightarrow> (npub, 'v) ttl_map" where
  "access_invalidate n c = c(n := None)"

text \<open>
  \<open>isAdmin\<close>: \<open>configured\<close> says that backend URL and service key are set; \<open>reply\<close> is the
  backend's answer (\<open>res.data.admin === true\<close>) or a failed request; \<open>later\<close> is the time at
  which the answer arrives. \<open>Inl\<close> is a denial without an answer.
\<close>

definition admin_lookup ::
  "int \<Rightarrow> bool \<Rightarrow> int \<Rightarrow> int \<Rightarrow> npub \<Rightarrow> unit + bool \<Rightarrow> (npub, bool) ttl_map
    \<Rightarrow> (unit + bool) \<times> (npub, bool) ttl_map" where
  "admin_lookup ttl configured now later n reply c =
     (case cache_hit ttl now n c of
        Some a \<Rightarrow> (Inr a, c)
      | None \<Rightarrow>
          if \<not> configured then (Inl (), c)
          else (case reply of Inl _ \<Rightarrow> (Inl (), c) | Inr a \<Rightarrow> (Inr a, c(n \<mapsto> (a, later)))))"

definition isAdmin ::
  "int \<Rightarrow> bool \<Rightarrow> int \<Rightarrow> int \<Rightarrow> npub \<Rightarrow> unit + bool \<Rightarrow> (npub, bool) ttl_map \<Rightarrow> bool \<times> (npub, bool) ttl_map" where
  "isAdmin ttl configured now later n reply c =
     (let (r, c') = admin_lookup ttl configured now later n reply c in (r = Inr True, c'))"

definition ADMIN_TTL :: int where
  "ADMIN_TTL = 60000"

section \<open>Gates\<close>

text \<open>
  \<open>createInternalRoleGate\<close>: the service account row comes from the data service, whose call
  may fail.
\<close>

definition internalRoleGate ::
  "nostr_prims \<Rightarrow> int \<Rightarrow> Nip98Request \<Rightarrow> (npub \<Rightarrow> unit + ServiceAccount option) \<Rightarrow> seen \<Rightarrow> gate_result \<times> seen" where
  "internalRoleGate P now req get_account replay =
     (let (r, replay') = verifyNip98 P remember None None now req replay in
      (case r of
         Inl (Nip98Error msg st) \<Rightarrow> GateError st ''unauthorized'' msg
       | Inl RaisedError \<Rightarrow> GateRaise
       | Inr signer \<Rightarrow>
           (case get_account (sg_npub signer) of
              Inl _ \<Rightarrow> GateRaise
            | Inr None \<Rightarrow> GateError 403 ''forbidden_service_account'' []
            | Inr (Some a) \<Rightarrow> if sa_enabled a then GateNext (sg_npub signer)
                        else GateError 403 ''forbidden_service_account'' []), replay'))"

text \<open>
  \<open>requireAdmin\<close>, with the admin lookup as a function of the cache.
\<close>

definition requireAdmin ::
  "nostr_prims \<Rightarrow> int \<Rightarrow> Nip98Request \<Rightarrow> (npub \<Rightarrow> 'c \<Rightarrow> bool \<times> 'c) \<Rightarrow> seen \<Rightarrow> 'c \<Rightarrow> gate_result \<times> seen \<times> 'c" where
  "requireAdmin P now req is_admin replay c =
     (let (r, replay') = verifyNip98 P remember None None now req replay in
      case r of
        Inl (Nip98Error msg st) \<Rightarrow> (GateError st msg msg, replay', c)
      | Inl RaisedError \<Rightarrow> (GateRaise, replay', c)
      | Inr signer \<Rightarrow>
          (let (a, c') = is_admin (sg_npub signer) c in
           if \<not> a then (GateError 403 ''admin_required'' [], replay', c')
           else (GateNext (sg_npub signer), replay', c')))"

section \<open>Rate limiter (\<open>rate-limit.ts\<close>)\<close>

record bucket =
  count :: int
  resetAt :: int

type_synonym buckets = "(string \<times> bucket) list"

definition rl_hit :: "int \<Rightarrow> int \<Rightarrow> int \<Rightarrow> string \<Rightarrow> buckets \<Rightarrow> bool \<times> buckets" where
  "rl_hit windowMs mx now key bs =
     (case map_of bs key of
        Some b \<Rightarrow>
          if resetAt b \<le> now then
            (let bs' = AList.update key \<lparr>count = 1, resetAt = now + windowMs\<rparr> bs in
             (True, if 10000 < length bs' then filter (\<lambda>(_, b). \<not> resetAt b \<le> now) bs' else bs'))
          else (count b + 1 \<le> mx, AList.update key (b\<lparr>count := count b + 1\<rparr>) bs)
      | None \<Rightarrow>
          (let bs' = AList.update key \<lparr>count = 1, resetAt = now + windowMs\<rparr> bs in
           (True, if 10000 < length bs' then filter (\<lambda>(_, b). \<not> resetAt b \<le> now) bs' else bs')))"

definition clientIp :: "string option \<Rightarrow> string option \<Rightarrow> string" where
  "clientIp ip remoteAddress =
     (case ip of Some s \<Rightarrow> s | None \<Rightarrow> (case remoteAddress of Some s \<Rightarrow> s | None \<Rightarrow> ''unknown''))"

section \<open>Access of a user (\<open>access.ts\<close>)\<close>

text \<open>\<open>withAccess\<close>: the row's expiry is a date or null.\<close>

definition user_dates :: "User \<Rightarrow> EntitlementDates" where
  "user_dates u =
     \<lparr>e_planExpiresAt = (case u_planExpiresAt u of None \<Rightarrow> NullDate | Some t \<Rightarrow> DateObj (Some t)),
      e_storageBytes = u_storageBytes u, e_usedStorage = u_usedStorage u\<rparr>"

definition withAccess :: "User \<Rightarrow> LifecycleConfig \<Rightarrow> int \<Rightarrow> AccessState" where
  "withAccess u config now = deriveAccess (\<lambda>_. None) (user_dates u) now config"

fun STATUS_ERROR_CODES :: "UserStatus \<Rightarrow> string" where
  "STATUS_ERROR_CODES UNPAID = ''unpaid''"
| "STATUS_ERROR_CODES ACTIVE = ''active''"
| "STATUS_ERROR_CODES GRACE = ''grace''"
| "STATUS_ERROR_CODES WRITE_BLOCKED = ''write_blocked''"
| "STATUS_ERROR_CODES READ_BLOCKED = ''read_blocked''"
| "STATUS_ERROR_CODES CLOSED = ''account_closed''"

section \<open>Freshness of cached answers\<close>

text \<open>
  The interface of a cache with a time to live. \<open>get\<close> answers at a time for a key, with the
  outcome \<open>f\<close> of the lookup it makes on a miss; \<open>fetched f\<close> is the value this lookup gives, and
  \<open>stamp now f\<close> the time the entry gets. The laws: an answer is fetched now or is the value
  of an entry younger than \<open>ttl\<close>; a new entry is what was just fetched.
\<close>

datatype ('k, 'f) cache_op = Lookup int 'k 'f | Invalidate 'k

fun cache_run ::
  "(int \<Rightarrow> 'k \<Rightarrow> 'f \<Rightarrow> 'c \<Rightarrow> 'v option \<times> 'c) \<Rightarrow> ('k \<Rightarrow> 'c \<Rightarrow> 'c) \<Rightarrow> ('k, 'f) cache_op list \<Rightarrow> 'c \<Rightarrow> 'v option list" where
  "cache_run get inval [] c = []"
| "cache_run get inval (Lookup now k f # ops) c =
     (let (a, c') = get now k f c in a # cache_run get inval ops c')"
| "cache_run get inval (Invalidate k # ops) c = None # cache_run get inval ops (inval k c)"

locale ttl_cache =
  fixes get :: "int \<Rightarrow> 'k \<Rightarrow> 'f \<Rightarrow> 'c \<Rightarrow> 'v option \<times> 'c"
    and inval :: "'k \<Rightarrow> 'c \<Rightarrow> 'c"
    and entry :: "'c \<Rightarrow> 'k \<Rightarrow> 'v \<Rightarrow> int \<Rightarrow> bool"
    and fetched :: "'f \<Rightarrow> 'v option"
    and stamp :: "int \<Rightarrow> 'f \<Rightarrow> int"
    and ttl :: int
  assumes answer_law: "get now k f c = (Some v, c') \<Longrightarrow> fetched f = Some v \<or> (\<exists>t. entry c k v t \<and> now - t < ttl)"
    and entry_law: "entry (snd (get now k f c)) k' v t \<Longrightarrow>
      entry c k' v t \<or> k' = k \<and> fetched f = Some v \<and> t = stamp now f"
    and inval_law: "entry (inval k c) k' v t \<Longrightarrow> entry c k' v t"
begin

lemma answer_origin:
  assumes "i < length ops" and "ops ! i = Lookup now k f" and "cache_run get inval ops c ! i = Some v"
  shows "fetched f = Some v
    \<or> (\<exists>t. entry c k v t \<and> now - t < ttl)
    \<or> (\<exists>j now' f'. j < i \<and> ops ! j = Lookup now' k f' \<and> fetched f' = Some v \<and> now - stamp now' f' < ttl)"
  using assms
proof (induction ops arbitrary: c i)
  case (Cons op ops)
  show ?case
  proof (cases i)
    case 0
    with Cons.prems have "get now k f c = (Some v, snd (get now k f c))"
      by (cases "get now k f c") auto
    from answer_law [OF this] show ?thesis by blast
  next
    case (Suc m)
    define c' where "c' = (case op of Lookup now k f \<Rightarrow> snd (get now k f c) | Invalidate k \<Rightarrow> inval k c)"
    have run: "cache_run get inval (op # ops) c ! i = cache_run get inval ops c' ! m"
      by (cases op) (simp_all add: Suc c'_def case_prod_beta)
    have old: "entry c k v t \<or> (\<exists>now' f'. op = Lookup now' k f' \<and> fetched f' = Some v \<and> t = stamp now' f')"
      if "entry c' k v t" for t
    proof (cases op)
      case (Lookup n' k' f')
      with that entry_law [of n' k' f' c k v t] show ?thesis by (auto simp: c'_def)
    next
      case (Invalidate k')
      with that inval_law [of k' c k v t] show ?thesis by (simp add: c'_def)
    qed
    from Cons.IH [of m c'] Cons.prems Suc run
    consider "fetched f = Some v" | t where "entry c' k v t" "now - t < ttl"
      | j now' f' where "j < m" "ops ! j = Lookup now' k f'" "fetched f' = Some v" "now - stamp now' f' < ttl"
      by auto
    then show ?thesis
    proof cases
      case 2
      with old [of t] consider "entry c k v t"
        | now' f' where "op = Lookup now' k f'" "fetched f' = Some v" "t = stamp now' f'"
        by blast
      then show ?thesis
      proof cases
        case 1
        with 2 show ?thesis by blast
      next
        case 2
        with \<open>now - t < ttl\<close> Suc have "0 < i \<and> (op # ops) ! 0 = Lookup now' k f' \<and> now - stamp now' f' < ttl"
          by simp
        with 2 show ?thesis by blast
      qed
    next
      case 3
      then have "Suc j < i \<and> (op # ops) ! Suc j = Lookup now' k f'" using Suc by simp
      with 3 show ?thesis by blast
    qed blast
  qed
qed simp

end

text \<open>The two caches, with an error of the lookup as no answer.\<close>

definition access_lookup ::
  "int \<Rightarrow> int \<Rightarrow> npub \<Rightarrow> 'e + User option \<Rightarrow> (npub, User option) ttl_map \<Rightarrow> User option option \<times> (npub, User option) ttl_map" where
  "access_lookup ttl now n f c =
     (let (r, c') = access_get ttl now n f c in (case r of Inl _ \<Rightarrow> None | Inr u \<Rightarrow> Some u, c'))"

definition answer_of :: "'e + 'v \<Rightarrow> 'v option" where
  "answer_of r = (case r of Inl _ \<Rightarrow> None | Inr v \<Rightarrow> Some v)"

interpretation access: ttl_cache "access_lookup ttl" access_invalidate "\<lambda>c k v t. c k = Some (v, t)" answer_of "\<lambda>now _. now" ttl for ttl
proof
  fix now k f c v c'
  assume "access_lookup ttl now k f c = (Some v, c')"
  then show "answer_of f = Some v \<or> (\<exists>t. c k = Some (v, t) \<and> now - t < ttl)"
    by (auto simp: access_lookup_def access_get_def cache_hit_def answer_of_def
        split: option.splits if_splits sum.splits)
next
  fix now k f c k' v t
  assume "snd (access_lookup ttl now k f c) k' = Some (v, t)"
  then show "c k' = Some (v, t) \<or> k' = k \<and> answer_of f = Some v \<and> t = now"
    by (auto simp: access_lookup_def access_get_def answer_of_def case_prod_beta
        split: option.splits if_splits sum.splits)
qed (auto simp: access_invalidate_def split: if_splits)

definition admin_answer ::
  "int \<Rightarrow> bool \<Rightarrow> int \<Rightarrow> npub \<Rightarrow> int \<times> (unit + bool) \<Rightarrow> (npub, bool) ttl_map \<Rightarrow> bool option \<times> (npub, bool) ttl_map" where
  "admin_answer ttl configured now n f c =
     (let (r, c') = admin_lookup ttl configured now (fst f) n (snd f) c in (answer_of r, c'))"

interpretation admin: ttl_cache "admin_answer ttl configured" "\<lambda>_ c. c" "\<lambda>c k v t. c k = Some (v, t)"
  "\<lambda>f. answer_of (snd f)" "\<lambda>_ f. fst f" ttl for ttl configured
proof
  fix now k f c v c'
  assume "admin_answer ttl configured now k f c = (Some v, c')"
  then show "answer_of (snd f) = Some v \<or> (\<exists>t. c k = Some (v, t) \<and> now - t < ttl)"
    by (auto simp: admin_answer_def admin_lookup_def cache_hit_def answer_of_def case_prod_beta
        split: option.splits if_splits sum.splits)
next
  fix now k f c k' v t
  assume "snd (admin_answer ttl configured now k f c) k' = Some (v, t)"
  then show "c k' = Some (v, t) \<or> k' = k \<and> answer_of (snd f) = Some v \<and> t = fst f"
    by (auto simp: admin_answer_def admin_lookup_def answer_of_def case_prod_beta
        split: option.splits if_splits sum.splits)
qed auto

section \<open>The rate limiter refines a counter per key\<close>

text \<open>One key alone: the bucket, if any, and the hits on this key.\<close>

definition ref_hit :: "int \<Rightarrow> int \<Rightarrow> int \<Rightarrow> bucket option \<Rightarrow> bool \<times> bucket option" where
  "ref_hit w m now st =
     (case st of
        Some b \<Rightarrow>
          if resetAt b \<le> now then (True, Some \<lparr>count = 1, resetAt = now + w\<rparr>)
          else (count b + 1 \<le> m, Some (b\<lparr>count := count b + 1\<rparr>))
      | None \<Rightarrow> (True, Some \<lparr>count = 1, resetAt = now + w\<rparr>))"

text \<open>An expired bucket is as good as none.\<close>

definition live :: "int \<Rightarrow> bucket option \<Rightarrow> bucket option" where
  "live now st = (case st of None \<Rightarrow> None | Some b \<Rightarrow> if resetAt b \<le> now then None else Some b)"

lemma ref_hit_live: "ref_hit w m now (live now st) = ref_hit w m now st"
  by (auto simp: ref_hit_def live_def split: option.split)

lemma live_live: "now \<le> t \<Longrightarrow> live t (live now st) = live t st"
  by (auto simp: live_def split: option.split)

lemma map_of_filter_distinct:
  assumes "distinct (map fst xs)"
  shows "map_of (filter P xs) k = (case map_of xs k of None \<Rightarrow> None | Some v \<Rightarrow> if P (k, v) then Some v else None)"
  using assms
proof (induction xs)
  case (Cons x xs)
  then have "fst x = k \<Longrightarrow> map_of xs k = None" by (auto simp: map_of_eq_None_iff)
  with Cons show ?case by (auto split: option.splits)
qed simp

lemma evict_live:
  assumes "distinct (map fst bs)" and "now \<le> t"
  shows "live t (map_of (filter (\<lambda>(_, b). \<not> resetAt b \<le> now) bs) k) = live t (map_of bs k)"
  using assms by (auto simp: map_of_filter_distinct live_def split: option.split)

lemma rl_hit_refines:
  assumes "distinct (map fst bs)" and "now \<le> t"
  shows "fst (rl_hit w m now key bs) = fst (ref_hit w m now (map_of bs key))
    \<and> live t (map_of (snd (rl_hit w m now key bs)) k) =
        live t (if k = key then snd (ref_hit w m now (map_of bs key)) else map_of bs k)
    \<and> distinct (map fst (snd (rl_hit w m now key bs)))"
  using assms
  by (auto simp: rl_hit_def ref_hit_def Let_def evict_live distinct_update update_conv'
      distinct_map_filter split: option.split)

fun rl_run :: "int \<Rightarrow> int \<Rightarrow> (int \<times> string) list \<Rightarrow> buckets \<Rightarrow> bool list" where
  "rl_run w m [] bs = []"
| "rl_run w m ((now, key) # hs) bs =
     (let (a, bs') = rl_hit w m now key bs in a # rl_run w m hs bs')"

text \<open>Allowed hits of a key in the interval of one window length from \<open>t0\<close>.\<close>

definition allowed_in :: "int \<Rightarrow> int \<Rightarrow> string \<Rightarrow> (int \<times> string) list \<Rightarrow> bool list \<Rightarrow> nat" where
  "allowed_in w t0 k hs as =
     length (filter (\<lambda>((t, k'), a). a \<and> k' = k \<and> t0 \<le> t \<and> t < t0 + w) (zip hs as))"

fun ref_count :: "int \<Rightarrow> int \<Rightarrow> int \<Rightarrow> int list \<Rightarrow> bucket option \<Rightarrow> int" where
  "ref_count w m t0 [] st = 0"
| "ref_count w m t0 (t # ts) st =
     (let (a, st') = ref_hit w m t st in
      (if a \<and> t0 \<le> t \<and> t < t0 + w then 1 else 0) + ref_count w m t0 ts st')"

lemma rl_run_count:
  assumes "sorted (map fst hs)" and "distinct (map fst bs)" and "\<forall>h \<in> set hs. now \<le> fst h"
    and "live now (map_of bs k) = live now st"
  shows "int (allowed_in w t0 k hs (rl_run w m hs bs)) =
    ref_count w m t0 (map fst (filter (\<lambda>h. snd h = k) hs)) st"
  using assms
proof (induction hs arbitrary: bs now st)
  case (Cons h hs)
  obtain t key where h: "h = (t, key)" by fastforce
  have t: "now \<le> t" "\<forall>h \<in> set hs. t \<le> fst h" using Cons.prems(1,3) h by auto
  let ?bs = "snd (rl_hit w m t key bs)"
  note r = rl_hit_refines [OF Cons.prems(2), of t t w m key k]
  have same: "live t (map_of bs k) = live t st"
    using Cons.prems(4) t(1) live_live by metis
  show ?case
  proof (cases "key = k")
    case True
    have eq: "ref_hit w m t (map_of bs k) = ref_hit w m t st"
      using same ref_hit_live by metis
    have "int (allowed_in w t0 k hs (rl_run w m hs ?bs)) =
        ref_count w m t0 (map fst (filter (\<lambda>h. snd h = k) hs)) (snd (ref_hit w m t st))"
      using r True eq Cons.prems(1) t(2) h by (intro Cons.IH [of _ t]) auto
    then show ?thesis
      using r True eq h by (simp add: allowed_in_def case_prod_beta)
  next
    case False
    have "int (allowed_in w t0 k hs (rl_run w m hs ?bs)) =
        ref_count w m t0 (map fst (filter (\<lambda>h. snd h = k) hs)) st"
      using r False same Cons.prems(1) t(2) h by (intro Cons.IH [of _ t]) auto
    then show ?thesis
      using False h by (simp add: allowed_in_def case_prod_beta)
  qed
qed (simp add: allowed_in_def)

text \<open>After the interval nothing counts; in it, a bucket opened at \<open>t0\<close> or later never expires.\<close>

lemma ref_count_after: "\<forall>t \<in> set ts. t0 + w \<le> t \<Longrightarrow> ref_count w m t0 ts st = 0"
  by (induction ts arbitrary: st) (auto simp: case_prod_beta)

lemma ref_count_inside:
  "sorted ts \<Longrightarrow> t0 + w \<le> resetAt b \<Longrightarrow> ref_count w m t0 ts (Some b) \<le> max 0 (m - count b)"
proof (induction ts arbitrary: b)
  case (Cons t ts)
  show ?case
  proof (cases "resetAt b \<le> t")
    case True
    with Cons.prems have "\<forall>x \<in> set (t # ts). t0 + w \<le> x" by auto
    then show ?thesis using ref_count_after [of "t # ts" t0 w m "Some b"] by (simp del: ref_count.simps)
  next
    case False
    have "ref_count w m t0 ts (Some (b\<lparr>count := count b + 1\<rparr>)) \<le> max 0 (m - (count b + 1))"
      using Cons.IH [of "b\<lparr>count := count b + 1\<rparr>"] Cons.prems by simp
    with False show ?thesis by (auto simp: ref_hit_def max_def split: if_splits)
  qed
qed simp

lemma ref_count_straddle:
  "sorted ts \<Longrightarrow> t0 \<le> resetAt b \<Longrightarrow> ref_count w m t0 ts (Some b) \<le> max 0 (m - count b) + max 1 m"
proof (induction ts arbitrary: b)
  case (Cons t ts)
  show ?case
  proof (cases "resetAt b \<le> t")
    case True
    have "ref_count w m t0 ts (Some \<lparr>count = 1, resetAt = t + w\<rparr>) \<le> max 0 (m - 1)"
      using ref_count_inside [of ts t0 w "\<lparr>count = 1, resetAt = t + w\<rparr>" m] True Cons.prems by simp
    with True show ?thesis by (auto simp: ref_hit_def max_def split: if_splits)
  next
    case False
    have "ref_count w m t0 ts (Some (b\<lparr>count := count b + 1\<rparr>)) \<le> max 0 (m - (count b + 1)) + max 1 m"
      using Cons.IH [of "b\<lparr>count := count b + 1\<rparr>"] Cons.prems by simp
    with False show ?thesis by (auto simp: ref_hit_def max_def split: if_splits)
  qed
qed simp

lemma ref_count_before:
  "sorted ts \<Longrightarrow> 0 \<le> w \<Longrightarrow> (\<And>b. st = Some b \<Longrightarrow> resetAt b < t0) \<Longrightarrow> ref_count w m t0 ts st \<le> 2 * max 1 m"
proof (induction ts arbitrary: st)
  case (Cons t ts)
  let ?new = "\<lparr>count = 1, resetAt = t + w\<rparr>"
  have fresh: "(if t0 \<le> t \<and> t < t0 + w then 1 else 0) + ref_count w m t0 ts (Some ?new) \<le> 2 * max 1 m"
  proof (cases "t0 \<le> t")
    case True
    then have "ref_count w m t0 ts (Some ?new) \<le> max 0 (m - 1)"
      using ref_count_inside [of ts t0 w ?new m] Cons.prems(1) by simp
    then show ?thesis by (auto simp: max_def split: if_splits)
  next
    case False
    show ?thesis
    proof (cases "t0 \<le> t + w")
      case True
      with False ref_count_straddle [of ts t0 ?new w m] Cons.prems(1) show ?thesis by (auto simp: max_def split: if_splits)
    next
      case below: False
      with False Cons.IH [of "Some ?new"] Cons.prems(1,2) show ?thesis by simp
    qed
  qed
  show ?case
  proof (cases "\<exists>b. st = Some b \<and> t < resetAt b")
    case True
    then obtain b where b: "st = Some b" "t < resetAt b" by blast
    then have "\<not> t0 \<le> t" using Cons.prems(3) by fastforce
    with b Cons.IH [of "Some (b\<lparr>count := count b + 1\<rparr>)"] Cons.prems show ?thesis
      by (simp add: ref_hit_def)
  next
    case False
    then have "ref_hit w m t st = (True, Some ?new)"
      by (auto simp: ref_hit_def split: option.split)
    with fresh show ?thesis by simp
  qed
qed simp

section \<open>Properties\<close>







text \<open>
  C24. Upload and delete tokens: a token accepted for an action on a hash is a correctly signed
  kind 24242 event that was created in the past, expires in the future, has the action as
  its t tag and the hash (in any case) among its x tags; the npub is its signer's. So a token
  for another action, another blob or without a blob is refused.
\<close>

theorem auth_token_sound:
  assumes "verifyAuthToken P now hdr action (Some hash) True = Inr n" and "hash \<noteq> []"
  shows "\<exists>raw event x. hdr = Some raw \<and> p_parse P (strip_nostr raw) = Ev event \<and> p_verifyEvent P event
    \<and> ev_kind event = Num 24242 \<and> \<not> num_lt (num_of_int now) (ev_created_at event)
    \<and> find_tag ''expiration'' (ev_tags event) = Some x \<and> num_is_finite (js_Number x) \<and> num_lt (num_of_int now) (js_Number x)
    \<and> find_tag ''t'' (ev_tags event) = Some (action_name action)
    \<and> (\<exists>v rest. ''x'' # v # rest \<in> set (ev_tags event) \<and> to_lower v = to_lower hash)
    \<and> n = p_npubEncode P (ev_pubkey event)"
proof -
  from assms(1) obtain raw where raw: "hdr = Some raw" "raw \<noteq> []"
    by (auto simp: verifyAuthToken_def split: if_splits)
  with assms(1) obtain event where ev: "p_parse P (strip_nostr raw) = Ev event"
    by (auto simp: verifyAuthToken_def parseAuthHeader_def split: header_event.splits)
  have acc: "p_verifyEvent P event" "ev_kind event = Num 24242" "\<not> num_lt (num_of_int now) (ev_created_at event)"
    "valid_expiration now (find_tag ''expiration'' (ev_tags event))"
    "find_tag ''t'' (ev_tags event) = Some (action_name action)"
    "scope_error (Some hash) True (ev_tags event) = None" "n = p_npubEncode P (ev_pubkey event)"
    using assms(1) raw ev
    by (simp_all add: verifyAuthToken_def parseAuthHeader_def Let_def split: if_splits option.splits)
  have "Some (to_lower hash) \<in> set (x_tags (ev_tags event))"
    using acc(6) assms(2) by (simp add: scope_error_def Let_def split: if_splits)
  then have x: "\<exists>v rest. ''x'' # v # rest \<in> set (ev_tags event) \<and> to_lower v = to_lower hash"
    by (auto simp: x_tags_def neq_Nil_conv split: list.splits) metis
  obtain v where v: "find_tag ''expiration'' (ev_tags event) = Some v" "num_is_finite (js_Number v)"
    "\<not> num_le (js_Number v) (num_of_int now)"
    using acc(4) by (auto simp: valid_expiration_def)
  then have "num_lt (num_of_int now) (js_Number v)"
    by (cases "js_Number v") auto
  with raw ev acc x v show ?thesis by blast
qed

definition sample_token :: NostrEvent where
  "sample_token = \<lparr>ev_id = ''t1'', ev_pubkey = ''pk'', ev_created_at = Num 1000, ev_kind = Num 24242,
     ev_tags = [[''t'', ''upload''], [''expiration'', ''2000''], [''x'', ''AB'']], ev_content = [], ev_sig = ''s''\<rparr>"

definition token_prims :: nostr_prims where
  "token_prims = sample_prims\<lparr>p_parse := (\<lambda>s. if s = ''t'' then Ev sample_token else BadJson)\<rparr>"

lemma sample_token_accepted:
  "verifyAuthToken token_prims 1500 (Some ''Nostr t'') ActUpload (Some ''ab'') True = Inr ''npub1pk''"
proof -
  have f: "strip_nostr ''Nostr t'' = ''t''" "to_lower ''AB'' = ''ab''" "to_lower ''ab'' = ''ab''"
    and "all_digits ''2000''" "decimal_nat ''2000'' = 2000"
    by code_simp+
  then have "js_Number ''2000'' = Num 2000" by (simp add: js_Number_digits)
  note f = f this
  show ?thesis
    by (simp add: verifyAuthToken_def parseAuthHeader_def token_prims_def sample_prims_def sample_token_def f
        valid_expiration_def scope_error_def x_tags_def Let_def)
qed

theorem auth_token_sound_witness:
  "verifyAuthToken token_prims 1500 (Some ''Nostr t'') ActUpload (Some ''ab'') True = Inr ''npub1pk''
   \<and> (\<exists>event. p_parse token_prims ''t'' = Ev event \<and> find_tag ''t'' (ev_tags event) = Some ''upload'')"
  using auth_token_sound [OF sample_token_accepted] sample_token_accepted
  by (auto simp: token_prims_def sample_token_def)

end
