(* ===== verification/Placement.thy ===== *)
theory Placement
  imports Proxy_Auth "HOL-Library.Word" "HOL-Library.Multiset" "HOL-Library.List_Lexorder" "HOL-Library.Char_ord"
begin

text \<open>
  Blob placement at the proxy, \<open>proxy/blossom/src/servers.ts\<close>: the provider registry, the
  time-bucketed choice of a provider by an FNV-1a hash, the upload loop over the remaining
  roster, and reads and deletes over the replicas of a blob. What a provider does with a
  request is an argument: a function on the state of the nodes.
\<close>

unbundle bit_operations_syntax

section \<open>Registry\<close>

record ServerCandidate =
  sc_id :: string
  sc_url :: string

definition POLL_MS :: int where
  "POLL_MS = 15000"

definition TIME_SLOT_MS :: int where
  "TIME_SLOT_MS = 3600000"

text \<open>\<open>RAW_URL\<close>: a text that starts with http(s):// or ws(s)://, in any case.\<close>

definition is_raw_url :: "string \<Rightarrow> bool" where
  "is_raw_url s \<longleftrightarrow>
     list_ex (starts_with (to_lower s)) [''http://'', ''https://'', ''ws://'', ''wss://'']"

definition hostForUrl :: "string \<Rightarrow> string" where
  "hostForUrl host =
     (if contains_str host '':'' \<and> \<not> starts_with host ''['' then ''['' @ host @ '']'' else host)"

text \<open>An active storage as the data service lists it.\<close>

record ActiveStorage =
  as_npub :: npub
  as_tunnelIp :: string
  as_blossomPort :: nat

type_synonym registry = "(string \<times> string) list"

definition storage_url :: "ActiveStorage \<Rightarrow> string" where
  "storage_url a = ''http://'' @ hostForUrl (as_tunnelIp a) @ '':'' @ show_nat (as_blossomPort a)"

text \<open>\<open>new Map(entries)\<close>: a later entry for a key replaces the value in place.\<close>

definition registry_of :: "ActiveStorage list \<Rightarrow> registry" where
  "registry_of active = foldl (\<lambda>m a. AList.update (as_npub a) (storage_url a) m) [] active"

text \<open>\<open>refresh\<close>: a failed read keeps the last good state.\<close>

definition reg_refresh :: "unit + ActiveStorage list \<Rightarrow> registry \<Rightarrow> registry" where
  "reg_refresh active reg = (case active of Inl _ \<Rightarrow> reg | Inr xs \<Rightarrow> registry_of xs)"

definition candidates :: "registry \<Rightarrow> ServerCandidate list" where
  "candidates reg = map (\<lambda>(k, u). \<lparr>sc_id = k, sc_url = u\<rparr>) reg"

definition freshCandidates :: "unit + ActiveStorage list \<Rightarrow> registry \<Rightarrow> ServerCandidate list \<times> registry" where
  "freshCandidates active reg =
     (let reg' = (if reg = [] then reg_refresh active reg else reg) in (candidates reg', reg'))"

definition reg_resolve :: "registry \<Rightarrow> string \<Rightarrow> string option" where
  "reg_resolve reg k = (if is_raw_url k then Some k else map_of reg k)"

section \<open>Choice of a provider\<close>

definition FNV_OFFSET :: int where
  "FNV_OFFSET = 0xcbf29ce484222325"

definition FNV_PRIME :: int where
  "FNV_PRIME = 0x100000001b3"

text \<open>\<open>TextEncoder\<close>: the UTF-8 bytes of a character below 256.\<close>

definition utf8_char :: "char \<Rightarrow> nat list" where
  "utf8_char c = (let n = char_code c in if n < 128 then [n] else [192 + n div 64, 128 + n mod 64])"

definition utf8 :: "string \<Rightarrow> nat list" where
  "utf8 s = concat (map utf8_char s)"

definition fnv1a :: "string \<Rightarrow> int" where
  "fnv1a s = foldl (\<lambda>h b. ((h XOR int b) * FNV_PRIME) AND 0xffffffffffffffff) FNV_OFFSET (utf8 s)"

definition selectOwner :: "npub \<Rightarrow> ServerCandidate list \<Rightarrow> int \<Rightarrow> ServerCandidate option" where
  "selectOwner n cs now =
     (if cs = [] then None
      else
        (let sorted = sort_key sc_id cs; timeSlot = now div TIME_SLOT_MS
         in Some (sorted ! nat (fnv1a (n @ '':'' @ show_int timeSlot) mod int (length sorted)))))"

text \<open>\<open>replicaTarget\<close>: the value of the environment variable, 2 when it is not at least 1.\<close>

definition replicaTarget :: "string option \<Rightarrow> nat" where
  "replicaTarget env =
     (case env of
        None \<Rightarrow> 2
      | Some s \<Rightarrow>
          (case num_floor (js_Number s) of
             Num r \<Rightarrow> if 1 \<le> r then nat \<lfloor>r\<rfloor> else 2
           | _ \<Rightarrow> 2))"

section \<open>Upload, read, delete\<close>

lemma selectOwner_in:
  assumes "selectOwner n cs now = Some c"
  shows "c \<in> set cs"
proof -
  have ne: "cs \<noteq> []" using assms by (auto simp: selectOwner_def)
  let ?i = "nat (fnv1a (n @ '':'' @ show_int (now div TIME_SLOT_MS)) mod int (length (sort_key sc_id cs)))"
  have "?i < length (sort_key sc_id cs)"
    using ne by (simp add: nat_less_iff)
  then have "sort_key sc_id cs ! ?i \<in> set (sort_key sc_id cs)" by (rule nth_mem)
  with assms ne show ?thesis by (simp add: selectOwner_def Let_def)
qed

text \<open>
  The loop of \<open>uploadBlob\<close>. \<open>put server\<close> is the PUT to a provider: whether it succeeds, and the
  nodes afterwards.
\<close>

function upload_loop ::
  "(ServerCandidate \<Rightarrow> 'n \<Rightarrow> bool \<times> 'n) \<Rightarrow> npub \<Rightarrow> int \<Rightarrow> nat \<Rightarrow> ServerCandidate list
    \<Rightarrow> string list \<Rightarrow> string list \<Rightarrow> 'n \<Rightarrow> string list \<times> string list \<times> 'n" where
  "upload_loop put n now replicaCount remaining stored tried nodes =
     (if remaining = [] \<or> \<not> length stored < replicaCount then (stored, tried, nodes)
      else (case selectOwner n remaining now of
              None \<Rightarrow> (stored, tried, nodes)
            | Some server \<Rightarrow>
                (let (ok, nodes') = put server nodes in
                 if ok
                 then upload_loop put n now replicaCount (remove1 server remaining) (stored @ [sc_id server]) tried nodes'
                 else upload_loop put n now replicaCount (remove1 server remaining) stored (tried @ [sc_id server]) nodes')))"
  by pat_completeness auto

termination
  by (relation "measure (\<lambda>(put, n, now, k, remaining, stored, tried, nodes). length remaining)")
    (auto simp: length_remove1 dest!: selectOwner_in)

declare upload_loop.simps [simp del]

datatype upload_error = NoProviders | AllFailed "string list"

definition uploadBlob ::
  "(ServerCandidate \<Rightarrow> 'n \<Rightarrow> bool \<times> 'n) \<Rightarrow> npub \<Rightarrow> int \<Rightarrow> nat \<Rightarrow> ServerCandidate list \<Rightarrow> 'n
    \<Rightarrow> (upload_error + string list) \<times> 'n" where
  "uploadBlob put n now replicaCount remaining nodes =
     (if remaining = [] then (Inl NoProviders, nodes)
      else
        (let (stored, tried, nodes') = upload_loop put n now replicaCount remaining [] [] nodes in
         if stored = [] then (Inl (AllFailed tried), nodes') else (Inr stored, nodes')))"

text \<open>
  \<open>downloadBlob\<close> and \<open>openBlobStream\<close>: the content from the first replica that resolves and answers.
\<close>

fun openBlobStream :: "(string \<Rightarrow> 'b option) \<Rightarrow> registry \<Rightarrow> string list \<Rightarrow> 'b option" where
  "openBlobStream get_from reg [] = None"
| "openBlobStream get_from reg (r # rs) =
     (case reg_resolve reg r of
        None \<Rightarrow> openBlobStream get_from reg rs
      | Some server \<Rightarrow>
          (case get_from server of Some b \<Rightarrow> Some b | None \<Rightarrow> openBlobStream get_from reg rs))"

text \<open>\<open>deleteBlob\<close>: every resolvable replica is asked to delete; failures are only logged.\<close>

fun node_deleteBlob :: "(string \<Rightarrow> 'n \<Rightarrow> 'n) \<Rightarrow> registry \<Rightarrow> string list \<Rightarrow> 'n \<Rightarrow> 'n" where
  "node_deleteBlob del reg [] nodes = nodes"
| "node_deleteBlob del reg (r # rs) nodes =
     (case reg_resolve reg r of
        None \<Rightarrow> node_deleteBlob del reg rs nodes
      | Some server \<Rightarrow> node_deleteBlob del reg rs (del server nodes))"

section \<open>The hash stays within 64 bits\<close>

text \<open>The same hash on machine words, where multiplication wraps.\<close>

definition fnv1a_word :: "string \<Rightarrow> 64 word" where
  "fnv1a_word s = foldl (\<lambda>h b. (h XOR of_nat b) * 0x100000001b3) 0xcbf29ce484222325 (utf8 s)"

lemma fnv_step:
  "((uint (w :: 64 word) XOR int b) * FNV_PRIME) AND 0xffffffffffffffff = uint ((w XOR of_nat b) * 0x100000001b3)"
proof -
  have mask: "(0xffffffffffffffff :: int) = mask 64"
    by (simp add: mask_eq_exp_minus_1)
  have "(w XOR of_nat b) * 0x100000001b3 = word_of_int ((uint w XOR int b) * FNV_PRIME)"
    by (simp add: FNV_PRIME_def of_int_xor_eq)
  then have "uint ((w XOR of_nat b) * 0x100000001b3) = take_bit 64 ((uint w XOR int b) * FNV_PRIME)"
    by (simp only: uint_word_of_int_eq) simp
  then show ?thesis
    by (simp only: mask take_bit_eq_mask [symmetric])
qed

lemma fnv1a_eq_word: "fnv1a s = uint (fnv1a_word s)"
proof -
  have "foldl (\<lambda>h b. ((h XOR int b) * FNV_PRIME) AND 0xffffffffffffffff) (uint w) bs
      = uint (foldl (\<lambda>h b. (h XOR of_nat b) * 0x100000001b3) (w :: 64 word) bs)" for w bs
    by (induction bs arbitrary: w) (simp_all only: foldl.simps fnv_step)
  from this [of "0xcbf29ce484222325" "utf8 s"] show ?thesis
    by (simp add: fnv1a_def fnv1a_word_def FNV_OFFSET_def)
qed

section \<open>The upload loop\<close>

text \<open>
  What the proxy relies on in a provider: a successful PUT leaves the content on this provider
  and takes it from no other.
\<close>

lemma remove1_shorter: "c \<in> set xs \<Longrightarrow> length (remove1 c xs) < length xs"
  using length_pos_if_in_set [of c xs] by (simp add: length_remove1)

locale provider_put =
  fixes put :: "ServerCandidate \<Rightarrow> 'n \<Rightarrow> bool \<times> 'n"
    and holds :: "'n \<Rightarrow> ServerCandidate \<Rightarrow> bool"
  assumes put_holds: "put c nodes = (True, nodes') \<Longrightarrow> holds nodes' c"
    and put_keeps: "holds nodes c \<Longrightarrow> holds (snd (put c' nodes)) c"
begin

lemma upload_loop_holds:
  assumes "upload_loop put n now k remaining stored tried nodes = (stored', tried', nodes')"
    and "\<forall>i \<in> set stored. \<exists>c \<in> cs. sc_id c = i \<and> holds nodes c" and "set remaining \<subseteq> cs"
  shows "\<forall>i \<in> set stored'. \<exists>c \<in> cs. sc_id c = i \<and> holds nodes' c"
  using assms
proof (induction "length remaining" arbitrary: remaining stored tried nodes rule: less_induct)
  case less
  show ?case
  proof (cases "remaining = [] \<or> \<not> length stored < k")
    case True
    with less.prems show ?thesis by (auto simp: upload_loop.simps)
  next
    case False
    then obtain c where c: "selectOwner n remaining now = Some c"
      by (auto simp: selectOwner_def Let_def)
    have rem: "c \<in> set remaining" using c by (rule selectOwner_in)
    then have mem: "c \<in> cs" using less.prems(3) by blast
    note less' = remove1_shorter [OF rem]
    have sub: "set (remove1 c remaining) \<subseteq> cs" using less.prems(3) set_remove1_subset by fastforce
    obtain ok m where p: "put c nodes = (ok, m)" by fastforce
    have keep: "\<forall>i \<in> set stored. \<exists>c \<in> cs. sc_id c = i \<and> holds m c"
      using less.prems(2) put_keeps [of nodes _ c] p by fastforce
    show ?thesis
    proof (cases ok)
      case True
      have "holds m c" using put_holds p True by simp
      then have "\<forall>i \<in> set (stored @ [sc_id c]). \<exists>c \<in> cs. sc_id c = i \<and> holds m c"
        using keep mem by auto
      moreover have "upload_loop put n now k (remove1 c remaining) (stored @ [sc_id c]) tried m = (stored', tried', nodes')"
        using less.prems(1) False c p True by (simp add: upload_loop.simps [of put n now k remaining])
      ultimately show ?thesis using less.hyps [OF less'] sub by blast
    next
      case fail: False
      have "upload_loop put n now k (remove1 c remaining) stored (tried @ [sc_id c]) m = (stored', tried', nodes')"
        using less.prems(1) False c p fail by (simp add: upload_loop.simps [of put n now k remaining])
      then show ?thesis using less.hyps [OF less'] sub keep by blast
    qed
  qed
qed

lemma uploadBlob_holds:
  assumes "uploadBlob put n now k cs nodes = (Inr replicas, nodes')"
  shows "replicas \<noteq> [] \<and> (\<forall>i \<in> set replicas. \<exists>c \<in> set cs. sc_id c = i \<and> holds nodes' c)"
proof -
  from assms obtain tried where "upload_loop put n now k cs [] [] nodes = (replicas, tried, nodes')" "replicas \<noteq> []"
    by (auto simp: uploadBlob_def Let_def split: if_splits prod.splits)
  with upload_loop_holds [of n now k cs "[]" "[]" nodes replicas tried nodes' "set cs"] show ?thesis by simp
qed

end

text \<open>
  When each provider either accepts or refuses, the loop stores on as many accepting providers
  as are wanted and exist.
\<close>

lemma length_filter_remove1:
  "c \<in> set xs \<Longrightarrow> length (filter P (remove1 c xs)) = length (filter P xs) - (if P c then 1 else 0)"
proof (induction xs)
  case (Cons x xs)
  then show ?case
    using length_pos_if_in_set [of c "filter P xs"] by (cases "x = c") auto
qed simp

lemma upload_loop_count:
  assumes "upload_loop put n now k remaining stored tried nodes = (stored', tried', nodes')"
    and ok: "\<And>c nodes. fst (put c nodes) = accepts c" and "length stored \<le> k"
  shows "length stored' = min k (length stored + length (filter accepts remaining))
    \<and> (\<exists>cs. stored' = stored @ map sc_id cs \<and> set cs \<subseteq> set (filter accepts remaining)
         \<and> (distinct remaining \<longrightarrow> distinct cs))
    \<and> (\<exists>cs. tried' = tried @ map sc_id cs \<and> (\<forall>c \<in> set cs. c \<in> set remaining \<and> \<not> accepts c))"
  using assms(1,3)
proof (induction "length remaining" arbitrary: remaining stored tried nodes rule: less_induct)
  case less
  show ?case
  proof (cases "remaining = [] \<or> \<not> length stored < k")
    case True
    with less.prems show ?thesis by (auto simp: upload_loop.simps)
  next
    case False
    then obtain c where c: "selectOwner n remaining now = Some c"
      by (auto simp: selectOwner_def Let_def)
    have rem: "c \<in> set remaining" using c by (rule selectOwner_in)
    note shorter = remove1_shorter [OF rem] length_filter_remove1 [OF rem, of accepts]
    have sub: "set (remove1 c remaining) \<subseteq> set remaining" by (rule set_remove1_subset)
    obtain m where p: "put c nodes = (accepts c, m)" using ok [of c nodes] by (cases "put c nodes") auto
    show ?thesis
    proof (cases "accepts c")
      case True
      have rec: "upload_loop put n now k (remove1 c remaining) (stored @ [sc_id c]) tried m = (stored', tried', nodes')"
        using less.prems(1) False c p True by (simp add: upload_loop.simps [of put n now k remaining])
      have "0 < length (filter accepts remaining)"
        using rem True length_pos_if_in_set [of c "filter accepts remaining"] by simp
      with less.hyps [OF shorter(1) rec] False shorter(2) True
      have IH: "length stored' = min k (length stored + length (filter accepts remaining))"
        "\<exists>cs. stored' = stored @ map sc_id (c # cs) \<and> set cs \<subseteq> set (filter accepts (remove1 c remaining))
           \<and> (distinct (remove1 c remaining) \<longrightarrow> distinct cs)"
        "\<exists>cs. tried' = tried @ map sc_id cs \<and> (\<forall>c' \<in> set cs. c' \<in> set (remove1 c remaining) \<and> \<not> accepts c')"
        by auto
      from IH(2) obtain cs where "stored' = stored @ map sc_id (c # cs)" "set cs \<subseteq> set (filter accepts (remove1 c remaining))"
        "distinct (remove1 c remaining) \<longrightarrow> distinct cs" by blast
      then have "stored' = stored @ map sc_id (c # cs) \<and> set (c # cs) \<subseteq> set (filter accepts remaining)
          \<and> (distinct remaining \<longrightarrow> distinct (c # cs))"
        using sub rem True by (auto simp: distinct_remove1)
      with IH(1,3) sub show ?thesis by blast
    next
      case fail: False
      have rec: "upload_loop put n now k (remove1 c remaining) stored (tried @ [sc_id c]) m = (stored', tried', nodes')"
        using less.prems(1) False c p fail by (simp add: upload_loop.simps [of put n now k remaining])
      from less.hyps [OF shorter(1) rec less.prems(2)] shorter(2) fail
      have IH: "length stored' = min k (length stored + length (filter accepts remaining))"
        "\<exists>cs. stored' = stored @ map sc_id cs \<and> set cs \<subseteq> set (filter accepts (remove1 c remaining))
           \<and> (distinct (remove1 c remaining) \<longrightarrow> distinct cs)"
        "\<exists>cs. tried' = tried @ map sc_id (c # cs) \<and> (\<forall>c' \<in> set cs. c' \<in> set (remove1 c remaining) \<and> \<not> accepts c')"
        by auto
      from IH(2) obtain cs where "stored' = stored @ map sc_id cs" "set cs \<subseteq> set (filter accepts (remove1 c remaining))"
        "distinct (remove1 c remaining) \<longrightarrow> distinct cs" by blast
      then have "stored' = stored @ map sc_id cs \<and> set cs \<subseteq> set (filter accepts remaining)
          \<and> (distinct remaining \<longrightarrow> distinct cs)"
        using sub distinct_remove1 [of remaining c] by auto
      moreover from IH(3) obtain cs where "tried' = tried @ map sc_id (c # cs)"
        "\<forall>c' \<in> set (c # cs). c' \<in> set remaining \<and> \<not> accepts c'"
        using sub rem fail by auto
      ultimately show ?thesis using IH(1) by blast
    qed
  qed
qed

section \<open>Properties\<close>

text \<open>
  The placement hash is the 64-bit FNV-1a hash: the big-integer computation with masking
  equals the computation on 64-bit words with wrap-around, so it is below \<open>2^64\<close>.
\<close>

theorem fnv1a_is_64_bit:
  "fnv1a s = uint (fnv1a_word s) \<and> 0 \<le> fnv1a s \<and> fnv1a s < 2 ^ 64"
proof -
  have "uint (fnv1a_word s) < 2 ^ 64"
    using uint_lt2p [of "fnv1a_word s"] by simp
  then show ?thesis by (simp add: fnv1a_eq_word)
qed

text \<open>
  C25. The chosen provider does not depend on the order of the roster: two rosters with the
  same providers (distinct ids) in any order give the same provider for a pubkey and an hour,
  and it is one of them.
\<close>

theorem selectOwner_roster_order:
  assumes "mset cs = mset cs'" and "distinct (map sc_id cs)" and "cs \<noteq> []"
    and "now div TIME_SLOT_MS = now' div TIME_SLOT_MS"
  shows "\<exists>c \<in> set cs. selectOwner n cs now = Some c \<and> selectOwner n cs' now' = Some c"
proof -
  have "sort_key sc_id cs = sort_key sc_id cs'"
    using assms(1,2) by (intro sort_key_inj_key_eq) (simp_all add: distinct_map)
  moreover have "cs' \<noteq> []" using assms(1,3) by auto
  ultimately have "selectOwner n cs now = selectOwner n cs' now'"
    using assms(3,4) by (simp add: selectOwner_def Let_def)
  moreover obtain c where "selectOwner n cs now = Some c"
    using assms(3) by (auto simp: selectOwner_def Let_def)
  ultimately show ?thesis using selectOwner_in by metis
qed

theorem selectOwner_roster_order_witness:
  "\<exists>c \<in> set [\<lparr>sc_id = ''a'', sc_url = ''u''\<rparr>, \<lparr>sc_id = ''b'', sc_url = ''v''\<rparr>].
     selectOwner ''n'' [\<lparr>sc_id = ''a'', sc_url = ''u''\<rparr>, \<lparr>sc_id = ''b'', sc_url = ''v''\<rparr>] 5 = Some c
     \<and> selectOwner ''n'' [\<lparr>sc_id = ''b'', sc_url = ''v''\<rparr>, \<lparr>sc_id = ''a'', sc_url = ''u''\<rparr>] 3599999 = Some c"
  by (rule selectOwner_roster_order) (simp_all add: TIME_SLOT_MS_def add_mset_commute)

text \<open>
  C26. Replication: with distinct provider ids and at least one replica wanted, an upload
  succeeds exactly if some provider accepts the blob, and then the recorded replicas are
  distinct accepting providers, as many as wanted or as many as accept, whichever is less.
\<close>

theorem uploadBlob_replication:
  assumes "\<And>c nodes. fst (put c nodes) = accepts c" and "distinct (map sc_id cs)" and "1 \<le> k"
  shows "(\<exists>replicas. fst (uploadBlob put n now k cs nodes) = Inr replicas \<and> distinct replicas
        \<and> set replicas \<subseteq> sc_id ` {c \<in> set cs. accepts c}
        \<and> length replicas = min k (length (filter accepts cs)) \<and> replicas \<noteq> [])
    \<or> (\<forall>c \<in> set cs. \<not> accepts c) \<and> isl (fst (uploadBlob put n now k cs nodes))"
proof -
  obtain stored tried nodes' where u: "upload_loop put n now k cs [] [] nodes = (stored, tried, nodes')"
    by (metis prod_cases3)
  from upload_loop_count [OF u assms(1)]
  have len: "length stored = min k (length (filter accepts cs))"
    and "\<exists>ds. stored = map sc_id ds \<and> set ds \<subseteq> set (filter accepts cs) \<and> (distinct cs \<longrightarrow> distinct ds)"
    by auto
  then obtain ds where ds: "stored = map sc_id ds" "set ds \<subseteq> set (filter accepts cs)" "distinct ds"
    using assms(2) by (auto simp: distinct_map)
  have "distinct stored"
    using ds assms(2) by (auto simp: distinct_map intro: inj_on_subset)
  moreover have "set stored \<subseteq> sc_id ` {c \<in> set cs. accepts c}"
    using ds by auto
  moreover have "stored = [] \<longleftrightarrow> (\<forall>c \<in> set cs. \<not> accepts c)"
    using len assms(3) by (auto simp: filter_empty_conv min_def split: if_splits)
  ultimately show ?thesis
    using u len by (auto simp: uploadBlob_def)
qed

theorem uploadBlob_replication_witness:
  "\<exists>replicas. fst (uploadBlob (\<lambda>c nodes. (sc_id c \<noteq> ''b'', nodes)) ''n'' 5 2
       [\<lparr>sc_id = ''a'', sc_url = ''u''\<rparr>, \<lparr>sc_id = ''b'', sc_url = ''v''\<rparr>] ()) = Inr replicas \<and> length replicas = 1"
  using uploadBlob_replication [of "\<lambda>c nodes. (sc_id c \<noteq> ''b'', nodes)" "\<lambda>c. sc_id c \<noteq> ''b''"
      "[\<lparr>sc_id = ''a'', sc_url = ''u''\<rparr>, \<lparr>sc_id = ''b'', sc_url = ''v''\<rparr>]" 2 "''n''" 5 "()"]
  by auto

end
