(* ===== verification/DbApi_Props.thy ===== *)
theory DbApi_Props
  imports DbApi_Inv
begin

text \<open>
  What the data service promises its clients: exact accounting in every reachable state,
  quotas kept by any sequence of uploads and deletions, payments that count once, the exact
  effect of a deletion, uploads undone by deletions, and complete page walks.
\<close>

section \<open>Quotas\<close>

text \<open>Transactions between two entitlement writes; uploads have a non-negative size.\<close>

inductive quota_step :: "db \<Rightarrow> db \<Rightarrow> bool" where
  quota_post: "bigint_of_json sz = Some s \<Longrightarrow> 0 \<le> s \<Longrightarrow> quota_step d (snd (postBlob now h n sz rs d))"
| quota_delete: "quota_step d (snd (deleteBlob h no all d))"
| quota_purge: "quota_step d (snd (deleteUserBlobs n d))"

definition quota_inv :: "db \<Rightarrow> bool" where
  "quota_inv d \<longleftrightarrow> db_ok d \<and> sizes_ok d \<and> within_quota d"

text \<open>Losing rows keeps the quotas when allowances stay.\<close>

lemma sum_where_filter_le:
  "(\<And>r. r \<in> set t \<Longrightarrow> 0 \<le> val r) \<Longrightarrow> sum_where val P (filter Q t) \<le> sum_where val P t"
  by (induction t) (auto simp: add_increasing)

definition same_allowances :: "db \<Rightarrow> db \<Rightarrow> bool" where
  "same_allowances d d' \<longleftrightarrow>
     (\<forall>n. map_option u_storageBytes (find_user d' n) = map_option u_storageBytes (find_user d n))"

lemma within_quota_iff:
  assumes "db_ok d"
  shows "within_quota d \<longleftrightarrow>
    (\<forall>n a. map_option u_storageBytes (find_user d n) = Some (Some a) \<longrightarrow> used_by d n \<le> a)"
proof
  assume w: "within_quota d"
  show "\<forall>n a. map_option u_storageBytes (find_user d n) = Some (Some a) \<longrightarrow> used_by d n \<le> a"
    using w find_user_used [OF assms] by (fastforce simp: within_quota_def dest: find_row_SomeD)
next
  assume r: "\<forall>n a. map_option u_storageBytes (find_user d n) = Some (Some a) \<longrightarrow> used_by d n \<le> a"
  have "u_usedStorage u \<le> a" if "u \<in> set (users d)" "u_storageBytes u = Some a" for u a
    using r that find_row_unique [OF db_okD(1) [OF assms] that(1)] db_okD(5) [OF assms that(1)] by simp
  then show "within_quota d"
    by (auto simp: within_quota_def split: option.split)
qed

lemma shrink_quota:
  assumes inv: "quota_inv d" and ok: "db_ok d'" and bl: "blobs d' = filter Q (blobs d)"
    and same: "same_allowances d d'"
  shows "quota_inv d'"
proof -
  have less: "used_by d' n \<le> used_by d n" for n
    using inv unfolding used_by_def bl
    by (intro sum_where_filter_le) (auto simp: quota_inv_def sizes_ok_def)
  have ok0: "db_ok d" and w: "within_quota d" using inv by (simp_all add: quota_inv_def)
  have "used_by d' n \<le> a" if "map_option u_storageBytes (find_user d' n) = Some (Some a)" for n a
  proof -
    from that same have "map_option u_storageBytes (find_user d n) = Some (Some a)"
      unfolding same_allowances_def by metis
    with w have "used_by d n \<le> a" unfolding within_quota_iff [OF ok0] by blast
    with less [of n] show ?thesis by (rule order_trans)
  qed
  then have "within_quota d'" unfolding within_quota_iff [OF ok] by blast
  with inv ok bl show ?thesis
    by (auto simp: quota_inv_def sizes_ok_def)
qed

lemma same_entitlements_allowances: "same_entitlements d d' \<Longrightarrow> same_allowances d d'"
  unfolding same_allowances_def
proof
  fix n
  assume "same_entitlements d d'"
  then have "map_option (\<lambda>u. u\<lparr>u_usedStorage := 0\<rparr>) (find_user d' n) = map_option (\<lambda>u. u\<lparr>u_usedStorage := 0\<rparr>) (find_user d n)"
    by (simp add: same_entitlements_def)
  from arg_cong [OF this, of "map_option u_storageBytes"]
  show "map_option u_storageBytes (find_user d' n) = map_option u_storageBytes (find_user d n)"
    by (simp add: option.map_comp comp_def)
qed

lemma quota_inv_delete:
  assumes "quota_inv d"
  shows "quota_inv (snd (deleteBlob h no all d))"
proof (cases "fst (deleteBlob h no all d)")
  case (Success st r)
  then have del: "deleteBlob h no all d = (Success st r, snd (deleteBlob h no all d))"
    by (simp add: prod_eq_iff)
  have ok: "db_ok d" using assms by (simp add: quota_inv_def)
  show ?thesis
    using deleteBlob_blobs [OF ok del] assms same_entitlements_allowances
    by (blast intro: shrink_quota)
next
  case (Failure st c)
  then have "deleteBlob h no all d = (Failure st c, snd (deleteBlob h no all d))"
    by (simp add: prod_eq_iff)
  from deleteBlob_failure [OF this] assms show ?thesis by simp
qed

lemma quota_inv_purge:
  assumes "quota_inv d"
  shows "quota_inv (snd (deleteUserBlobs n d))"
proof (rule shrink_quota [OF assms])
  have ok: "db_ok d" using assms by (simp add: quota_inv_def)
  show "db_ok (snd (deleteUserBlobs n d))"
    by (rule deleteUserBlobs_ok [OF ok])
  show "blobs (snd (deleteUserBlobs n d)) = filter (\<lambda>b. b_npub b \<noteq> n) (blobs d)"
    by (simp add: deleteUserBlobs_state [OF ok])
  show "same_allowances d (snd (deleteUserBlobs n d))"
    by (auto simp: deleteUserBlobs_state [OF ok] same_allowances_def find_row_update
        option.map_comp comp_def)
qed

lemma quota_inv_post:
  assumes inv: "quota_inv d" and sz: "bigint_of_json sz = Some s" "0 \<le> s"
  shows "quota_inv (snd (postBlob now h n sz rs d))"
proof (cases "fst (postBlob now h n sz rs d)")
  case (Success st x)
  let ?d = "snd (postBlob now h n sz rs d)"
  have ok: "db_ok d" "sizes_ok d" "within_quota d" using inv by (simp_all add: quota_inv_def)
  from Success have "postBlob now h n sz rs d = (Success st x, ?d)"
    by (simp add: prod_eq_iff)
  from postBlob_success [OF this] obtain u s' b where s': "bigint_of_json sz = Some s'"
    and u: "find_user d n = Some u"
    and fits: "\<forall>a. u_storageBytes u = Some a \<longrightarrow> u_usedStorage u + s' \<le> a"
    and b: "b = \<lparr>b_hash = h, b_npub = n, b_size = s', b_replicas = rs, b_createdAt = now\<rparr>"
    and d': "?d = add_blob b d"
    by blast
  have [simp]: "s' = s" using s' sz(1) by simp
  have ok': "db_ok ?d" by (rule postBlob_ok [OF ok(1)])
  have "used_by ?d m \<le> a" if m: "map_option u_storageBytes (find_user ?d m) = Some (Some a)" for m a
  proof (cases "m = n")
    case True
    with m u b fits find_user_used [OF ok(1) u] show ?thesis
      by (simp add: d' used_by_add_blob find_user_add_blob)
  next
    case False
    with m b ok(3) show ?thesis
      by (simp add: d' used_by_add_blob find_user_add_blob within_quota_iff [OF ok(1)])
  qed
  then have "within_quota ?d" unfolding within_quota_iff [OF ok'] by blast
  moreover have "sizes_ok ?d"
    using ok(2) sz(2) b by (auto simp: d' sizes_ok_def add_blob_def)
  ultimately show ?thesis using ok' by (simp add: quota_inv_def)
next
  case (Failure st c)
  then have "postBlob now h n sz rs d = (Failure st c, snd (postBlob now h n sz rs d))"
    by (simp add: prod_eq_iff)
  from postBlob_failure [OF this] inv show ?thesis by simp
qed

interpretation quota: invariant_system quota_inv quota_step quota_inv
  by unfold_locales
    (auto elim!: quota_step.cases intro: quota_inv_post quota_inv_delete quota_inv_purge)

section \<open>Payments\<close>

lemma grants_grow: "db_step d d' \<Longrightarrow> db_ok d \<Longrightarrow> \<exists>gs. grants d' = grants d @ gs"
proof (induction rule: db_step.induct)
  case (step_postBlob d now h n sz rs)
  show ?case by (auto simp: postBlob_def Let_def add_blob_def split: option.split)
next
  case (step_deleteBlob d h no all)
  show ?case
  proof (cases "fst (deleteBlob h no all d)")
    case (Success st r)
    then have "deleteBlob h no all d = (Success st r, snd (deleteBlob h no all d))"
      by (simp add: prod_eq_iff)
    from deleteBlob_blobs [OF step_deleteBlob this] show ?thesis
      by (simp add: same_entitlements_def)
  next
    case (Failure st c)
    then have "deleteBlob h no all d = (Failure st c, snd (deleteBlob h no all d))"
      by (simp add: prod_eq_iff)
    from deleteBlob_failure [OF this] show ?thesis by simp
  qed
next
  case (step_postEntitlement d dp now n body)
  show ?case
    using postEntitlement_cases [of dp body now n d] entitlement_tx_spec [OF step_postEntitlement]
    by fastforce
next
  case (step_deleteUserBlobs d n)
  then show ?case by (simp add: deleteUserBlobs_state)
qed (use side_tables in \<open>simp_all add: same_ledger_def\<close>)

lemma grants_kept:
  assumes "db_step\<^sup>*\<^sup>* d e" and "db_ok d" and "find_row g_paymentHash h (grants d) = Some g"
  shows "db_ok e \<and> find_row g_paymentHash h (grants e) = Some g"
  using assms
proof (induction rule: rtranclp_induct)
  case (step e f)
  then have e: "db_ok e" "find_row g_paymentHash h (grants e) = Some g" by auto
  obtain gs where "grants f = grants e @ gs"
    using grants_grow [OF step.hyps(2) e(1)] by blast
  with e(2) db_step_ok [OF step.hyps(2) e(1)] show ?case
    by (simp add: find_row_append)
qed simp

lemma claimed_tx:
  "db_ok d \<Longrightarrow> paymentHash r = Some h \<Longrightarrow> find_row g_paymentHash h (grants d) = Some g \<Longrightarrow>
     entitlement_tx dp now n r d = Inl (TxPrisma P2002)"
  using upsert_user_spec [of now n d]
  by (cases "upsert_user now n d") (simp add: entitlement_tx_def claim_grant_def)

lemma postEntitlement_claimed:
  assumes ok: "db_ok d" and body: "parseEntitlementRequest dp body = Inr r" "paymentHash r = Some h"
    and g: "find_row g_paymentHash h (grants d) = Some g"
  shows "postEntitlement dp now n body d =
    (if g_npub g = n then Success 200 (the (find_user d n))
     else Failure 409 ''payment_hash_used_by_other_user'', d)"
proof -
  have "find_user d (g_npub g) \<noteq> None"
    using db_okD(7) [OF ok] find_row_SomeD [OF g] by (simp add: find_row_None_iff)
  with g body claimed_tx [OF ok body(2) g] show ?thesis
    by (auto simp: postEntitlement_def)
qed

lemma postEntitlement_claims:
  assumes ok: "db_ok d" and body: "parseEntitlementRequest dp body = Inr r" "paymentHash r = Some h"
    and post: "postEntitlement dp now n body d = (Success st u, d')"
  shows "\<exists>g. find_row g_paymentHash h (grants d') = Some g \<and> g_npub g = n"
proof (cases "find_row g_paymentHash h (grants d)")
  case (Some g)
  with post postEntitlement_claimed [OF ok body Some, of now n] show ?thesis
    by (auto split: if_splits)
next
  case None
  obtain u0 d1 where up: "upsert_user now n d = (u0, d1)" by fastforce
  have "grants d1 = grants d" using upsert_user_spec [OF up ok] by simp
  then have "entitlement_tx dp now n r d \<noteq> Inl (TxPrisma P2002)"
    using None body(2)
    by (auto simp: entitlement_tx_def up claim_grant_def split: sum.split option.split)
  with post body have tx: "entitlement_tx dp now n r d = Inr (u, d')"
    by (auto simp: postEntitlement_def
        split: sum.splits EntitlementError.splits tx_error.splits prisma_error.splits)
  from entitlement_tx_spec [OF ok this] None body(2) show ?thesis
    by (simp add: find_row_append)
qed

section \<open>Deletion\<close>

lemma filter_key_unique:
  "distinct (map key t) \<Longrightarrow> find_row key k t = Some r \<Longrightarrow> filter (\<lambda>x. key x = k) t = [r]"
  by (induction t) (auto simp: filter_empty_conv image_iff split: if_splits)

lemma deleteBlob_one:
  assumes ok: "db_ok d" and n: "n \<noteq> []" and b: "find_blob d h n = Some b" and u: "find_user d n = Some u"
    and range: "in_int8 (u_usedStorage u - b_size b)"
  shows "deleteBlob h (Some n) False d =
    (Success 200 \<lparr>dr_usedStorage = u_usedStorage u - b_size b,
       dr_remainingOwners = length (filter (\<lambda>b. b_hash b = h) (blobs (drop_blob b d)))\<rparr>, drop_blob b d)"
proof -
  have bk: "blob_key b = (h, n)" "b \<in> set (blobs d)" using find_row_SomeD [OF b] by simp_all
  have "filter (\<lambda>x. b_hash x = h \<and> b_npub x = n) (blobs d) = [b]"
    using filter_key_unique [OF db_okD(2) [OF ok] b] by (simp add: blob_key_def)
  then show ?thesis
    using n b u range bk by (simp add: deleteBlob_def blob_key_def)
qed

lemma delete_in_range:
  assumes ok: "db_ok d" "sizes_ok d" and b: "b \<in> set (blobs d)" and u: "find_user d (b_npub b) = Some u"
  shows "in_int8 (u_usedStorage u - b_size b)"
proof -
  have used: "u_usedStorage u = used_by d (b_npub b)" using find_user_used [OF ok(1) u] by simp
  have "0 \<le> used_by (drop_blob b d) (b_npub b)"
    unfolding used_by_def using ok(2) by (intro sum_where_nonneg) (auto simp: drop_blob_def sizes_ok_def)
  then have "0 \<le> used_by d (b_npub b) - b_size b"
    using used_by_drop_blob [OF ok(1) b, of "b_npub b"] by simp
  moreover have "in_int8 (used_by d (b_npub b))"
    using db_okD(6) [OF ok(1), of u] find_row_SomeD [OF u] unfolding used by blast
  moreover have "0 \<le> b_size b"
    using ok(2) b by (simp add: sizes_ok_def)
  ultimately show ?thesis
    using used by (simp add: in_int8_def)
qed

lemma owner_exists:
  assumes "db_ok d" and "b \<in> set (blobs d)"
  shows "\<exists>u. find_user d (b_npub b) = Some u"
  using db_okD(4) [OF assms] find_row_None_iff [of u_npub "b_npub b" "users d"] by (auto simp: image_iff)

section \<open>Pages\<close>

text \<open>The query of a client that walks the pages of a list.\<close>

definition page_query :: "nat \<Rightarrow> nat \<Rightarrow> string \<Rightarrow> json option" where
  "page_query p ps k =
     (if k = ''page'' then Some (JStr (show_nat p))
      else if k = ''pageSize'' then Some (JStr (show_nat ps)) else None)"

lemma parsePagination_query:
  "1 \<le> p \<Longrightarrow> 1 \<le> ps \<Longrightarrow> ps \<le> MAX_PAGE_SIZE \<Longrightarrow>
     parsePagination (page_query p ps) = \<lparr>pg_page = p, pg_pageSize = ps, pg_skip = (p - 1) * ps, pg_take = ps\<rparr>"
  by (simp add: parsePagination_def page_query_def parse_digits_def show_nat_value Let_def)

lemma page_walk_take: "concat (map (\<lambda>p. page_rows (p * ps) ps xs) [0..<k]) = take (k * ps) xs"
proof (induction k)
  case (Suc k)
  then show ?case
    by (simp add: page_rows_def take_add [symmetric] add.commute)
qed (simp add: page_rows_def)

lemma find_page_walk:
  assumes "1 \<le> ps" and "ps \<le> MAX_PAGE_SIZE" and "length (filter P t) \<le> k * ps"
  shows "concat (map (\<lambda>p. items (find_page P ord (parsePagination (page_query (Suc p) ps)) t)) [0..<k])
    = sort_key ord (filter P t)"
proof -
  have "items (find_page P ord (parsePagination (page_query (Suc p) ps)) t)
      = page_rows (p * ps) ps (sort_key ord (filter P t))" for p
    using assms(1,2) by (simp add: parsePagination_query find_page_def paginated_def Let_def)
  then show ?thesis
    using page_walk_take [of ps "sort_key ord (filter P t)" k] assms(3) by simp
qed

section \<open>A concrete history\<close>

definition sample_user :: User where
  "sample_user = \<lparr>u_npub = ''npub1a'', u_planExpiresAt = Some (9000 + 30 * DAY_MS),
     u_storageBytes = Some 1024, u_usedStorage = 0, u_createdAt = 9000\<rparr>"

definition sample_db :: db where
  "sample_db = empty_db\<lparr>users := [sample_user],
     grants := [\<lparr>g_paymentHash = replicate 64 CHR ''a'', g_npub = ''npub1a'', g_createdAt = 9000\<rparr>]\<rparr>"

definition sample_blob :: Blob where
  "sample_blob = \<lparr>b_hash = ''h1'', b_npub = ''npub1a'', b_size = 100, b_replicas = [''http://a''], b_createdAt = 9001\<rparr>"

lemma sample_grant:
  "postEntitlement (\<lambda>_. None) 9000 ''npub1a'' (Some sample_body) empty_db = (Success 200 sample_user, sample_db)"
  unfolding postEntitlement_def sample_parse
  by (simp add: entitlement_tx_def empty_db_def upsert_user_def claim_grant_def Let_def
      computeEntitlement_def is_live_def user_entitlement_def sample_request_def js_defs
      set_entitlement_def update_row_def in_int8_def sample_user_def sample_db_def)

lemma sample_size: "bigint_of_json (JNum (Num 100)) = Some 100"
  by code_simp

lemma sample_upload:
  "postBlob 9001 ''h1'' ''npub1a'' (JNum (Num 100)) [''http://a''] sample_db
     = (Success 201 (sample_blob, 100), add_blob sample_blob sample_db)"
  unfolding postBlob_def sample_size
  by (simp add: sample_db_def sample_user_def sample_blob_def empty_db_def in_int8_def Let_def)

lemma sample_reached:
  "db_step\<^sup>*\<^sup>* empty_db sample_db" "db_step\<^sup>*\<^sup>* empty_db (add_blob sample_blob sample_db)"
proof -
  have one: "db_step empty_db sample_db"
    using step_postEntitlement [of empty_db "\<lambda>_. None" 9000 "''npub1a''" "Some sample_body"]
    by (simp add: sample_grant)
  moreover have "db_step sample_db (add_blob sample_blob sample_db)"
    using step_postBlob [of sample_db 9001 "''h1''" "''npub1a''" "JNum (Num 100)" "[''http://a'']"]
    by (simp add: sample_upload)
  ultimately show "db_step\<^sup>*\<^sup>* empty_db sample_db" "db_step\<^sup>*\<^sup>* empty_db (add_blob sample_blob sample_db)"
    by auto
qed

lemmas sample_ok = ledger.reachable_inv [OF refl sample_reached(1)] ledger.reachable_inv [OF refl sample_reached(2)]

lemmas sample_defs = sample_db_def sample_user_def sample_blob_def empty_db_def add_blob_def update_row_def

section \<open>Properties\<close>

text \<open>
  C1. Accounting: in every state reachable from the empty database by any sequence of
  transactions of any callers, the recorded usage of each user is the sum of the sizes of
  the blob rows they own, every blob row belongs to a user row, and users, (hash, owner)
  pairs and payment hashes are unique.
\<close>

theorem usage_is_sum_of_blobs:
  assumes "db_step\<^sup>*\<^sup>* empty_db d"
  shows "(\<forall>u \<in> set (users d).
            u_usedStorage u = sum_list (map b_size (filter (\<lambda>b. b_npub b = u_npub u) (blobs d))))
    \<and> (\<forall>b \<in> set (blobs d). \<exists>u \<in> set (users d). u_npub u = b_npub b)
    \<and> distinct (map u_npub (users d)) \<and> distinct (map (\<lambda>b. (b_hash b, b_npub b)) (blobs d))
    \<and> distinct (map g_paymentHash (grants d))"
proof -
  note ok = ledger.reachable_inv [OF refl assms]
  have "(\<lambda>b. (b_hash b, b_npub b)) = blob_key"
    by (simp add: fun_eq_iff blob_key_def)
  then show ?thesis
    using db_okD(1-3) [OF ok] db_okD(4,5) [OF ok] by (fastforce simp: used_by_def sum_where_def)
qed

theorem usage_is_sum_of_blobs_witness:
  "map u_usedStorage (users (add_blob sample_blob sample_db)) =
     map (\<lambda>u. sum_list (map b_size (filter (\<lambda>b. b_npub b = u_npub u) (blobs (add_blob sample_blob sample_db)))))
       (users (add_blob sample_blob sample_db))
   \<and> map u_usedStorage (users (add_blob sample_blob sample_db)) = [100]"
  using usage_is_sum_of_blobs [OF sample_reached(2)] by (simp add: sample_defs)



text \<open>
  C3. A payment counts once: once a request with a payment hash has been answered with
  success for a user, then after any further transactions every request with this hash
  leaves the database unchanged; the same user gets their current row, another user a 409.
\<close>

theorem payment_applied_once:
  assumes "db_ok d" and "parseEntitlementRequest dp body = Inr r" and "paymentHash r = Some h"
    and "postEntitlement dp now n body d = (Success st u, d')" and "db_step\<^sup>*\<^sup>* d' e"
    and "parseEntitlementRequest dp' body' = Inr r'" and "paymentHash r' = Some h"
  shows "postEntitlement dp' now' m body' e =
    (if m = n then Success 200 (the (find_user e n))
     else Failure 409 ''payment_hash_used_by_other_user'', e)"
proof -
  obtain g where g: "find_row g_paymentHash h (grants d') = Some g" "g_npub g = n"
    using postEntitlement_claims [OF assms(1-4)] by blast
  have "db_ok d'"
    using postEntitlement_ok [OF assms(1), of dp now n body] assms(4) by simp
  with grants_kept [OF assms(5)] g(1) have e: "db_ok e" "find_row g_paymentHash h (grants e) = Some g"
    by auto
  show ?thesis
    using postEntitlement_claimed [OF e(1) assms(6,7) e(2), of now' m] g(2) by auto
qed

theorem payment_applied_once_witness:
  "postEntitlement (\<lambda>_. None) 9000 ''npub1a'' (Some sample_body) empty_db = (Success 200 sample_user, sample_db)
   \<and> postEntitlement (\<lambda>_. None) 9500 ''npub1a'' (Some sample_body) (add_blob sample_blob sample_db)
       = (Success 200 (sample_user\<lparr>u_usedStorage := 100\<rparr>), add_blob sample_blob sample_db)"
proof -
  have h: "paymentHash sample_request = Some (replicate 64 CHR ''a'')"
    by (simp add: sample_request_def)
  have "db_step sample_db (add_blob sample_blob sample_db)"
    using step_postBlob [of sample_db 9001 "''h1''" "''npub1a''" "JNum (Num 100)" "[''http://a'']"]
    by (simp add: sample_upload)
  then have step: "db_step\<^sup>*\<^sup>* sample_db (add_blob sample_blob sample_db)" by auto
  have u: "find_user (add_blob sample_blob sample_db) ''npub1a'' = Some (sample_user\<lparr>u_usedStorage := 100\<rparr>)"
    by (simp add: sample_defs)
  from payment_applied_once [OF empty_db_ok sample_parse h sample_grant step sample_parse h,
      of "\<lambda>_. None" 9500 "''npub1a''"]
  show ?thesis by (simp add: sample_grant u)
qed

text \<open>
  C7. Deleting one reference: in a consistent database with non-negative sizes, deleting
  the row of an owner succeeds, removes exactly this row, gives exactly its size back to
  this owner and changes no other user, and reports how many owners the hash still has; so
  zero is reported exactly when no row with this hash is left.
\<close>

theorem deleteBlob_exact:
  assumes "db_ok d" and "sizes_ok d" and "n \<noteq> []" and "find_blob d h n = Some b"
  shows "\<exists>k d'. deleteBlob h (Some n) False d =
        (Success 200 \<lparr>dr_usedStorage = used_by d n - b_size b, dr_remainingOwners = k\<rparr>, d')
    \<and> blobs d' = filter (\<lambda>x. \<not> (b_hash x = h \<and> b_npub x = n)) (blobs d)
    \<and> find_user d' n = map_option (\<lambda>u. u\<lparr>u_usedStorage := used_by d n - b_size b\<rparr>) (find_user d n)
    \<and> (\<forall>m. m \<noteq> n \<longrightarrow> find_user d' m = find_user d m)
    \<and> Suc k = length (filter (\<lambda>x. b_hash x = h) (blobs d))
    \<and> (k = 0 \<longleftrightarrow> (\<forall>x \<in> set (blobs d'). b_hash x \<noteq> h))"
proof -
  have b: "b \<in> set (blobs d)" "blob_key b = (h, n)" using find_row_SomeD [OF assms(4)] by simp_all
  then have bn: "b_npub b = n" "b_hash b = h" by (simp_all add: blob_key_def)
  obtain u where u: "find_user d n = Some u" using owner_exists [OF assms(1) b(1)] bn by auto
  have used: "u_usedStorage u = used_by d n" using find_user_used [OF assms(1) u] by simp
  have range: "in_int8 (u_usedStorage u - b_size b)" by (rule delete_in_range [OF assms(1,2) b(1)]) (simp add: bn u)
  have len: "length (filter (\<lambda>x. b_hash x = h) (blobs d)) = Suc (length (filter (\<lambda>x. b_hash x = h) (blobs (drop_blob b d))))"
    using length_filter_delete [OF db_okD(2) [OF assms(1)] b(1), of "\<lambda>x. b_hash x = h"] bn
    by (simp add: drop_blob_def)
  have bl: "blobs (drop_blob b d) = filter (\<lambda>x. \<not> (b_hash x = h \<and> b_npub x = n)) (blobs d)"
    using b(2) by (simp add: drop_blob_def delete_row_def blob_key_def)
  show ?thesis
    using deleteBlob_one [OF assms(1,3,4) u range] len u used bn
    by (intro exI [of _ "length (filter (\<lambda>x. b_hash x = h) (blobs (drop_blob b d)))"] exI [of _ "drop_blob b d"])
      (auto simp: bl find_user_drop_blob filter_empty_conv)
qed

theorem deleteBlob_exact_witness:
  "find_blob (add_blob sample_blob sample_db) ''h1'' ''npub1a'' = Some sample_blob
   \<and> (\<exists>d'. deleteBlob ''h1'' (Some ''npub1a'') False (add_blob sample_blob sample_db) =
        (Success 200 \<lparr>dr_usedStorage = 0, dr_remainingOwners = 0\<rparr>, d') \<and> blobs d' = [])"
proof -
  have s: "sizes_ok (add_blob sample_blob sample_db)"
    by (simp add: sizes_ok_def sample_defs)
  have b: "find_blob (add_blob sample_blob sample_db) ''h1'' ''npub1a'' = Some sample_blob"
    by (simp add: sample_defs blob_key_def)
  have "used_by (add_blob sample_blob sample_db) ''npub1a'' = 100"
    by (simp add: used_by_def sample_defs)
  with deleteBlob_exact [OF sample_ok(2) s _ b] b show ?thesis
    by (auto simp: sample_defs)
qed

text \<open>
  C8. Uploads are undone by deletions: registering a blob and then deleting the reference
  restores the database exactly, every table included.
\<close>

theorem post_then_delete:
  assumes "db_ok d" and "n \<noteq> []" and "postBlob now h n sz rs d = (Success st (b, used), d')"
  shows "\<exists>k. deleteBlob h (Some n) False d' =
    (Success 200 \<lparr>dr_usedStorage = used - b_size b, dr_remainingOwners = k\<rparr>, d)"
proof -
  from postBlob_success [OF assms(3)] obtain u s where u: "find_user d n = Some u"
    and fresh: "find_blob d h n = None" and s: "in_int8 (u_usedStorage u + s)"
    and b: "b = \<lparr>b_hash = h, b_npub = n, b_size = s, b_replicas = rs, b_createdAt = now\<rparr>"
    and used: "used = u_usedStorage u + s" and d': "d' = add_blob b d"
    by blast
  have ok': "db_ok d'" using postBlob_ok [OF assms(1), of now h n sz rs] assms(3) by simp
  have b': "find_blob d' h n = Some b"
    using fresh by (simp add: d' add_blob_def find_row_append b blob_key_def)
  have u': "find_user d' n = Some (u\<lparr>u_usedStorage := u_usedStorage u + s\<rparr>)"
    using u by (simp add: d' find_user_add_blob b)
  have range: "in_int8 (u_usedStorage u)"
    using db_okD(6) [OF assms(1)] find_row_SomeD [OF u] by blast
  have "(h, n) \<notin> blob_key ` set (blobs d)" using fresh by (simp add: find_row_None_iff)
  then have bl: "delete_row blob_key (h, n) (blobs d @ [b]) = blobs d"
    using delete_row_absent [of "(h, n)" blob_key "blobs d"] by (simp add: delete_row_def b blob_key_def)
  have "update_row u_npub n (\<lambda>u. u\<lparr>u_usedStorage := u_usedStorage u - s\<rparr>)
      (update_row u_npub n (\<lambda>u. u\<lparr>u_usedStorage := u_usedStorage u + s\<rparr>) (users d)) = users d"
    by (simp add: update_row_def comp_def map_idI)
  with bl have "drop_blob b d' = d"
    by (simp add: d' drop_blob_def add_blob_def b blob_key_def)
  with deleteBlob_one [OF ok' assms(2) b' u'] range show ?thesis
    by (simp add: used b)
qed

theorem post_then_delete_witness:
  "\<exists>k. deleteBlob ''h1'' (Some ''npub1a'') False (add_blob sample_blob sample_db) =
    (Success 200 \<lparr>dr_usedStorage = 0, dr_remainingOwners = k\<rparr>, sample_db)"
  using post_then_delete [OF sample_ok(1) _ sample_upload] by (simp add: sample_blob_def)



end
