(* ===== verification/Proxy.thy ===== *)
theory Proxy
  imports Placement DbApi_Props
begin

text \<open>
  The handlers of the public proxy, \<open>proxy/blossom/src/index.ts\<close>, over the client of the data
  service (\<open>packages/db-client/src/client.ts\<close>) and the storage nodes. A handler is a function
  from the state of the system to a response and the state afterwards; its remote calls are
  made one after the other, and an argument decides the fate of each call: it works, its
  effect happens but the answer is lost, it never arrives, or the gate rejects it.
\<close>

section \<open>State and remote calls\<close>

record proxy =
  px_db :: db
  px_cache :: "(npub, User option) ttl_map"
  px_nodes :: "string \<Rightarrow> blob_hash set"
  px_registry :: registry
  px_seen :: seen
  px_admins :: "(npub, bool) ttl_map"
  px_uploadLimiter :: buckets
  px_accountLimiter :: buckets
  px_adminLimiter :: buckets
  px_inflight :: int
  px_calls :: nat

datatype fault = NoFault | Lost | Down | Unauthorized | Forbidden

record env =
  en_prims :: nostr_prims
  en_sha256 :: "string \<Rightarrow> blob_hash"
  en_dateParse :: "string \<Rightarrow> date"
  en_config :: LifecycleConfig
  en_ttl :: int
  en_replicas :: nat
  en_maxInflight :: js_number
  en_baseUrl :: string
  en_fault :: "nat \<Rightarrow> fault"
  en_active :: "nat \<Rightarrow> unit + ActiveStorage list"
  en_reach :: "string \<Rightarrow> bool"
  en_admin :: "nat \<Rightarrow> unit + bool"
  en_fresh :: "nat \<Rightarrow> string"

datatype px_exn = ExAuth string nat | ExDb nat string | ExOther

type_synonym 'a io = "proxy \<Rightarrow> (px_exn + 'a) \<times> proxy"

definition return_io :: "'a \<Rightarrow> 'a io" where
  "return_io x s = (Inr x, s)"

definition raise_io :: "px_exn \<Rightarrow> 'a io" where
  "raise_io e s = (Inl e, s)"

definition bind_io :: "'a io \<Rightarrow> ('a \<Rightarrow> 'b io) \<Rightarrow> 'b io" where
  "bind_io m f s = (case m s of (Inl e, s') \<Rightarrow> (Inl e, s') | (Inr x, s') \<Rightarrow> f x s')"

text \<open>The outcome of a call inside \<open>try\<close>.\<close>

definition attempt_io :: "'a io \<Rightarrow> (px_exn + 'a) io" where
  "attempt_io m s = (let (r, s') = m s in (Inr r, s'))"

definition modify_io :: "(proxy \<Rightarrow> proxy) \<Rightarrow> unit io" where
  "modify_io f s = (Inr (), f s)"

text \<open>A call of the data service, as \<open>DbClient.mutate\<close> and \<open>getOk\<close> make it.\<close>

definition db_call :: "env \<Rightarrow> (db \<Rightarrow> 'a response \<times> db) \<Rightarrow> 'a io" where
  "db_call E f s =
     (let s1 = s\<lparr>px_calls := Suc (px_calls s)\<rparr>; (r, d) = f (px_db s) in
      case en_fault E (px_calls s) of
        Down \<Rightarrow> (Inl ExOther, s1)
      | Unauthorized \<Rightarrow> (Inl (ExDb 401 ''unauthorized''), s1)
      | Forbidden \<Rightarrow> (Inl (ExDb 403 ''forbidden_service_account''), s1)
      | Lost \<Rightarrow> (Inl ExOther, s1\<lparr>px_db := d\<rparr>)
      | NoFault \<Rightarrow>
          (case r of Success _ v \<Rightarrow> Inr v | Failure st c \<Rightarrow> Inl (ExDb st c), s1\<lparr>px_db := d\<rparr>))"

text \<open>\<open>DbClient.get\<close>: a 404 is null.\<close>

definition db_get :: "env \<Rightarrow> (db \<Rightarrow> 'a response) \<Rightarrow> 'a option io" where
  "db_get E f s =
     (case db_call E (\<lambda>d. (f d, d)) s of
        (Inr v, s') \<Rightarrow> (Inr (Some v), s')
      | (Inl (ExDb st c), s') \<Rightarrow> if st = 404 then (Inr None, s') else (Inl (ExDb st c), s')
      | (Inl e, s') \<Rightarrow> (Inl e, s'))"

abbreviation db_getUser :: "env \<Rightarrow> npub \<Rightarrow> User option io" where
  "db_getUser E n \<equiv> db_get E (\<lambda>d. getUser d n)"

abbreviation db_getBlob :: "env \<Rightarrow> blob_hash \<Rightarrow> BlobWithOwners option io" where
  "db_getBlob E h \<equiv> db_get E (\<lambda>d. getBlob d h)"

definition db_createBlob :: "env \<Rightarrow> int \<Rightarrow> blob_hash \<Rightarrow> npub \<Rightarrow> int \<Rightarrow> string list \<Rightarrow> (Blob \<times> int) io" where
  "db_createBlob E now h n sz replicas = db_call E (postBlob now h n (JNum (num_of_int sz)) replicas)"

definition db_deleteBlob :: "env \<Rightarrow> blob_hash \<Rightarrow> npub option \<Rightarrow> DeleteResult io" where
  "db_deleteBlob E h target = db_call E (deleteBlob h target (target = None))"

definition db_assignEntitlement :: "env \<Rightarrow> int \<Rightarrow> npub \<Rightarrow> json option \<Rightarrow> User io" where
  "db_assignEntitlement E now n body = db_call E (postEntitlement (en_dateParse E) now n body)"

definition db_recordModeration ::
  "env \<Rightarrow> int \<Rightarrow> blob_hash \<Rightarrow> npub \<Rightarrow> npub \<Rightarrow> string \<Rightarrow> ModerationAction io" where
  "db_recordModeration E now h n admin rsn s =
     db_call E (postModeration now (en_fresh E (px_calls s)) h n admin rsn) s"

text \<open>\<open>DbClient.logNotification\<close>: a 409 is the answer false.\<close>

definition db_logNotification ::
  "env \<Rightarrow> int \<Rightarrow> npub \<Rightarrow> string \<Rightarrow> string option \<Rightarrow> string \<Rightarrow> bool io" where
  "db_logNotification E now n kind rf ch s =
     (case db_call E (postNotification now (en_fresh E (px_calls s)) n kind rf ch) s of
        (Inr _, s') \<Rightarrow> (Inr True, s')
      | (Inl (ExDb st c), s') \<Rightarrow> if st = 409 then (Inr False, s') else (Inl (ExDb st c), s')
      | (Inl e, s') \<Rightarrow> (Inl e, s'))"

text \<open>The page text sent for a number: digits if it is a small natural number, else no digits.\<close>

definition num_query :: "js_number \<Rightarrow> string" where
  "num_query x =
     (if num_is_integer x \<and> 0 \<le> num_to_int x \<and> num_to_int x < 10 ^ 21
      then show_nat (nat (num_to_int x)) else ''NaN'')"

definition page_params :: "js_number \<Rightarrow> js_number \<Rightarrow> string \<Rightarrow> json option" where
  "page_params p ps k =
     (if k = ''page'' then Some (JStr (num_query p))
      else if k = ''pageSize'' then Some (JStr (num_query ps)) else None)"

definition db_listUserBlobs :: "env \<Rightarrow> npub \<Rightarrow> js_number \<Rightarrow> js_number \<Rightarrow> Blob paginated io" where
  "db_listUserBlobs E n p ps =
     db_call E (\<lambda>d. (Success 200 (listUserBlobs n (page_params p ps) d), d))"

text \<open>Requests to a storage node.\<close>

definition node_put :: "env \<Rightarrow> blob_hash \<Rightarrow> ServerCandidate \<Rightarrow> proxy \<Rightarrow> bool \<times> proxy" where
  "node_put E h c s =
     (let s1 = s\<lparr>px_calls := Suc (px_calls s)\<rparr>;
          put = s1\<lparr>px_nodes := (px_nodes s)(sc_url c := insert h (px_nodes s (sc_url c)))\<rparr>
      in case en_fault E (px_calls s) of
           NoFault \<Rightarrow> (True, put) | Lost \<Rightarrow> (False, put) | _ \<Rightarrow> (False, s1))"

definition node_delete :: "env \<Rightarrow> blob_hash \<Rightarrow> string \<Rightarrow> proxy \<Rightarrow> proxy" where
  "node_delete E h url s =
     (let s1 = s\<lparr>px_calls := Suc (px_calls s)\<rparr>;
          gone = s1\<lparr>px_nodes := (px_nodes s)(url := px_nodes s url - {h})\<rparr>
      in case en_fault E (px_calls s) of NoFault \<Rightarrow> gone | Lost \<Rightarrow> gone | _ \<Rightarrow> s1)"

definition nodes_delete :: "env \<Rightarrow> blob_hash \<Rightarrow> string list \<Rightarrow> unit io" where
  "nodes_delete E h replicas s =
     (Inr (), node_deleteBlob (node_delete E h) (px_registry s) replicas s)"

definition nodes_upload :: "env \<Rightarrow> int \<Rightarrow> blob_hash \<Rightarrow> npub \<Rightarrow> string list io" where
  "nodes_upload E now h n s =
     (let (cs, reg) = freshCandidates (en_active E (px_calls s)) (px_registry s);
          (r, s') = uploadBlob (node_put E h) n now (en_replicas E) cs
                      (s\<lparr>px_registry := reg, px_calls := Suc (px_calls s)\<rparr>)
      in case r of Inl _ \<Rightarrow> (Inl ExOther, s') | Inr replicas \<Rightarrow> (Inr replicas, s'))"

section \<open>Requests and responses\<close>

record PxRequest =
  rx_authorization :: "string option"
  rx_ip :: "string option"
  rx_remoteAddress :: "string option"
  rx_path :: string
  rx_xSha256 :: header_value
  rx_contentLength :: header_value
  rx_xContentLength :: header_value
  rx_contentType :: header_value
  rx_body :: body
  rx_page :: "string option"
  rx_pageSize :: "string option"

record Descriptor =
  ds_url :: string
  ds_sha256 :: blob_hash
  ds_size :: int
  ds_type :: string
  ds_uploaded :: int

record AccessErrorBody =
  ab_error :: string
  ab_status :: UserStatus
  ab_action :: string
  ab_usedStorage :: int
  ab_storageBytes :: "int option"

record StorageBody =
  sb_used :: int
  sb_total :: "int option"
  sb_available :: "int option"
  sb_user :: User
  sb_access :: AccessState

datatype px_body = NoContent | ErrorBody string | AccessBody AccessErrorBody | DescriptorBody Descriptor
  | StreamBody blob_hash int string | MessageBody string | StorageInfo StorageBody | UserBody User
  | AccountBody User AccessState | BlobPage "Blob paginated" | NotificationPage "NotificationLog paginated"
  | UserPage "User paginated" | StatsBody StorageStats | AuditPage "ModerationAction paginated"
  | ModerationBody "ModerationAction option" | PurgedBody nat

record px_response =
  rs_status :: nat
  rs_reason :: "string option"
  rs_body :: px_body

definition respond :: "nat \<Rightarrow> px_body \<Rightarrow> px_response" where
  "respond st b = \<lparr>rs_status = st, rs_reason = None, rs_body = b\<rparr>"

definition respond_reason :: "nat \<Rightarrow> string \<Rightarrow> px_body \<Rightarrow> px_response" where
  "respond_reason st why b = \<lparr>rs_status = st, rs_reason = Some why, rs_body = b\<rparr>"

definition MAX_UPLOAD_BYTES :: int where
  "MAX_UPLOAD_BYTES = 500 * 1024 * 1024"

definition TOO_LARGE :: string where
  "TOO_LARGE = ''File exceeds the 500 MB per-file upload limit.''"

definition RATE_WINDOW_MS :: int where
  "RATE_WINDOW_MS = 60000"

text \<open>\<open>UPLOAD_INFLIGHT_BYTES\<close>, 8 GiB when it is not a positive number.\<close>

definition max_inflight :: "string option \<Rightarrow> js_number" where
  "max_inflight v =
     (let x = (case v of None \<Rightarrow> NaN | Some s \<Rightarrow> js_Number s) in
      if num_lt (Num 0) x then x else Num (8 * 1024 * 1024 * 1024))"

text \<open>\<open>HASH_PATTERN\<close>: 64 lower-case hex digits, then optionally a dot and an extension.\<close>

definition hash_of_path :: "string \<Rightarrow> blob_hash option" where
  "hash_of_path s =
     (let h = take 64 s; rest = drop 64 s in
      if is_sha256_hex h
         \<and> (rest = [] \<or> hd rest = CHR ''.'' \<and> tl rest \<noteq> [] \<and> list_all is_alnum (tl rest))
      then Some h else None)"

definition MIME_EXTENSIONS :: "(string \<times> string) list" where
  "MIME_EXTENSIONS =
     [(''application/pdf'', ''.pdf''), (''application/json'', ''.json''), (''application/zip'', ''.zip''),
      (''application/octet-stream'', ''.bin''), (''image/png'', ''.png''), (''image/jpeg'', ''.jpg''),
      (''image/gif'', ''.gif''), (''image/webp'', ''.webp''), (''image/svg+xml'', ''.svg''),
      (''video/mp4'', ''.mp4''), (''video/webm'', ''.webm''), (''audio/mpeg'', ''.mp3''),
      (''audio/ogg'', ''.ogg''), (''text/plain'', ''.txt'')]"

definition extensionForType :: "string \<Rightarrow> string" where
  "extensionForType t =
     (case map_of MIME_EXTENSIONS (to_lower (trim (hd (split_on CHR '';'' t)))) of
        Some e \<Rightarrow> e | None \<Rightarrow> ''.bin'')"

definition sendAuthError :: "string \<Rightarrow> nat \<Rightarrow> px_response" where
  "sendAuthError msg st = respond_reason st msg (ErrorBody msg)"

definition access_code :: "AccessState \<Rightarrow> string" where
  "access_code access =
     (if reason access = R_grace_over_quota then ''quota_exceeded''
      else if canUpload access then ''quota_exceeded''
      else if status access = UNPAID then ''unpaid''
      else if status access = CLOSED then ''account_closed''
      else if status access = GRACE then ''grace_expired''
      else if status access = WRITE_BLOCKED then ''write_blocked''
      else ''read_blocked'')"

definition sendAccessError :: "User \<Rightarrow> AccessState \<Rightarrow> px_response" where
  "sendAccessError user access =
     respond_reason 403 (access_code access) (AccessBody
       \<lparr>ab_error = access_code access, ab_status = status access,
        ab_action = (if reason access = R_grace_over_quota \<or> canUpload access
                     then ''delete_or_upgrade'' else ''upgrade''),
        ab_usedStorage = u_usedStorage user, ab_storageBytes = u_storageBytes user\<rparr>)"

text \<open>\<open>{ ...access, canUpload: false, reason: "grace_over_quota" }\<close>.\<close>

definition over_quota :: "AccessState \<Rightarrow> AccessState" where
  "over_quota access = access\<lparr>canUpload := False, reason := R_grace_over_quota\<rparr>"

definition unpaidUser :: "npub \<Rightarrow> User" where
  "unpaidUser n = \<lparr>u_npub = n, u_planExpiresAt = None, u_storageBytes = None, u_usedStorage = 0,
     u_createdAt = 0\<rparr>"

section \<open>Access of the caller\<close>

definition invalidate_io :: "npub \<Rightarrow> unit io" where
  "invalidate_io n = modify_io (\<lambda>s. s\<lparr>px_cache := access_invalidate n (px_cache s)\<rparr>)"

text \<open>\<open>accessCache.get\<close>: the data service is asked on a miss only.\<close>

definition cached_user :: "env \<Rightarrow> int \<Rightarrow> npub \<Rightarrow> User option io" where
  "cached_user E now n s =
     (case cache_hit (en_ttl E) now n (px_cache s) of
        Some u \<Rightarrow> (Inr u, s)
      | None \<Rightarrow>
          (let (f, s1) = db_getUser E n s; (r, c) = access_get (en_ttl E) now n f (px_cache s1)
           in (r, s1\<lparr>px_cache := c\<rparr>)))"

definition loadAccess :: "env \<Rightarrow> int \<Rightarrow> npub \<Rightarrow> bool \<Rightarrow> (User \<times> AccessState) io" where
  "loadAccess E now n fresh =
     bind_io (if fresh then bind_io (invalidate_io n) (\<lambda>_. db_getUser E n) else cached_user E now n)
       (\<lambda>found. let user = (case found of None \<Rightarrow> unpaidUser n | Some u \<Rightarrow> u)
                in return_io (user, withAccess user (en_config E) now))"

definition loadAccessForDenialCheck ::
  "env \<Rightarrow> int \<Rightarrow> npub \<Rightarrow> User \<times> AccessState \<Rightarrow> (User \<times> AccessState) io" where
  "loadAccessForDenialCheck E now n cached =
     (if canUpload (snd cached) then return_io cached else loadAccess E now n True)"

definition checked_access :: "env \<Rightarrow> int \<Rightarrow> npub \<Rightarrow> (User \<times> AccessState) io" where
  "checked_access E now n =
     bind_io (loadAccess E now n False) (loadAccessForDenialCheck E now n)"

definition exceeds_quota :: "User \<Rightarrow> int \<Rightarrow> bool" where
  "exceeds_quota user sz =
     (case u_storageBytes user of None \<Rightarrow> False | Some a \<Rightarrow> a < u_usedStorage user + sz)"

text \<open>\<open>verifyAuthToken\<close> with the clock in milliseconds; its errors are exceptions here.\<close>

definition token_io :: "env \<Rightarrow> int \<Rightarrow> PxRequest \<Rightarrow> BlossomAction \<Rightarrow> string option \<Rightarrow> bool \<Rightarrow> npub io" where
  "token_io E now req action hash requireHashScope =
     (case verifyAuthToken (en_prims E) (now div 1000) (rx_authorization req) action hash requireHashScope of
        Inr n \<Rightarrow> return_io n
      | Inl (AuthError msg st) \<Rightarrow> raise_io (ExAuth msg st)
      | Inl AuthRaised \<Rightarrow> raise_io ExOther)"

text \<open>The outer \<open>catch\<close> of a handler: an \<open>AuthError\<close> is sent, anything else gives a fixed response.\<close>

definition run_handler :: "px_response \<Rightarrow> px_response io \<Rightarrow> proxy \<Rightarrow> px_response \<times> proxy" where
  "run_handler failed m s =
     (case m s of
        (Inr r, s') \<Rightarrow> (r, s')
      | (Inl (ExAuth msg st), s') \<Rightarrow> (sendAuthError msg st, s')
      | (Inl _, s') \<Rightarrow> (failed, s'))"

section \<open>Upload\<close>

text \<open>
  \<open>HEAD /upload\<close>. \<open>BigInt\<close> of a number that is not an integer raises.
\<close>

definition headUpload_io :: "env \<Rightarrow> int \<Rightarrow> PxRequest \<Rightarrow> px_response io" where
  "headUpload_io E now req =
     bind_io (token_io E now req ActUpload (header_raw (rx_xSha256 req)) True) (\<lambda>n.
     (let h = header_raw (rx_xContentLength req) in
      if h = None \<or> h = Some [] then
        return_io (respond_reason 411 ''X-Content-Length header is required'' NoContent)
      else
     (let sz = js_Number (the h) in
      if \<not> num_is_finite sz \<or> num_lt sz (Num 0) then
        return_io (respond_reason 400 ''Invalid X-Content-Length header'' NoContent)
      else if num_lt (num_of_int MAX_UPLOAD_BYTES) sz then
        return_io (respond_reason 413 TOO_LARGE NoContent)
      else
     bind_io (checked_access E now n) (\<lambda>(user, access).
      if \<not> canUpload access then
        return_io (respond_reason 403 (STATUS_ERROR_CODES (status access)) NoContent)
      else if u_storageBytes user \<noteq> None \<and> \<not> num_is_integer sz then raise_io ExOther
      else if exceeds_quota user (num_to_int sz) then
        return_io (respond_reason 403 ''quota_exceeded'' NoContent)
      else return_io (respond 200 NoContent)))))"

definition headUpload :: "env \<Rightarrow> int \<Rightarrow> PxRequest \<Rightarrow> proxy \<Rightarrow> px_response \<times> proxy" where
  "headUpload E now req s =
     (case headUpload_io E now req s of
        (Inr r, s') \<Rightarrow> (r, s')
      | (Inl (ExAuth msg st), s') \<Rightarrow> (respond_reason st msg NoContent, s')
      | (Inl _, s') \<Rightarrow> (respond 500 NoContent, s'))"

text \<open>
  \<open>uploadGate\<close>: \<open>Inl\<close> is the response that ends the request, \<open>Inr\<close> the length reserved in the
  in-flight counter when the request goes on to the body parser.
\<close>

definition uploadGate_io :: "env \<Rightarrow> int \<Rightarrow> PxRequest \<Rightarrow> (px_response + int) io" where
  "uploadGate_io E now req =
     bind_io (token_io E now req ActUpload None True) (\<lambda>n.
     (let h = header_raw (rx_contentLength req) in
      if h = None \<or> h = Some [] then
        return_io (Inl (respond_reason 411 ''Content-Length header is required''
                     (ErrorBody ''Content-Length header is required'')))
      else
     (let len = js_Number (the h) in
      if \<not> num_is_integer len \<or> num_le len (Num 0) then
        return_io (Inl (respond 400 (ErrorBody ''Request body must contain binary data'')))
      else if num_lt (num_of_int MAX_UPLOAD_BYTES) len then
        return_io (Inl (respond_reason 413 TOO_LARGE (ErrorBody TOO_LARGE)))
      else
     bind_io (checked_access E now n) (\<lambda>(user, access).
      if \<not> canUpload access then return_io (Inl (sendAccessError user access))
      else if exceeds_quota user (num_to_int len)
      then return_io (Inl (sendAccessError user (over_quota access)))
      else (\<lambda>s.
        if num_lt (en_maxInflight E) (num_of_int (px_inflight s + num_to_int len))
        then (Inr (Inl (respond 503 (ErrorBody ''server_busy''))), s)
        else (Inr (Inr (num_to_int len)), s\<lparr>px_inflight := px_inflight s + num_to_int len\<rparr>))))))"

definition uploadGate :: "env \<Rightarrow> int \<Rightarrow> PxRequest \<Rightarrow> proxy \<Rightarrow> (px_response + int) \<times> proxy" where
  "uploadGate E now req s =
     (let (ok, bs) = rl_hit RATE_WINDOW_MS 30 now (clientIp (rx_ip req) (rx_remoteAddress req)) (px_uploadLimiter s);
          s1 = s\<lparr>px_uploadLimiter := bs\<rparr>
      in if \<not> ok then (Inl (respond 429 (ErrorBody ''rate_limited'')), s1)
         else (case uploadGate_io E now req s1 of
                 (Inr r, s') \<Rightarrow> (r, s')
               | (Inl (ExAuth msg st), s') \<Rightarrow> (Inl (sendAuthError msg st), s')
               | (Inl _, s') \<Rightarrow> (Inl (respond 500 (ErrorBody ''Upload failed'')), s')))"

text \<open>\<open>release\<close>, run once when the response is closed or finished.\<close>

definition release :: "int \<Rightarrow> proxy \<Rightarrow> proxy" where
  "release len s = s\<lparr>px_inflight := px_inflight s - len\<rparr>"

text \<open>
  The handler of \<open>PUT /upload\<close> once the body is there. \<open>rollback\<close> takes the bytes off the nodes
  again when no row stands behind them, \<open>register_blob\<close> bills the caller; both end in the
  creation time of the blob or in a response.
\<close>

definition rollback :: "env \<Rightarrow> blob_hash \<Rightarrow> string list \<Rightarrow> bool \<Rightarrow> unit io" where
  "rollback E h replicas storedNow =
     (if \<not> storedNow then return_io ()
      else bind_io (attempt_io (db_getBlob E h)) (\<lambda>claimed.
        (case claimed of
           Inr (Some _) \<Rightarrow> return_io ()
         | _ \<Rightarrow> nodes_delete E h replicas)))"

definition register_blob ::
  "env \<Rightarrow> int \<Rightarrow> User \<Rightarrow> AccessState \<Rightarrow> blob_hash \<Rightarrow> npub \<Rightarrow> int \<Rightarrow> string list \<Rightarrow> bool
    \<Rightarrow> (px_response + int option) io" where
  "register_blob E now user access h n sz replicas storedNow =
     bind_io (attempt_io (db_createBlob E now h n sz replicas)) (\<lambda>created.
       (case created of
          Inr (b, _) \<Rightarrow> bind_io (invalidate_io n) (\<lambda>_. return_io (Inr (Some (b_createdAt b))))
        | Inl e \<Rightarrow>
            if e = ExDb 409 ''already_exists'' then
              bind_io (db_getBlob E h) (\<lambda>refetched.
                return_io (Inr (map_option (\<lambda>x. b_createdAt (bo_blob x)) refetched)))
            else
              bind_io (rollback E h replicas storedNow) (\<lambda>_.
                if e = ExDb 409 ''quota_exceeded'' then
                  bind_io (invalidate_io n) (\<lambda>_. return_io (Inl (sendAccessError user (over_quota access))))
                else raise_io e)))"

definition descriptor :: "env \<Rightarrow> int \<Rightarrow> PxRequest \<Rightarrow> blob_hash \<Rightarrow> int \<Rightarrow> int option \<Rightarrow> Descriptor" where
  "descriptor E now req h sz createdAt =
     (let contentType = (case header_raw (rx_contentType req) of
                           Some (c # cs) \<Rightarrow> c # cs | _ \<Rightarrow> ''application/octet-stream'')
      in \<lparr>ds_url = en_baseUrl E @ ''/'' @ h @ extensionForType contentType, ds_sha256 = h, ds_size = sz,
          ds_type = contentType,
          ds_uploaded = (case createdAt of Some t \<Rightarrow> t | None \<Rightarrow> now) div 1000\<rparr>)"

definition store_and_register ::
  "env \<Rightarrow> int \<Rightarrow> User \<Rightarrow> AccessState \<Rightarrow> blob_hash \<Rightarrow> npub \<Rightarrow> int \<Rightarrow> BlobWithOwners option
    \<Rightarrow> (px_response + int option) io" where
  "store_and_register E now user access h n sz existing =
     bind_io (case existing of
                Some x \<Rightarrow> return_io (b_replicas (bo_blob x))
              | None \<Rightarrow> nodes_upload E now h n)
       (\<lambda>replicas. register_blob E now user access h n sz replicas (existing = None))"

definition upload_checked ::
  "env \<Rightarrow> int \<Rightarrow> PxRequest \<Rightarrow> blob_hash \<Rightarrow> int \<Rightarrow> npub \<Rightarrow> User \<times> AccessState \<Rightarrow> px_response io" where
  "upload_checked E now req h sz n loaded =
     (let (user, access) = loaded in
      if \<not> canUpload access then return_io (sendAccessError user access)
      else if exceeds_quota user sz then return_io (sendAccessError user (over_quota access))
      else
      bind_io (attempt_io (db_getBlob E h)) (\<lambda>found.
        (case found of
           Inl _ \<Rightarrow> return_io (respond 502 (ErrorBody ''Blob lookup failed''))
         | Inr existing \<Rightarrow>
             (let alreadyMine = (case existing of None \<Rightarrow> False | Some x \<Rightarrow> n \<in> set (bo_owners x));
                  known = map_option (\<lambda>x. b_createdAt (bo_blob x)) existing
              in bind_io (if alreadyMine then return_io (Inr known)
                          else store_and_register E now user access h n sz existing)
                   (\<lambda>r. case r of
                      Inl resp \<Rightarrow> return_io resp
                    | Inr createdAt \<Rightarrow>
                        return_io (respond (if alreadyMine then 200 else 201)
                          (DescriptorBody (descriptor E now req h sz createdAt))))))))"

definition upload_io :: "env \<Rightarrow> int \<Rightarrow> PxRequest \<Rightarrow> px_response io" where
  "upload_io E now req =
     (case rx_body req of
        BufferBody (c # cs) \<Rightarrow>
          (let data = c # cs; h = en_sha256 E data; sz = int (length data);
               clientHash = header_raw (rx_xSha256 req);
               mismatch = ''X-SHA-256 header does not match the uploaded content'' in
           if clientHash \<noteq> None \<and> clientHash \<noteq> Some [] \<and> to_lower (the clientHash) \<noteq> h
           then return_io (respond_reason 409 mismatch (ErrorBody mismatch))
           else
           bind_io (token_io E now req ActUpload (Some h) True) (\<lambda>n.
           bind_io (checked_access E now n) (upload_checked E now req h sz n)))
      | _ \<Rightarrow> return_io (respond_reason 400 ''Request body must contain binary data''
                  (ErrorBody ''Request body must contain binary data'')))"

definition putUpload :: "env \<Rightarrow> int \<Rightarrow> PxRequest \<Rightarrow> proxy \<Rightarrow> px_response \<times> proxy" where
  "putUpload E now req =
     run_handler (respond_reason 500 ''Upload failed'' (ErrorBody ''Upload failed'')) (upload_io E now req)"

section \<open>Read and delete\<close>

text \<open>The rows of the owners of a blob, read fresh.\<close>

fun owner_rows :: "env \<Rightarrow> npub list \<Rightarrow> User option list io" where
  "owner_rows E [] = return_io []"
| "owner_rows E (n # ns) =
     bind_io (db_getUser E n) (\<lambda>u. bind_io (owner_rows E ns) (\<lambda>us. return_io (u # us)))"

definition getBlob_io :: "env \<Rightarrow> int \<Rightarrow> PxRequest \<Rightarrow> bool \<Rightarrow> px_response io" where
  "getBlob_io E now req includeBody =
     (case hash_of_path (drop 1 (rx_path req)) of
        None \<Rightarrow> return_io (respond 400 (ErrorBody ''Invalid sha256 hash''))
      | Some h \<Rightarrow>
      bind_io (db_getBlob E h) (\<lambda>found.
        (case found of
           None \<Rightarrow> return_io (respond 404 (ErrorBody ''Blob not found''))
         | Some blob \<Rightarrow>
      bind_io (attempt_io (owner_rows E (bo_owners blob))) (\<lambda>rows.
        (case rows of
           Inl _ \<Rightarrow> return_io (respond 500 (ErrorBody ''Download failed''))
         | Inr owners \<Rightarrow>
             (let accesses = map (map_option (\<lambda>u. withAccess u (en_config E) now)) owners;
                  readable = list_ex (\<lambda>a. case a of None \<Rightarrow> True | Some x \<Rightarrow> canRead x) accesses in
              if \<not> readable then
                (case accesses of
                   Some a # _ \<Rightarrow>
                     return_io (respond_reason 403 (STATUS_ERROR_CODES (status a))
                       (ErrorBody (STATUS_ERROR_CODES (status a))))
                 | _ \<Rightarrow> raise_io ExOther)
              else if \<not> includeBody then return_io (respond 200 NoContent)
              else (\<lambda>s.
                case openBlobStream (\<lambda>url. if en_reach E url \<and> h \<in> px_nodes s url then Some url else None)
                       (px_registry s) (b_replicas (bo_blob blob)) of
                  None \<Rightarrow> (Inl ExOther, s)
                | Some url \<Rightarrow> (Inr (respond 200 (StreamBody h (b_size (bo_blob blob)) url)), s))))))))"

definition handleGetBlob :: "env \<Rightarrow> int \<Rightarrow> PxRequest \<Rightarrow> bool \<Rightarrow> proxy \<Rightarrow> px_response \<times> proxy" where
  "handleGetBlob E now req includeBody =
     run_handler (respond 500 (if includeBody then ErrorBody ''Download failed'' else NoContent))
       (getBlob_io E now req includeBody)"

definition deleteBlob_io :: "env \<Rightarrow> int \<Rightarrow> PxRequest \<Rightarrow> px_response io" where
  "deleteBlob_io E now req =
     (case hash_of_path (drop 1 (rx_path req)) of
        None \<Rightarrow> return_io (respond 400 (ErrorBody ''Invalid sha256 hash''))
      | Some h \<Rightarrow>
      bind_io (token_io E now req ActDelete (Some h) True) (\<lambda>n.
      bind_io (db_getBlob E h) (\<lambda>found.
        (case found of
           None \<Rightarrow> return_io (respond 404 (ErrorBody ''Blob not found''))
         | Some blob \<Rightarrow>
             if n \<notin> set (bo_owners blob)
             then return_io (respond 403 (ErrorBody ''You do not have access to this blob''))
             else
      bind_io (db_deleteBlob E h (Some n)) (\<lambda>removed.
      bind_io (invalidate_io n) (\<lambda>_.
      bind_io (if dr_remainingOwners removed = 0 then nodes_delete E h (b_replicas (bo_blob blob))
               else return_io ()) (\<lambda>_.
        return_io (respond 200 (MessageBody ''Blob deleted successfully'')))))))))"

definition handleDeleteBlob :: "env \<Rightarrow> int \<Rightarrow> PxRequest \<Rightarrow> proxy \<Rightarrow> px_response \<times> proxy" where
  "handleDeleteBlob E now req =
     run_handler (respond 500 (ErrorBody ''Delete failed'')) (deleteBlob_io E now req)"

section \<open>Account routes\<close>

text \<open>\<open>GET /storage\<close>: a cached state that is not active is read again.\<close>

definition storage_io :: "env \<Rightarrow> int \<Rightarrow> PxRequest \<Rightarrow> px_response io" where
  "storage_io E now req =
     bind_io (token_io E now req ActGet None False) (\<lambda>n.
     bind_io (loadAccess E now n False) (\<lambda>cached.
     bind_io (if status (snd cached) \<noteq> ACTIVE then loadAccess E now n True else return_io cached)
       (\<lambda>(user, access).
         return_io (respond 200 (StorageInfo
           \<lparr>sb_used = u_usedStorage user, sb_total = u_storageBytes user,
            sb_available = map_option (\<lambda>t. t - u_usedStorage user) (u_storageBytes user),
            sb_user = user, sb_access = access\<rparr>)))))"

definition getStorage :: "env \<Rightarrow> int \<Rightarrow> PxRequest \<Rightarrow> proxy \<Rightarrow> px_response \<times> proxy" where
  "getStorage E now req s =
     (let (ok, bs) = rl_hit RATE_WINDOW_MS 120 now (clientIp (rx_ip req) (rx_remoteAddress req)) (px_accountLimiter s);
          s1 = s\<lparr>px_accountLimiter := bs\<rparr>
      in if \<not> ok then (respond 429 (ErrorBody ''rate_limited''), s1)
         else run_handler (respond 500 (ErrorBody ''Internal server error'')) (storage_io E now req) s1)"

definition getAccount :: "env \<Rightarrow> int \<Rightarrow> PxRequest \<Rightarrow> proxy \<Rightarrow> px_response \<times> proxy" where
  "getAccount E now req =
     run_handler (respond 500 (ErrorBody ''Internal server error''))
       (bind_io (token_io E now req ActGet None False) (\<lambda>n.
        bind_io (db_getUser E n) (\<lambda>found.
          (let user = (case found of None \<Rightarrow> unpaidUser n | Some u \<Rightarrow> u)
           in return_io (respond 200 (AccountBody user (withAccess user (en_config E) now)))))))"

text \<open>\<open>Number(req.query.page ?? "1")\<close>.\<close>

definition query_number :: "int \<Rightarrow> string option \<Rightarrow> js_number" where
  "query_number dflt v = (case v of None \<Rightarrow> num_of_int dflt | Some s \<Rightarrow> js_Number s)"

definition accountBlobs :: "env \<Rightarrow> int \<Rightarrow> PxRequest \<Rightarrow> proxy \<Rightarrow> px_response \<times> proxy" where
  "accountBlobs E now req =
     run_handler (respond 500 (ErrorBody ''Internal server error''))
       (bind_io (token_io E now req ActList None False) (\<lambda>n.
        bind_io (db_listUserBlobs E n (query_number 1 (rx_page req)) (query_number 25 (rx_pageSize req)))
          (\<lambda>p. return_io (respond 200 (BlobPage p)))))"

definition accountNotifications :: "env \<Rightarrow> int \<Rightarrow> PxRequest \<Rightarrow> proxy \<Rightarrow> px_response \<times> proxy" where
  "accountNotifications E now req =
     run_handler (respond 500 (ErrorBody ''Internal server error''))
       (bind_io (token_io E now req ActList None False) (\<lambda>n.
        bind_io (db_call E (\<lambda>d. (Success 200 (listUserNotifications n
                    (page_params (query_number 1 (rx_page req)) (query_number 25 (rx_pageSize req))) d), d)))
          (\<lambda>p. return_io (respond 200 (NotificationPage p)))))"

section \<open>Internal and admin routes\<close>

definition gate_response :: "gate_result \<Rightarrow> px_response option" where
  "gate_response g =
     (case g of
        GateNext _ \<Rightarrow> None
      | GateError st code why \<Rightarrow>
          Some (if why = [] then respond st (ErrorBody code) else respond_reason st why (ErrorBody code))
      | GateRaise \<Rightarrow> Some (respond 500 (ErrorBody ''Internal Server Error'')))"

text \<open>\<open>requireInternalRole\<close> over the data service.\<close>

definition internal_gate :: "env \<Rightarrow> int \<Rightarrow> Nip98Request \<Rightarrow> proxy \<Rightarrow> gate_result \<times> proxy" where
  "internal_gate E now nreq s =
     (let acct = (\<lambda>n. case fst (db_get E (\<lambda>d. getServiceAccount d n) s) of Inl _ \<Rightarrow> Inl () | Inr a \<Rightarrow> Inr a);
          (g, seen') = internalRoleGate (en_prims E) (now div 1000) nreq acct (px_seen s)
      in (g, s\<lparr>px_seen := seen', px_calls := Suc (px_calls s)\<rparr>))"

definition internal_route ::
  "env \<Rightarrow> int \<Rightarrow> Nip98Request \<Rightarrow> px_response \<Rightarrow> px_response io \<Rightarrow> proxy \<Rightarrow> px_response \<times> proxy" where
  "internal_route E now nreq failed m s =
     (let (g, s1) = internal_gate E now nreq s in
      case gate_response g of Some r \<Rightarrow> (r, s1) | None \<Rightarrow> run_handler failed m s1)"

definition internalUser :: "env \<Rightarrow> int \<Rightarrow> Nip98Request \<Rightarrow> npub \<Rightarrow> proxy \<Rightarrow> px_response \<times> proxy" where
  "internalUser E now nreq n =
     internal_route E now nreq (respond 502 (ErrorBody ''db_api_unreachable''))
       (bind_io (db_getUser E n) (\<lambda>found.
          return_io (case found of
            None \<Rightarrow> respond 404 (ErrorBody ''not_found'') | Some u \<Rightarrow> respond 200 (UserBody u))))"

text \<open>An entitlement write; a refusal of the data service is passed on with its status and code.\<close>

definition assign_io :: "env \<Rightarrow> int \<Rightarrow> npub \<Rightarrow> json option \<Rightarrow> px_response io" where
  "assign_io E now n body =
     bind_io (attempt_io (db_assignEntitlement E now n body)) (\<lambda>r.
       (case r of
          Inr u \<Rightarrow> bind_io (invalidate_io n) (\<lambda>_. return_io (respond 200 (UserBody u)))
        | Inl (ExDb st c) \<Rightarrow> return_io (respond st (ErrorBody c))
        | Inl _ \<Rightarrow> return_io (respond 502 (ErrorBody ''db api failed''))))"

definition internalEntitlement ::
  "env \<Rightarrow> int \<Rightarrow> Nip98Request \<Rightarrow> npub \<Rightarrow> json option \<Rightarrow> proxy \<Rightarrow> px_response \<times> proxy" where
  "internalEntitlement E now nreq n body =
     internal_route E now nreq (respond 502 (ErrorBody ''db api failed'')) (assign_io E now n body)"

text \<open>\<open>adminLimiter\<close> and \<open>requireAdmin\<close> in front of an admin route; the route gets the admin's npub.\<close>

definition admin_route ::
  "env \<Rightarrow> int \<Rightarrow> PxRequest \<Rightarrow> Nip98Request \<Rightarrow> px_response \<Rightarrow> (npub \<Rightarrow> px_response io) \<Rightarrow> proxy \<Rightarrow> px_response \<times> proxy" where
  "admin_route E now req nreq failed m s =
     (let (ok, bs) = rl_hit RATE_WINDOW_MS 60 now (clientIp (rx_ip req) (rx_remoteAddress req)) (px_adminLimiter s);
          s1 = s\<lparr>px_adminLimiter := bs\<rparr>
      in if \<not> ok then (respond 429 (ErrorBody ''rate_limited''), s1)
         else
           (let (g, seen', admins') =
                  requireAdmin (en_prims E) (now div 1000) nreq
                    (\<lambda>n c. isAdmin ADMIN_TTL True now now n (en_admin E (px_calls s1)) c)
                    (px_seen s1) (px_admins s1);
                s2 = s1\<lparr>px_seen := seen', px_admins := admins', px_calls := Suc (px_calls s1)\<rparr>
            in case g of
                 GateNext admin \<Rightarrow> run_handler failed (m admin) s2
               | _ \<Rightarrow> (case gate_response g of Some r \<Rightarrow> (r, s2) | None \<Rightarrow> (failed, s2))))"

definition db_unreachable :: px_response where
  "db_unreachable = respond 502 (ErrorBody ''db_api_unreachable'')"

text \<open>The listing routes; \<open>q\<close> holds the filter parameters of the request.\<close>

definition list_params :: "PxRequest \<Rightarrow> string list \<Rightarrow> (string \<Rightarrow> string option) \<Rightarrow> string \<Rightarrow> json option" where
  "list_params req keys q k =
     (if k \<in> set keys then (case q k of Some (c # cs) \<Rightarrow> Some (JStr (c # cs)) | _ \<Rightarrow> None)
      else page_params (query_number 1 (rx_page req)) (query_number 25 (rx_pageSize req)) k)"

definition adminUsers ::
  "env \<Rightarrow> int \<Rightarrow> PxRequest \<Rightarrow> Nip98Request \<Rightarrow> (string \<Rightarrow> string option) \<Rightarrow> proxy \<Rightarrow> px_response \<times> proxy" where
  "adminUsers E now req nreq q =
     admin_route E now req nreq db_unreachable (\<lambda>_.
       bind_io (db_call E (\<lambda>d. (Success 200 (listUsers (list_params req [''query''] q) d), d)))
         (\<lambda>p. return_io (respond 200 (UserPage p))))"

definition adminBlobs ::
  "env \<Rightarrow> int \<Rightarrow> PxRequest \<Rightarrow> Nip98Request \<Rightarrow> (string \<Rightarrow> string option) \<Rightarrow> proxy \<Rightarrow> px_response \<times> proxy" where
  "adminBlobs E now req nreq q =
     admin_route E now req nreq db_unreachable (\<lambda>_.
       bind_io (db_call E (\<lambda>d. (Success 200 (listAllBlobs (list_params req [''hash'', ''npub''] q) d), d)))
         (\<lambda>p. return_io (respond 200 (BlobPage p))))"

definition adminStats :: "env \<Rightarrow> int \<Rightarrow> PxRequest \<Rightarrow> Nip98Request \<Rightarrow> proxy \<Rightarrow> px_response \<times> proxy" where
  "adminStats E now req nreq =
     admin_route E now req nreq db_unreachable (\<lambda>_.
       bind_io (db_call E (\<lambda>d. (Success 200 (storageStats d), d)))
         (\<lambda>st. return_io (respond 200 (StatsBody st))))"

definition adminAudit :: "env \<Rightarrow> int \<Rightarrow> PxRequest \<Rightarrow> Nip98Request \<Rightarrow> proxy \<Rightarrow> px_response \<times> proxy" where
  "adminAudit E now req nreq =
     admin_route E now req nreq db_unreachable (\<lambda>_.
       bind_io (db_call E (\<lambda>d. (Success 200 (getModeration (list_params req [] (\<lambda>_. None)) d), d)))
         (\<lambda>p. return_io (respond 200 (AuditPage p))))"

text \<open>\<open>{ ...req.body, source: "admin" }\<close>; only named keys of the body matter.\<close>

definition with_admin_source :: "json option \<Rightarrow> json" where
  "with_admin_source body =
     JObj ((case body of Some (JObj fs) \<Rightarrow> filter (\<lambda>(k, _). k \<noteq> ''source'') fs | _ \<Rightarrow> [])
       @ [(''source'', JStr ''admin'')])"

definition adminEntitlement ::
  "env \<Rightarrow> int \<Rightarrow> PxRequest \<Rightarrow> Nip98Request \<Rightarrow> npub \<Rightarrow> json option \<Rightarrow> proxy \<Rightarrow> px_response \<times> proxy" where
  "adminEntitlement E now req nreq n body =
     admin_route E now req nreq (respond 502 (ErrorBody ''db api failed''))
       (\<lambda>_. assign_io E now n (Some (with_admin_source body)))"

text \<open>
  Moderation: every owner row, the bytes on every replica, then an audit record and two logged
  notifications per owner. The log calls are best-effort; sending the messages is not modelled.
\<close>

definition notifyModeration :: "env \<Rightarrow> int \<Rightarrow> npub \<Rightarrow> blob_hash \<Rightarrow> unit io" where
  "notifyModeration E now n h =
     bind_io (attempt_io (db_logNotification E now n ''moderation_deleted'' (Some h) ''nostr'')) (\<lambda>_.
     bind_io (attempt_io (db_logNotification E now n ''moderation_deleted'' (Some h) ''email'')) (\<lambda>_.
     return_io ()))"

fun record_actions ::
  "env \<Rightarrow> int \<Rightarrow> blob_hash \<Rightarrow> npub \<Rightarrow> string \<Rightarrow> npub list \<Rightarrow> ModerationAction list io" where
  "record_actions E now h admin why [] = return_io []"
| "record_actions E now h admin why (n # ns) =
     bind_io (db_recordModeration E now h n admin why) (\<lambda>a.
     bind_io (notifyModeration E now n h) (\<lambda>_.
     bind_io (record_actions E now h admin why ns) (\<lambda>as. return_io (a # as))))"

fun invalidate_all :: "npub list \<Rightarrow> unit io" where
  "invalidate_all [] = return_io ()"
| "invalidate_all (n # ns) = bind_io (invalidate_io n) (\<lambda>_. invalidate_all ns)"

definition moderate_io :: "env \<Rightarrow> int \<Rightarrow> string \<Rightarrow> json option \<Rightarrow> npub \<Rightarrow> px_response io" where
  "moderate_io E now hashParam body admin =
     (case hash_of_path hashParam of
        None \<Rightarrow> return_io (respond 400 (ErrorBody ''Invalid sha256 hash''))
      | Some h \<Rightarrow>
     (let why = (case body of
                   Some j \<Rightarrow> (case jprop ''reason'' j of Some (JStr r) \<Rightarrow> trim r | _ \<Rightarrow> [])
                 | None \<Rightarrow> []) in
      if why = [] then return_io (respond 400 (ErrorBody ''reason_required''))
      else
      bind_io (db_getBlob E h) (\<lambda>found.
        (case found of
           None \<Rightarrow> return_io (respond 404 (ErrorBody ''not_found''))
         | Some blob \<Rightarrow>
      bind_io (db_deleteBlob E h None) (\<lambda>_.
      bind_io (invalidate_all (bo_owners blob)) (\<lambda>_.
      bind_io (nodes_delete E h (b_replicas (bo_blob blob))) (\<lambda>_.
      bind_io (record_actions E now h admin why (bo_owners blob)) (\<lambda>actions.
        return_io (respond 200 (ModerationBody (case actions of [] \<Rightarrow> None | a # _ \<Rightarrow> Some a)))))))))))"

definition moderate ::
  "env \<Rightarrow> int \<Rightarrow> PxRequest \<Rightarrow> Nip98Request \<Rightarrow> string \<Rightarrow> json option \<Rightarrow> proxy \<Rightarrow> px_response \<times> proxy" where
  "moderate E now req nreq hashParam body =
     admin_route E now req nreq (respond 502 (ErrorBody ''moderation_failed'')) (moderate_io E now hashParam body)"

section \<open>Purge\<close>

fun purge_batch :: "env \<Rightarrow> npub \<Rightarrow> Blob list \<Rightarrow> nat \<Rightarrow> nat io" where
  "purge_batch E n [] purged = return_io purged"
| "purge_batch E n (b # bs) purged =
     bind_io (db_deleteBlob E (b_hash b) (Some n)) (\<lambda>removed.
     bind_io (if dr_remainingOwners removed = 0 then nodes_delete E (b_hash b) (b_replicas b)
              else return_io ()) (\<lambda>_.
     purge_batch E n bs (purged + 1)))"

text \<open>Every successful deletion makes the table of blobs shorter, so the loop ends.\<close>

lemma delete_rows_shorter: "delete_rows rs l d = Inr (l', d') \<Longrightarrow> length (blobs d') \<le> length (blobs d)"
proof (induction rs arbitrary: l d)
  case (Cons r rs)
  from Cons.prems obtain l1 where "delete_rows rs l1 (drop_blob r d) = Inr (l', d')"
    by (auto split: if_splits option.splits)
  from Cons.IH [OF this] have "length (blobs d') \<le> length (filter (\<lambda>x. blob_key x \<noteq> blob_key r) (blobs d))"
    by (simp add: drop_blob_def delete_row_def)
  also have "\<dots> \<le> length (blobs d)" by (rule length_filter_le)
  finally show ?case .
qed simp

lemma deleteBlob_shorter:
  assumes "deleteBlob h n all d = (Success st r, d')"
  shows "length (blobs d') < length (blobs d)"
proof -
  from deleteBlob_success [OF assms] obtain l b where
    rows: "delete_rows (filter (\<lambda>b. b_hash b = h \<and> (all \<or> Some (b_npub b) = n)) (blobs d)) 0 d = Inr (l, d')"
    and b: "b \<in> set (blobs d)" "b_hash b = h \<and> (all \<or> Some (b_npub b) = n)"
    by blast
  then obtain x xs where x: "filter (\<lambda>b. b_hash b = h \<and> (all \<or> Some (b_npub b) = n)) (blobs d) = x # xs"
    by (cases "filter (\<lambda>b. b_hash b = h \<and> (all \<or> Some (b_npub b) = n)) (blobs d)") (auto simp: filter_empty_conv)
  then have mem: "x \<in> set (blobs d)" by (metis list.set_intros(1) filter_is_subset subsetD)
  from rows x obtain l1 where "delete_rows xs l1 (drop_blob x d) = Inr (l, d')"
    by (auto split: if_splits option.splits)
  from delete_rows_shorter [OF this] have "length (blobs d') \<le> length (delete_row blob_key (blob_key x) (blobs d))"
    by (simp add: drop_blob_def)
  also have "\<dots> < length (blobs d)"
    using mem by (intro length_delete_row_less) simp
  finally show ?thesis .
qed

named_theorems io_simps \<open>the plumbing of remote calls\<close>

lemmas [io_simps] = return_io_def raise_io_def bind_io_def attempt_io_def modify_io_def

lemma db_call_success:
  assumes "db_call E f s = (Inr v, s')"
  shows "\<exists>st d. f (px_db s) = (Success st v, d) \<and> s' = s\<lparr>px_calls := Suc (px_calls s), px_db := d\<rparr>"
  using assms by (auto simp: db_call_def Let_def split: fault.splits prod.splits response.splits)

lemma node_delete_db [simp]: "px_db (node_delete E h url s) = px_db s"
  by (simp add: node_delete_def Let_def split: fault.split)

lemma node_deleteBlob_db [simp]: "px_db (node_deleteBlob (node_delete E h) reg rs s) = px_db s"
  by (induction rs arbitrary: s) (auto split: option.split)

lemma nodes_delete_eq: "nodes_delete E h rs s = (Inr (), node_deleteBlob (node_delete E h) (px_registry s) rs s)"
  by (simp add: nodes_delete_def)

lemma purge_step:
  assumes "purge_batch E n (b # bs) p s = (Inr q, s')"
  shows "\<exists>r s1 s2. db_deleteBlob E (b_hash b) (Some n) s = (Inr r, s1)
    \<and> s2 = (if dr_remainingOwners r = 0
             then node_deleteBlob (node_delete E (b_hash b)) (px_registry s1) (b_replicas b) s1 else s1)
    \<and> px_db s2 = px_db s1 \<and> purge_batch E n bs (p + 1) s2 = (Inr q, s')"
proof -
  obtain r s1 where one: "db_deleteBlob E (b_hash b) (Some n) s = (Inr r, s1)"
    using assms by (auto simp: io_simps split: prod.splits sum.splits)
  with assms show ?thesis
    by (auto simp: io_simps nodes_delete_eq split: if_splits)
qed

lemma purge_batch_shorter:
  assumes "purge_batch E n bs p s = (Inr q, s')"
  shows "length (blobs (px_db s')) + length bs \<le> length (blobs (px_db s))"
  using assms
proof (induction bs arbitrary: p s)
  case Nil
  then show ?case by (simp add: io_simps)
next
  case (Cons b bs)
  from purge_step [OF Cons.prems] obtain r s1 s2 where
    del: "db_deleteBlob E (b_hash b) (Some n) s = (Inr r, s1)" and s2: "px_db s2 = px_db s1"
    and rest: "purge_batch E n bs (p + 1) s2 = (Inr q, s')" by blast
  from del obtain st d where "deleteBlob (b_hash b) (Some n) False (px_db s) = (Success st r, d)" "px_db s1 = d"
    by (auto simp: db_deleteBlob_def dest!: db_call_success)
  from deleteBlob_shorter [OF this(1)] this(2) Cons.IH [OF rest] s2 show ?case by simp
qed

lemma db_listUserBlobs_db: "px_db (snd (db_listUserBlobs E n p ps s)) = px_db s"
  by (simp add: db_listUserBlobs_def db_call_def Let_def split: fault.split)

function purge_loop :: "env \<Rightarrow> npub \<Rightarrow> nat \<Rightarrow> nat io" where
  "purge_loop E n purged s =
     (case db_listUserBlobs E n (Num 1) (Num 100) s of
        (Inl e, s1) \<Rightarrow> (Inl e, s1)
      | (Inr batch, s1) \<Rightarrow>
          if items batch = [] then (Inr purged, s1)
          else (case purge_batch E n (items batch) purged s1 of
                  (Inl e, s2) \<Rightarrow> (Inl e, s2)
                | (Inr purged', s2) \<Rightarrow> purge_loop E n purged' s2))"
  by pat_completeness auto

termination
proof (relation "measure (\<lambda>(E, n, purged, s). length (blobs (px_db s)))")
  fix E n purged s x s1 batch y s2 q
  assume l: "(x, s1) = db_listUserBlobs E n (Num 1) (Num 100) s" "x = Inr batch" and ne: "items batch \<noteq> []"
    and b: "(y, s2) = purge_batch E n (items batch) purged s1" "y = Inr q"
  have "px_db s1 = px_db s"
    using db_listUserBlobs_db [of E n "Num 1" "Num 100" s] l by (metis snd_conv)
  moreover have "length (blobs (px_db s2)) + length (items batch) \<le> length (blobs (px_db s1))"
    using purge_batch_shorter [of E n "items batch" purged s1 q s2] b by simp
  ultimately show "((E, n, q, s2), (E, n, purged, s)) \<in> measure (\<lambda>(E, n, purged, s). length (blobs (px_db s)))"
    using ne by (cases "items batch") auto
qed simp

declare purge_loop.simps [simp del]

text \<open>\<open>POST /internal/purge/:npub\<close>.\<close>

definition purge :: "env \<Rightarrow> int \<Rightarrow> Nip98Request \<Rightarrow> npub \<Rightarrow> proxy \<Rightarrow> px_response \<times> proxy" where
  "purge E now nreq n =
     internal_route E now nreq (respond 502 (ErrorBody ''purge_failed''))
       (bind_io (purge_loop E n 0) (\<lambda>purged.
        bind_io (invalidate_io n) (\<lambda>_. return_io (respond 200 (PurgedBody purged)))))"

end
