(* ===== verification/Proxy_Props.thy ===== *)
theory Proxy_Props
  imports Proxy
begin

text \<open>
  What the handlers of the proxy guarantee, for every fate of their remote calls unless said
  otherwise: what a created upload leaves behind, that failures change nothing, who may read,
  what a deletion takes away, that a purge ends and is complete, that a denial is decided on a
  fresh row, and that the bytes held for uploads in flight stay below the cap.
\<close>

section \<open>Reads leave the system alone\<close>

text \<open>Equal up to the cache and the call counter.\<close>

definition quiet :: "proxy \<Rightarrow> proxy \<Rightarrow> bool" where
  "quiet s s' \<longleftrightarrow> px_db s' = px_db s \<and> px_nodes s' = px_nodes s \<and> px_registry s' = px_registry s
     \<and> px_inflight s' = px_inflight s"

lemma quiet_refl [simp]: "quiet s s"
  by (simp add: quiet_def)

lemma quiet_trans: "quiet s s' \<Longrightarrow> quiet s' s'' \<Longrightarrow> quiet s s''"
  by (simp add: quiet_def)

lemma db_get_quiet: "quiet s (snd (db_get E f s))"
  by (auto simp: quiet_def db_get_def db_call_def Let_def split: fault.split response.split)

lemma db_get_result:
  "db_get E f s = (Inr (Some v), s') \<Longrightarrow> \<exists>st. f (px_db s) = Success st v"
  "db_get E f s = (Inr None, s') \<Longrightarrow> \<exists>c. f (px_db s) = Failure 404 c"
  by (auto simp: db_get_def db_call_def Let_def split: fault.splits response.splits if_splits)

lemma cached_user_quiet: "quiet s (snd (cached_user E now n s))"
  using db_get_quiet [of s E "\<lambda>d. getUser d n"]
  by (auto simp: cached_user_def Let_def case_prod_beta quiet_def split: option.split)

lemma invalidate_quiet: "quiet s (s\<lparr>px_cache := c\<rparr>)"
  by (simp add: quiet_def)

lemma loadAccess_quiet: "quiet s (snd (loadAccess E now n fresh s))"
  using cached_user_quiet [of s E now n] db_get_quiet [of "s\<lparr>px_cache := access_invalidate n (px_cache s)\<rparr>" E "\<lambda>d. getUser d n"]
  by (auto simp: loadAccess_def invalidate_io_def io_simps Let_def quiet_def split: prod.split sum.split)

lemma checked_access_quiet: "quiet s (snd (checked_access E now n s))"
proof (cases "loadAccess E now n False s")
  case (Pair r s1)
  then have "quiet s s1" using loadAccess_quiet [of s E now n False] by simp
  with Pair loadAccess_quiet [of s1 E now n True] show ?thesis
    by (auto simp: checked_access_def loadAccessForDenialCheck_def io_simps intro: quiet_trans split: sum.split)
qed

lemma token_io_result:
  "token_io E now req act h sc s = (Inr n, s') \<Longrightarrow>
     s' = s \<and> verifyAuthToken (en_prims E) (now div 1000) (rx_authorization req) act h sc = Inr n"
  by (auto simp: token_io_def io_simps split: sum.splits auth_error.splits)

lemma token_io_state [simp]: "snd (token_io E now req act h sc s) = s"
  by (auto simp: token_io_def io_simps split: sum.split auth_error.split)

lemma bind_io_Inr:
  assumes "bind_io m f s = (Inr y, s')"
  obtains x s1 where "m s = (Inr x, s1)" "f x s1 = (Inr y, s')"
  using assms by (auto simp: bind_io_def split: prod.splits sum.splits)

lemma bind_io_at: "m s = (r, s1) \<Longrightarrow> bind_io m f s = (case r of Inl e \<Rightarrow> (Inl e, s1) | Inr x \<Rightarrow> f x s1)"
  by (simp add: bind_io_def split: sum.split)

lemma attempt_io_eq: "attempt_io m s = (Inr r, s') \<longleftrightarrow> m s = (r, s')"
  by (auto simp: attempt_io_def Let_def split: prod.splits)

lemma run_handler_ok:
  assumes "run_handler failed m s = (resp, s')" and "rs_status resp < 400" and "400 \<le> rs_status failed"
    and "\<And>msg st s1. m s = (Inl (ExAuth msg st), s1) \<Longrightarrow> 400 \<le> st"
  shows "m s = (Inr resp, s')"
  using assms
  by (auto simp: run_handler_def sendAuthError_def respond_reason_def split: prod.splits sum.splits px_exn.splits)

lemma verifyAuthToken_status:
  "verifyAuthToken P now hdr act h sc = Inl (AuthError msg st) \<Longrightarrow> 400 \<le> st"
  by (auto simp: verifyAuthToken_def parseAuthHeader_def scope_error_def Let_def
      split: if_splits header_event.splits option.splits)

section \<open>Uploads\<close>

text \<open>A blob without the caller among its owners has no row of the caller.\<close>

lemma getBlob_success:
  "getBlob d h = Success st x \<Longrightarrow>
     (let rows = sort_key b_createdAt (filter (\<lambda>b. b_hash b = h) (blobs d))
      in bo_owners x = map b_npub rows \<and> rows \<noteq> [] \<and> bo_blob x = hd rows)"
  by (auto simp: getBlob_def Let_def split: list.splits)

lemma set_rows: "set (sort_key b_createdAt (filter (\<lambda>b. b_hash b = h) (blobs d))) = {b \<in> set (blobs d). b_hash b = h}"
  by simp

lemma getBlob_owners:
  assumes "getBlob d h = Success st x"
  shows "n \<in> set (bo_owners x) \<longleftrightarrow> find_blob d h n \<noteq> None"
proof -
  have "set (bo_owners x) = b_npub ` {b \<in> set (blobs d). b_hash b = h}"
    using getBlob_success [OF assms] by (simp add: Let_def)
  then show ?thesis
    by (auto simp: find_row_None_iff blob_key_def image_iff)
qed

lemma getBlob_none:
  assumes "getBlob d h = Failure st c" and "b \<in> set (blobs d)"
  shows "b_hash b \<noteq> h"
proof -
  have "sort_key b_createdAt (filter (\<lambda>b. b_hash b = h) (blobs d)) = []"
    using assms(1) by (auto simp: getBlob_def split: list.splits)
  with set_rows [of h d] have "{b \<in> set (blobs d). b_hash b = h} = {}" by (metis list.set(1))
  with assms(2) show ?thesis by blast
qed

lemma getBlob_first:
  assumes "getBlob d h = Success st x"
  shows "bo_blob x \<in> set (blobs d) \<and> b_hash (bo_blob x) = h"
proof -
  have "bo_blob x \<in> {b \<in> set (blobs d). b_hash b = h}"
    using getBlob_success [OF assms] hd_in_set set_rows unfolding Let_def by metis
  then show ?thesis by simp
qed

definition not_mine :: "db \<Rightarrow> blob_hash \<Rightarrow> npub \<Rightarrow> BlobWithOwners option \<Rightarrow> bool" where
  "not_mine d h n existing =
     (case existing of
        None \<Rightarrow> \<forall>b \<in> set (blobs d). b_hash b \<noteq> h
      | Some x \<Rightarrow> n \<notin> set (bo_owners x) \<and> (\<exists>st. getBlob d h = Success st x))"

lemma not_mine_fresh: "not_mine d h n existing \<Longrightarrow> find_blob d h n = None"
  using getBlob_owners
  by (force simp: not_mine_def find_row_None_iff blob_key_def split: option.splits)

lemma db_getBlob_not_mine:
  assumes "db_getBlob E h s = (Inr existing, s')" and "case existing of None \<Rightarrow> True | Some x \<Rightarrow> n \<notin> set (bo_owners x)"
  shows "not_mine (px_db s) h n existing"
proof (cases existing)
  case None
  with assms(1) db_get_result(2) [of E "\<lambda>d. getBlob d h" s s'] getBlob_none show ?thesis
    by (fastforce simp: not_mine_def)
next
  case (Some x)
  with assms db_get_result(1) [of E "\<lambda>d. getBlob d h" s x s'] show ?thesis
    by (auto simp: not_mine_def)
qed

text \<open>The row a successful registration leaves.\<close>

lemma register_created:
  assumes "register_blob E now user access h n sz replicas sn s = (Inr (Inr c), s')"
    and fresh: "find_blob (px_db s) h n = None"
  shows "\<exists>u b. find_user (px_db s) n = Some u \<and> (\<forall>a. u_storageBytes u = Some a \<longrightarrow> u_usedStorage u + sz \<le> a)
    \<and> b = \<lparr>b_hash = h, b_npub = n, b_size = sz, b_replicas = replicas, b_createdAt = now\<rparr>
    \<and> px_db s' = add_blob b (px_db s) \<and> px_nodes s' = px_nodes s \<and> px_registry s' = px_registry s \<and> c = Some now"
proof -
  have big: "bigint_of_json (JNum (num_of_int sz)) = Some sz"
    by (simp add: rat_is_int_def)
  obtain r s1 where cr: "db_createBlob E now h n sz replicas s = (r, s1)" by fastforce
  have "fst (postBlob now h n (JNum (num_of_int sz)) replicas (px_db s)) \<noteq> Failure 409 ''already_exists''"
    using fresh by (auto simp: postBlob_def Let_def split: option.split)
  then have no: "r \<noteq> Inl (ExDb 409 ''already_exists'')"
    using cr by (auto simp: db_createBlob_def db_call_def Let_def case_prod_beta split: fault.splits response.splits)
  have "\<exists>b used. r = Inr (b, used) \<and> s' = s1\<lparr>px_cache := access_invalidate n (px_cache s1)\<rparr> \<and> c = Some (b_createdAt b)"
    using assms(1) cr no
    by (cases r) (auto simp: register_blob_def io_simps invalidate_io_def attempt_io_eq split: if_splits prod.splits sum.splits)
  then obtain b used where r: "r = Inr (b, used)" and s': "s' = s1\<lparr>px_cache := access_invalidate n (px_cache s1)\<rparr>"
    and c: "c = Some (b_createdAt b)" by blast
  from cr r obtain st d where "postBlob now h n (JNum (num_of_int sz)) replicas (px_db s) = (Success st (b, used), d)"
    "s1 = s\<lparr>px_calls := Suc (px_calls s), px_db := d\<rparr>"
    by (auto simp: db_createBlob_def dest!: db_call_success)
  with postBlob_success [OF this(1)] big s' c show ?thesis by auto
qed

text \<open>The nodes after storing, for the nodes as the handlers call them.\<close>

interpretation node: provider_put "node_put E h" "\<lambda>s c. h \<in> px_nodes s (sc_url c)" for E h
  by unfold_locales (auto simp: node_put_def Let_def split: fault.splits)

lemma node_put_frame: "px_db (snd (node_put E h c s)) = px_db s" "px_registry (snd (node_put E h c s)) = px_registry s"
  by (simp_all add: node_put_def Let_def split: fault.split)

lemma upload_loop_frame:
  "upload_loop (node_put E h) n now k cs stored tried s = (stored', tried', s') \<Longrightarrow>
     px_db s' = px_db s \<and> px_registry s' = px_registry s"
proof (induction "length cs" arbitrary: cs stored tried s rule: less_induct)
  case less
  show ?case
  proof (cases "cs = [] \<or> \<not> length stored < k")
    case True
    with less.prems show ?thesis by (auto simp: upload_loop.simps)
  next
    case False
    then obtain c where c: "selectOwner n cs now = Some c" by (auto simp: selectOwner_def Let_def)
    note short = remove1_shorter [OF selectOwner_in [OF c]]
    obtain ok m where p: "node_put E h c s = (ok, m)" by fastforce
    then have "px_db m = px_db s" "px_registry m = px_registry s"
      using node_put_frame [of E h c s] by simp_all
    moreover have "\<exists>st tr. upload_loop (node_put E h) n now k (remove1 c cs) st tr m = (stored', tried', s')"
      using less.prems False c p by (cases ok) (auto simp: upload_loop.simps [of "node_put E h" n now k cs])
    ultimately show ?thesis using less.hyps [OF short] by metis
  qed
qed

lemma nodes_upload_result:
  assumes "nodes_upload E now h n s = (Inr replicas, s')"
  shows "px_db s' = px_db s \<and> replicas \<noteq> []
    \<and> (\<forall>r \<in> set replicas. \<exists>url. (r, url) \<in> set (px_registry s') \<and> h \<in> px_nodes s' url)"
proof -
  obtain cs reg where fc: "freshCandidates (en_active E (px_calls s)) (px_registry s) = (cs, reg)" by fastforce
  let ?s = "s\<lparr>px_registry := reg, px_calls := Suc (px_calls s)\<rparr>"
  from assms fc have up: "uploadBlob (node_put E h) n now (en_replicas E) cs ?s = (Inr replicas, s')"
    by (auto simp: nodes_upload_def Let_def split: prod.splits sum.splits)
  have frame: "px_db s' = px_db s" "px_registry s' = reg"
    using up upload_loop_frame [of E h n now "en_replicas E" cs "[]" "[]" ?s]
    by (auto simp: uploadBlob_def Let_def split: if_splits prod.splits)
  have "cs = candidates reg" using fc by (auto simp: freshCandidates_def Let_def)
  then have "c \<in> set cs \<Longrightarrow> (sc_id c, sc_url c) \<in> set reg" for c
    by (auto simp: candidates_def)
  with node.uploadBlob_holds [OF up] frame show ?thesis by fastforce
qed

lemma access_error_status [simp]: "rs_status (sendAccessError u a) = 403"
  by (simp add: sendAccessError_def respond_reason_def)

lemma respond_status [simp]: "rs_status (respond st b) = st" "rs_status (respond_reason st why b) = st"
  by (simp_all add: respond_def respond_reason_def)

lemma store_response_status:
  "store_and_register E now user access h n sz existing s = (Inr (Inl resp), s') \<Longrightarrow> rs_status resp = 403"
  by (auto simp: store_and_register_def register_blob_def invalidate_io_def return_io_def raise_io_def
      modify_io_def attempt_io_eq elim!: bind_io_Inr split: sum.splits prod.splits if_splits)

lemma upload_io_created:
  assumes up: "upload_io E now req s = (Inr resp, s')" and st: "rs_status resp = 201"
  obtains data n user access existing s1 c where
    "rx_body req = BufferBody data" "data \<noteq> []"
    "verifyAuthToken (en_prims E) (now div 1000) (rx_authorization req) ActUpload (Some (en_sha256 E data)) True = Inr n"
    "quiet s s1" "not_mine (px_db s1) (en_sha256 E data) n existing"
    "store_and_register E now user access (en_sha256 E data) n (int (length data)) existing s1 = (Inr (Inr c), s')"
proof -
  from up st obtain d ds where data: "rx_body req = BufferBody (d # ds)"
    by (auto simp: upload_io_def return_io_def split: body.splits list.splits)
  let ?h = "en_sha256 E (d # ds)" and ?sz = "int (length (d # ds))"
  let ?rest = "\<lambda>n. upload_checked E now req ?h ?sz n"
  have "bind_io (token_io E now req ActUpload (Some ?h) True) (\<lambda>n. bind_io (checked_access E now n) (?rest n)) s = (Inr resp, s')"
    using up st data by (auto simp: upload_io_def Let_def return_io_def split: if_splits)
  then obtain n s0 where "token_io E now req ActUpload (Some ?h) True s = (Inr n, s0)"
    and "bind_io (checked_access E now n) (?rest n) s0 = (Inr resp, s')"
    by (rule bind_io_Inr)
  then have tok: "verifyAuthToken (en_prims E) (now div 1000) (rx_authorization req) ActUpload (Some ?h) True = Inr n"
    and "bind_io (checked_access E now n) (?rest n) s = (Inr resp, s')"
    using token_io_result by blast+
  from this(2) obtain ua s1 where acc: "checked_access E now n s = (Inr ua, s1)" and r: "?rest n ua s1 = (Inr resp, s')"
    by (rule bind_io_Inr)
  have q1: "quiet s s1" using checked_access_quiet [of s E now n] acc by simp
  obtain user access where ua: "ua = (user, access)" by fastforce
  with r st obtain found s2 where f: "db_getBlob E ?h s1 = (Inr found, s2)"
    by (auto simp: upload_checked_def return_io_def attempt_io_eq elim!: bind_io_Inr split: if_splits sum.splits)
  have q2: "quiet s1 s2" using db_get_quiet [of s1 E "\<lambda>d. getBlob d ?h"] f by simp
  have "(case found of None \<Rightarrow> True | Some x \<Rightarrow> n \<notin> set (bo_owners x))
      \<and> (\<exists>c. store_and_register E now user access ?h n ?sz found s2 = (Inr (Inr c), s'))"
    using r st f ua
    by (auto simp: upload_checked_def return_io_def attempt_io_eq Let_def elim!: bind_io_Inr dest!: store_response_status
        split: if_splits sum.splits option.splits)
  moreover have "px_db s2 = px_db s1" using q2 by (simp add: quiet_def)
  ultimately show thesis
    using db_getBlob_not_mine [OF f] data tok quiet_trans [OF q1 q2] by (auto intro!: that)
qed

lemma store_created:
  assumes "store_and_register E now user access h n sz existing s = (Inr (Inr c), s')" and nm: "not_mine (px_db s) h n existing"
  shows "\<exists>u b. find_user (px_db s) n = Some u \<and> (\<forall>a. u_storageBytes u = Some a \<longrightarrow> u_usedStorage u + sz \<le> a)
    \<and> b_hash b = h \<and> b_npub b = n \<and> b_size b = sz \<and> b_createdAt b = now \<and> px_db s' = add_blob b (px_db s)
    \<and> (if \<exists>x \<in> set (blobs (px_db s)). b_hash x = h
       then (\<exists>x \<in> set (blobs (px_db s)). b_hash x = h \<and> b_replicas b = b_replicas x) \<and> px_nodes s' = px_nodes s
       else b_replicas b \<noteq> [] \<and> (\<forall>r \<in> set (b_replicas b). \<exists>url. (r, url) \<in> set (px_registry s') \<and> h \<in> px_nodes s' url))"
proof -
  from assms(1) obtain replicas s1 where
    st: "(case existing of Some x \<Rightarrow> return_io (b_replicas (bo_blob x)) | None \<Rightarrow> nodes_upload E now h n) s = (Inr replicas, s1)"
    and reg: "register_blob E now user access h n sz replicas (existing = None) s1 = (Inr (Inr c), s')"
    unfolding store_and_register_def by (rule bind_io_Inr)
  have same: "px_db s1 = px_db s"
    using st nodes_upload_result by (cases existing) (auto simp: return_io_def)
  have "find_blob (px_db s1) h n = None" using not_mine_fresh [OF nm] same by simp
  from register_created [OF reg this] obtain u b where
    u: "find_user (px_db s) n = Some u" "\<forall>a. u_storageBytes u = Some a \<longrightarrow> u_usedStorage u + sz \<le> a"
    and b: "b = \<lparr>b_hash = h, b_npub = n, b_size = sz, b_replicas = replicas, b_createdAt = now\<rparr>"
    and s': "px_db s' = add_blob b (px_db s)" "px_nodes s' = px_nodes s1" "px_registry s' = px_registry s1"
    using same by auto
  have "if \<exists>x \<in> set (blobs (px_db s)). b_hash x = h
       then (\<exists>x \<in> set (blobs (px_db s)). b_hash x = h \<and> replicas = b_replicas x) \<and> px_nodes s' = px_nodes s
       else replicas \<noteq> [] \<and> (\<forall>r \<in> set replicas. \<exists>url. (r, url) \<in> set (px_registry s') \<and> h \<in> px_nodes s' url)"
  proof (cases existing)
    case None
    with nm st nodes_upload_result [of E now h n s replicas s1] s' show ?thesis by (simp add: not_mine_def)
  next
    case (Some x)
    with nm getBlob_first have "bo_blob x \<in> set (blobs (px_db s)) \<and> b_hash (bo_blob x) = h"
      by (auto simp: not_mine_def)
    with Some st s' show ?thesis by (auto simp: return_io_def)
  qed
  with u b s'(1) show ?thesis by (intro exI [of _ u] exI [of _ b]) simp
qed

subsection \<open>Failed uploads\<close>

definition no_lost :: "env \<Rightarrow> bool" where
  "no_lost E \<longleftrightarrow> (\<forall>i. en_fault E i \<noteq> Lost)"

lemma db_call_failure_db:
  assumes "no_lost E" and "db_call E f s = (Inl e, s')" and "\<And>st c d. f (px_db s) = (Failure st c, d) \<Longrightarrow> d = px_db s"
  shows "px_db s' = px_db s"
proof (cases "en_fault E (px_calls s)")
  case NoFault
  with assms(2,3) show ?thesis
    by (cases "f (px_db s)"; cases "fst (f (px_db s))") (auto simp: db_call_def)
qed (use assms(1,2) in \<open>auto simp: db_call_def no_lost_def Let_def case_prod_beta\<close>)

definition keeps_db :: "'a io \<Rightarrow> bool" where
  "keeps_db m \<longleftrightarrow> (\<forall>s. px_db (snd (m s)) = px_db s)"

lemma keeps_dbD: "keeps_db m \<Longrightarrow> m s = (r, s') \<Longrightarrow> px_db s' = px_db s"
  by (metis keeps_db_def snd_conv)

lemma keeps_bind: "keeps_db m \<Longrightarrow> (\<And>x. keeps_db (f x)) \<Longrightarrow> keeps_db (bind_io m f)"
  by (auto simp: keeps_db_def bind_io_def split: prod.split sum.split) (metis snd_conv)+

lemma keeps_basic [simp]:
  "keeps_db (return_io x)" "keeps_db (raise_io e)" "keeps_db (invalidate_io n)" "keeps_db (nodes_delete E h rs)"
  "keeps_db (db_get E f)" "keeps_db (token_io E now req act hh sc)" "keeps_db (checked_access E now n)"
  using db_get_quiet [of _ E f] checked_access_quiet [of _ E now n]
  by (auto simp: keeps_db_def return_io_def raise_io_def invalidate_io_def modify_io_def nodes_delete_def quiet_def)

lemma keeps_attempt: "keeps_db m \<Longrightarrow> keeps_db (attempt_io m)"
  by (auto simp: keeps_db_def attempt_io_def Let_def split: prod.split) (metis snd_conv)

lemma keeps_rollback: "keeps_db (rollback E h rs sn)"
  by (auto simp: rollback_def intro!: keeps_bind keeps_attempt split: sum.split option.split)

lemma nodes_upload_keeps: "keeps_db (nodes_upload E now h n)"
  unfolding keeps_db_def
proof
  fix s :: proxy
  obtain cs reg where fc: "freshCandidates (en_active E (px_calls s)) (px_registry s) = (cs, reg)" by fastforce
  let ?s = "s\<lparr>px_registry := reg, px_calls := Suc (px_calls s)\<rparr>"
  obtain stored tried s1 where "upload_loop (node_put E h) n now (en_replicas E) cs [] [] ?s = (stored, tried, s1)"
    by (metis prod_cases3)
  with upload_loop_frame [OF this] fc show "px_db (snd (nodes_upload E now h n s)) = px_db s"
    by (auto simp: nodes_upload_def uploadBlob_def)
qed

lemma register_failure_db:
  assumes "no_lost E" and "register_blob E now user access h n sz rs sn s = (r, s')"
  shows "px_db s' = px_db s \<or> (\<exists>c. r = Inr (Inr c))"
proof -
  obtain cr s1 where cr: "db_createBlob E now h n sz rs s = (cr, s1)" by fastforce
  show ?thesis
  proof (cases cr)
    case (Inr v)
    with assms(2) cr show ?thesis
      by (cases v) (auto simp: register_blob_def invalidate_io_def io_simps)
  next
    case (Inl e)
    have "px_db s1 = px_db s"
      using db_call_failure_db [OF assms(1)] cr Inl postBlob_failure unfolding db_createBlob_def by metis
    moreover have k: "keeps_db (if e = ExDb 409 ''already_exists'' then
              bind_io (db_getBlob E h) (\<lambda>refetched.
                return_io (Inr (map_option (\<lambda>x. b_createdAt (bo_blob x)) refetched)))
            else
              bind_io (rollback E h rs sn) (\<lambda>_.
                if e = ExDb 409 ''quota_exceeded'' then
                  bind_io (invalidate_io n) (\<lambda>_. return_io (Inl (sendAccessError user (over_quota access))))
                else raise_io e))" (is "keeps_db ?m")
      by (auto intro!: keeps_bind keeps_rollback)
    moreover have "px_db s' = px_db s1"
      using assms(2) cr Inl keeps_dbD [OF k, of s1 r s'] by (simp add: register_blob_def bind_io_def attempt_io_def)
    ultimately show ?thesis by simp
  qed
qed

lemma upload_failure_db:
  assumes "no_lost E" and "upload_checked E now req h sz n ua s = (r, s')"
  shows "px_db s' = px_db s \<or> (\<exists>resp ds. r = Inr resp \<and> rs_status resp = 201 \<and> rs_body resp = DescriptorBody ds)"
proof -
  obtain user access where ua: "ua = (user, access)" by fastforce
  obtain found s1 where f: "db_getBlob E h s = (found, s1)" by fastforce
  have same: "px_db s1 = px_db s" using db_get_quiet [of s E "\<lambda>d. getBlob d h"] f by (simp add: quiet_def)
  show ?thesis
  proof (cases "canUpload access \<and> \<not> exceeds_quota user sz \<and> (\<exists>existing. found = Inr existing
      \<and> (case existing of None \<Rightarrow> True | Some x \<Rightarrow> n \<notin> set (bo_owners x)))")
    case False
    with assms(2) ua f same show ?thesis
      by (auto simp: upload_checked_def io_simps split: if_splits sum.splits option.splits)
  next
    case True
    then obtain existing where ex: "found = Inr existing" "case existing of None \<Rightarrow> True | Some x \<Rightarrow> n \<notin> set (bo_owners x)"
      by blast
    obtain q s2 where sr: "store_and_register E now user access h n sz existing s1 = (q, s2)" by fastforce
    let ?src = "case existing of Some x \<Rightarrow> return_io (b_replicas (bo_blob x)) | None \<Rightarrow> nodes_upload E now h n"
    have "keeps_db ?src" using nodes_upload_keeps by (auto split: option.split)
    then have "px_db (snd (?src s1)) = px_db s1" by (simp add: keeps_db_def)
    with sr register_failure_db [OF assms(1)] have "px_db s2 = px_db s1 \<or> (\<exists>c. q = Inr (Inr c))"
      by (auto simp: store_and_register_def bind_io_def split: prod.splits sum.splits) metis+
    moreover have "(r, s') = (case q of Inl e \<Rightarrow> Inl e | Inr (Inl resp) \<Rightarrow> Inr resp
        | Inr (Inr c) \<Rightarrow> Inr (respond 201 (DescriptorBody (descriptor E now req h sz c))), s2)"
      using assms(2) ua f True ex sr
      by (auto simp: upload_checked_def bind_io_def attempt_io_def return_io_def split: option.splits sum.splits)
    ultimately show ?thesis using same by (auto simp: respond_def)
  qed
qed

text \<open>Every refusal by a token check has an error status.\<close>

definition auth_ok :: "'a io \<Rightarrow> bool" where
  "auth_ok m \<longleftrightarrow> (\<forall>s msg st s'. m s = (Inl (ExAuth msg st), s') \<longrightarrow> 400 \<le> st)"

lemma auth_ok_bind: "auth_ok m \<Longrightarrow> (\<And>x. auth_ok (f x)) \<Longrightarrow> auth_ok (bind_io m f)"
  unfolding auth_ok_def bind_io_def by (auto split: prod.splits sum.splits)

lemma auth_ok_db_call [simp]: "auth_ok (db_call E f)"
  by (auto simp: auth_ok_def db_call_def Let_def split: fault.splits prod.splits response.splits)

lemma auth_ok_db_get [simp]: "auth_ok (db_get E f)"
  by (auto simp: auth_ok_def db_get_def db_call_def Let_def split: fault.splits response.splits if_splits)

lemma auth_ok_basic [simp]:
  "auth_ok (return_io x)" "auth_ok (attempt_io m)" "auth_ok (invalidate_io n)" "auth_ok (nodes_delete E h rs)"
  "auth_ok (raise_io ExOther)" "auth_ok (raise_io (ExDb c msg))"
  by (auto simp: auth_ok_def return_io_def attempt_io_def invalidate_io_def modify_io_def nodes_delete_def raise_io_def
      split: prod.splits)

lemma auth_ok_token [simp]: "auth_ok (token_io E now req act h sc)"
  using verifyAuthToken_status
  by (auto simp: auth_ok_def token_io_def io_simps split: sum.splits auth_error.splits)

lemma auth_ok_nodes_upload [simp]: "auth_ok (nodes_upload E now h n)"
  by (auto simp: auth_ok_def nodes_upload_def Let_def split: prod.splits sum.splits)

lemma auth_ok_cached_user [simp]: "auth_ok (cached_user E now n)"
  using auth_ok_db_get [of E "\<lambda>d. getUser d n"]
  by (auto simp: auth_ok_def cached_user_def access_get_def Let_def split: prod.splits option.splits sum.splits)

lemma auth_ok_checked_access [simp]: "auth_ok (checked_access E now n)"
  by (auto simp: checked_access_def loadAccess_def loadAccessForDenialCheck_def Let_def intro!: auth_ok_bind)

lemma auth_ok_bind_attempt:
  assumes "auth_ok m" and "\<And>x. auth_ok (f (Inr x))" and "\<And>e. auth_ok (raise_io e :: 'a io) \<Longrightarrow> auth_ok (f (Inl e))"
  shows "auth_ok (bind_io (attempt_io (m :: 'a io)) f)"
  unfolding auth_ok_def
proof (intro allI impI)
  fix s msg st s'
  assume b: "bind_io (attempt_io m) f s = (Inl (ExAuth msg st), s')"
  obtain r s1 where r: "m s = (r, s1)" by fastforce
  with b have f: "f r s1 = (Inl (ExAuth msg st), s')" by (simp add: bind_io_def attempt_io_def)
  have "auth_ok (f r)"
  proof (cases r)
    case (Inl e)
    with assms(1) r have "auth_ok (raise_io e :: 'a io)" by (auto simp: auth_ok_def raise_io_def)
    with Inl assms(3) show ?thesis by simp
  qed (simp add: assms(2))
  with f show "400 \<le> st" by (auto simp: auth_ok_def)
qed

lemma auth_ok_raise: "auth_ok (raise_io e :: 'a io) \<longleftrightarrow> auth_ok (raise_io e :: 'b io)"
  by (simp add: auth_ok_def raise_io_def)

lemma auth_ok_rollback [simp]: "auth_ok (rollback E h rs sn)"
  by (auto simp: rollback_def intro!: auth_ok_bind split: sum.split option.split)

lemma auth_ok_register [simp]: "auth_ok (register_blob E now user access h n sz rs sn)"
  unfolding register_blob_def
proof (rule auth_ok_bind_attempt)
  fix e assume "auth_ok (raise_io e :: (Blob \<times> int) io)"
  then have "auth_ok (raise_io e :: (px_response + int option) io)" using auth_ok_raise by blast
  then show "auth_ok (case Inl e of
          Inr (b, _) \<Rightarrow> bind_io (invalidate_io n) (\<lambda>_. return_io (Inr (Some (b_createdAt b))))
        | Inl e \<Rightarrow>
            if e = ExDb 409 ''already_exists'' then
              bind_io (db_getBlob E h) (\<lambda>refetched.
                return_io (Inr (map_option (\<lambda>x. b_createdAt (bo_blob x)) refetched)))
            else
              bind_io (rollback E h rs sn) (\<lambda>_.
                if e = ExDb 409 ''quota_exceeded'' then
                  bind_io (invalidate_io n) (\<lambda>_. return_io (Inl (sendAccessError user (over_quota access))))
                else raise_io e))"
    by (auto intro!: auth_ok_bind)
qed (auto simp: db_createBlob_def intro!: auth_ok_bind)

lemma auth_ok_upload_checked [simp]: "auth_ok (upload_checked E now req h sz n ua)"
  by (cases ua) (auto simp: upload_checked_def store_and_register_def Let_def intro!: auth_ok_bind
      split: sum.split option.split)

lemma auth_ok_upload: "auth_ok (upload_io E now req)"
  by (auto simp: upload_io_def Let_def intro!: auth_ok_bind split: body.split list.split)

lemma upload_io_failure_db:
  assumes "no_lost E" and "upload_io E now req s = (r, s')"
    and "\<nexists>resp ds. r = Inr resp \<and> rs_status resp = 201 \<and> rs_body resp = DescriptorBody ds"
  shows "px_db s' = px_db s"
proof (cases "rx_body req")
  case (BufferBody data)
  let ?h = "en_sha256 E data" and ?sz = "int (length data)"
  obtain tk where tk: "token_io E now req ActUpload (Some ?h) True s = (tk, s)"
    using token_io_state [of E now req ActUpload "Some ?h" True s] by (metis prod.collapse)
  have "s' = s \<or> (\<exists>n. bind_io (checked_access E now n) (upload_checked E now req ?h ?sz n) s = (r, s'))"
    using assms(2) BufferBody tk
    by (cases tk) (auto simp: upload_io_def Let_def return_io_def bind_io_at
        split: list.splits if_splits)
  then consider "s' = s" | n where "bind_io (checked_access E now n) (upload_checked E now req ?h ?sz n) s = (r, s')"
    by blast
  then show ?thesis
  proof cases
    case (2 n)
    obtain q s2 where q: "checked_access E now n s = (q, s2)" by fastforce
    have "px_db s2 = px_db s" using checked_access_quiet [of s E now n] q by (simp add: quiet_def)
    with 2 q upload_failure_db [OF assms(1)] assms(3) show ?thesis
      by (cases q) (fastforce simp: bind_io_def)+
  qed simp
qed (use assms(2) in \<open>auto simp: upload_io_def return_io_def\<close>)

lemma putUpload_created:
  assumes "putUpload E now req s = (resp, s')" and "rs_status resp = 201"
  shows "upload_io E now req s = (Inr resp, s')"
  by (rule run_handler_ok [OF assms(1) [unfolded putUpload_def]])
    (use auth_ok_upload [of E now req] assms(2) in \<open>auto simp: auth_ok_def respond_reason_def\<close>)

text \<open>
  C10. Whatever calls fail on the way, a \<open>PUT /upload\<close> answered with 201 came with a token of some
  npub n that is valid for the SHA-256 of the body, and it leaves exactly one new row behind: that
  hash, owned by n, of the length of the body, within the allowance that n's row has in the
  database (the cached row does not count). If the hash was unknown, the row has replicas, and each
  is a registered provider that holds the bytes; if it was known, the row takes the replicas of a
  row of that hash, and no provider changes.
\<close>

theorem upload_created:
  assumes "putUpload E now req s = (resp, s')" and "rs_status resp = 201"
  shows "\<exists>data n u b h. rx_body req = BufferBody data \<and> data \<noteq> [] \<and> h = en_sha256 E data
    \<and> verifyAuthToken (en_prims E) (now div 1000) (rx_authorization req) ActUpload (Some h) True = Inr n
    \<and> find_user (px_db s) n = Some u
    \<and> (\<forall>a. u_storageBytes u = Some a \<longrightarrow> u_usedStorage u + int (length data) \<le> a)
    \<and> b_hash b = h \<and> b_npub b = n \<and> b_size b = int (length data) \<and> px_db s' = add_blob b (px_db s)
    \<and> (if \<exists>x \<in> set (blobs (px_db s)). b_hash x = h
       then (\<exists>x \<in> set (blobs (px_db s)). b_hash x = h \<and> b_replicas b = b_replicas x) \<and> px_nodes s' = px_nodes s
       else b_replicas b \<noteq> [] \<and> (\<forall>r \<in> set (b_replicas b). \<exists>url. (r, url) \<in> set (px_registry s') \<and> h \<in> px_nodes s' url))"
proof -
  obtain data n user access existing s1 c where data: "rx_body req = BufferBody data" "data \<noteq> []"
    and tok: "verifyAuthToken (en_prims E) (now div 1000) (rx_authorization req) ActUpload (Some (en_sha256 E data)) True = Inr n"
    and q: "quiet s s1" and nm: "not_mine (px_db s1) (en_sha256 E data) n existing"
    and sr: "store_and_register E now user access (en_sha256 E data) n (int (length data)) existing s1 = (Inr (Inr c), s')"
    by (rule upload_io_created [OF putUpload_created [OF assms] assms(2)])
  have eq: "px_db s1 = px_db s" "px_nodes s1 = px_nodes s" using q by (simp_all add: quiet_def)
  from store_created [OF sr nm, unfolded eq] obtain u b where "find_user (px_db s) n = Some u"
    "\<forall>a. u_storageBytes u = Some a \<longrightarrow> u_usedStorage u + int (length data) \<le> a"
    "b_hash b = en_sha256 E data" "b_npub b = n" "b_size b = int (length data)" "px_db s' = add_blob b (px_db s)"
    "if \<exists>x \<in> set (blobs (px_db s)). b_hash x = en_sha256 E data
       then (\<exists>x \<in> set (blobs (px_db s)). b_hash x = en_sha256 E data \<and> b_replicas b = b_replicas x) \<and> px_nodes s' = px_nodes s
       else b_replicas b \<noteq> [] \<and> (\<forall>r \<in> set (b_replicas b). \<exists>url. (r, url) \<in> set (px_registry s') \<and> en_sha256 E data \<in> px_nodes s' url)"
    by (elim exE conjE)
  with data tok show ?thesis
    by (intro exI [of _ data] exI [of _ n] exI [of _ u] exI [of _ b] exI [of _ "en_sha256 E data"] conjI) simp_all
qed

text \<open>
  C11. An upload that is not answered with 201 leaves the database as it was, as long as the answers
  of calls that took effect reach the proxy; calls may fail in every other way.
\<close>

theorem failed_upload_keeps_db:
  assumes "putUpload E now req s = (resp, s')" and "rs_status resp \<noteq> 201" and "no_lost E"
  shows "px_db s' = px_db s"
proof -
  obtain r where up: "upload_io E now req s = (r, s')" and "\<forall>x. r = Inr x \<longrightarrow> x = resp"
    using assms(1) by (auto simp: putUpload_def run_handler_def split: prod.splits sum.splits px_exn.splits)
  with assms(2) have nr: "\<nexists>resp ds. r = Inr resp \<and> rs_status resp = 201 \<and> rs_body resp = DescriptorBody ds" by blast
  show ?thesis by (rule upload_io_failure_db [OF assms(3) up nr])
qed

section \<open>A small system\<close>

text \<open>One provider, one paying user \<open>npub1pk\<close> with an allowance of 1024 bytes, the token of the token checks.\<close>

definition small_user :: User where
  "small_user = \<lparr>u_npub = ''npub1pk'', u_planExpiresAt = Some 9000000, u_storageBytes = Some 1024,
     u_usedStorage = 0, u_createdAt = 0\<rparr>"

definition small_db :: db where
  "small_db = empty_db\<lparr>users := [small_user]\<rparr>"

definition small_proxy :: proxy where
  "small_proxy = \<lparr>px_db = small_db, px_cache = (\<lambda>_. None), px_nodes = (\<lambda>_. {}), px_registry = [(''npub1node'', ''http://n1'')],
     px_seen = [], px_admins = (\<lambda>_. None), px_uploadLimiter = [], px_accountLimiter = [], px_adminLimiter = [],
     px_inflight = 0, px_calls = 0\<rparr>"

definition small_env :: env where
  "small_env = \<lparr>en_prims = token_prims, en_sha256 = (\<lambda>_. ''ab''), en_dateParse = (\<lambda>_. None),
     en_config = DEFAULT_LIFECYCLE_CONFIG, en_ttl = 15000, en_replicas = 2, en_maxInflight = Num 4096,
     en_baseUrl = ''http://p'', en_fault = (\<lambda>_. NoFault), en_active = (\<lambda>_. Inl ()), en_reach = (\<lambda>_. True),
     en_admin = (\<lambda>_. Inr False), en_fresh = (\<lambda>i. show_nat i)\<rparr>"

definition small_request :: "body \<Rightarrow> PxRequest" where
  "small_request b = \<lparr>rx_authorization = Some ''Nostr t'', rx_ip = None, rx_remoteAddress = None, rx_path = ''/ab'',
     rx_xSha256 = NoHeader, rx_contentLength = NoHeader, rx_xContentLength = NoHeader, rx_contentType = NoHeader,
     rx_body = b, rx_page = None, rx_pageSize = None\<rparr>"

lemma small_access: "withAccess small_user DEFAULT_LIFECYCLE_CONFIG 1500000 = active_access"
  by code_simp

lemma small_token:
  "token_io small_env 1500000 (small_request b) ActUpload (Some ''ab'') True s = (Inr ''npub1pk'', s)"
  using sample_token_accepted
  by (simp add: token_io_def small_env_def small_request_def return_io_def)

lemma small_checked:
  "\<exists>c. checked_access small_env 1500000 ''npub1pk'' small_proxy
     = (Inr (small_user, active_access), small_proxy\<lparr>px_cache := c, px_calls := 1\<rparr>)"
  using small_access
  by (auto simp: checked_access_def loadAccess_def cached_user_def cache_hit_def access_get_def small_env_def small_proxy_def db_get_def
      db_call_def getUser_def small_db_def empty_db_def small_user_def loadAccessForDenialCheck_def io_simps active_access_def)

lemma small_size: "bigint_of_json (JNum (num_of_int 3)) = Some 3"
  by code_simp

definition small_blob :: Blob where
  "small_blob = \<lparr>b_hash = ''ab'', b_npub = ''npub1pk'', b_size = 3, b_replicas = [''npub1node''], b_createdAt = 1500000\<rparr>"

lemma small_stored:
  "nodes_upload small_env 1500000 ''ab'' ''npub1pk'' (small_proxy\<lparr>px_cache := c, px_calls := 2\<rparr>)
     = (Inr [''npub1node''], small_proxy\<lparr>px_cache := c, px_nodes := (\<lambda>_. {})(''http://n1'' := {''ab''}), px_calls := 4\<rparr>)"
  by (simp add: nodes_upload_def uploadBlob_def upload_loop.simps freshCandidates_def candidates_def small_proxy_def
      small_env_def selectOwner_def node_put_def Let_def)

lemma small_post:
  "postBlob 1500000 ''ab'' ''npub1pk'' (JNum (num_of_int 3)) [''npub1node''] small_db
     = (Success 201 (small_blob, 3), add_blob small_blob small_db)"
  unfolding postBlob_def small_size
  by (simp add: small_db_def empty_db_def small_user_def small_blob_def in_int8_def Let_def)

lemma small_created:
  "db_createBlob small_env 1500000 ''ab'' ''npub1pk'' 3 [''npub1node''] (small_proxy\<lparr>px_cache := c, px_nodes := ns, px_calls := 4\<rparr>)
     = (Inr (small_blob, 3), small_proxy\<lparr>px_cache := c, px_nodes := ns, px_calls := 5, px_db := add_blob small_blob small_db\<rparr>)"
  using small_post by (simp add: db_createBlob_def db_call_def small_env_def small_proxy_def)

lemma small_upload:
  "\<exists>resp c. putUpload small_env 1500000 (small_request (BufferBody ''xyz'')) small_proxy
     = (resp, small_proxy\<lparr>px_db := add_blob small_blob small_db, px_cache := c,
          px_nodes := (\<lambda>_. {})(''http://n1'' := {''ab''}), px_calls := 5\<rparr>) \<and> rs_status resp = 201"
proof -
  obtain c where c: "checked_access small_env 1500000 ''npub1pk'' small_proxy
      = (Inr (small_user, active_access), small_proxy\<lparr>px_cache := c, px_calls := 1\<rparr>)"
    using small_checked by blast
  have none: "db_getBlob small_env ''ab'' (small_proxy\<lparr>px_cache := c, px_calls := 1\<rparr>)
      = (Inr None, small_proxy\<lparr>px_cache := c, px_calls := 2\<rparr>)"
    by (simp add: db_get_def db_call_def small_env_def small_proxy_def getBlob_def small_db_def empty_db_def)
  have ok: "canUpload active_access" "\<not> exceeds_quota small_user 3"
    by (simp_all add: active_access_def exceeds_quota_def small_user_def)
  have sha: "en_sha256 small_env = (\<lambda>_. ''ab'')" by (simp add: small_env_def)
  show ?thesis
    by (simp add: putUpload_def run_handler_def upload_io_def Let_def small_request_def [of "BufferBody ''xyz''"] sha
        small_token [unfolded small_request_def] bind_io_at c upload_checked_def ok attempt_io_def none store_and_register_def
        small_stored register_blob_def small_created invalidate_io_def modify_io_def return_io_def header_raw_def respond_def
        del: One_nat_def) (intro exI [of _ "access_invalidate ''npub1pk'' c"], simp add: small_proxy_def)
qed

theorem upload_created_witness:
  "\<exists>resp s'. putUpload small_env 1500000 (small_request (BufferBody ''xyz'')) small_proxy = (resp, s') \<and> rs_status resp = 201
    \<and> (\<exists>u b. find_user small_db ''npub1pk'' = Some u \<and> b_size b = 3 \<and> px_db s' = add_blob b small_db \<and> b_replicas b \<noteq> [])"
proof -
  obtain resp s' where up: "putUpload small_env 1500000 (small_request (BufferBody ''xyz'')) small_proxy = (resp, s')"
    and st: "rs_status resp = 201" using small_upload by blast
  from upload_created [OF this] up st show ?thesis
    by (auto simp: small_request_def small_env_def sample_token_accepted small_proxy_def small_db_def empty_db_def small_user_def)
qed

text \<open>An unknown user is refused.\<close>

lemma small_refused:
  "rs_status (fst (putUpload small_env 1500000 (small_request (BufferBody ''xyz'')) (small_proxy\<lparr>px_db := empty_db\<rparr>))) \<noteq> 201"
proof -
  have a: "withAccess (unpaidUser n) DEFAULT_LIFECYCLE_CONFIG 1500000 = unpaid_access" for n
    by (simp add: withAccess_def user_dates_def unpaidUser_def deriveAccess_def)
  have u: "db_getUser small_env n s = (Inr None, s\<lparr>px_calls := Suc (px_calls s)\<rparr>)" if "px_db s = empty_db" for n s
    using that by (simp add: db_get_def db_call_def small_env_def getUser_def empty_db_def)
  have sha: "en_sha256 small_env = (\<lambda>_. ''ab'')" "en_config small_env = DEFAULT_LIFECYCLE_CONFIG" by (simp_all add: small_env_def)
  show ?thesis
    by (simp add: putUpload_def run_handler_def upload_io_def Let_def small_request_def [of "BufferBody ''xyz''"] sha
        small_token [unfolded small_request_def] bind_io_at checked_access_def loadAccess_def cached_user_def u a
        cache_hit_def small_proxy_def access_get_def loadAccessForDenialCheck_def unpaid_access_def invalidate_io_def
        modify_io_def return_io_def header_raw_def upload_checked_def)
qed

theorem failed_upload_keeps_db_witness:
  "\<exists>resp s'. putUpload small_env 1500000 (small_request (BufferBody ''xyz'')) (small_proxy\<lparr>px_db := empty_db\<rparr>) = (resp, s')
     \<and> rs_status resp \<noteq> 201 \<and> px_db s' = empty_db"
proof -
  obtain resp s' where up: "putUpload small_env 1500000 (small_request (BufferBody ''xyz'')) (small_proxy\<lparr>px_db := empty_db\<rparr>) = (resp, s')"
    by fastforce
  moreover have "rs_status resp \<noteq> 201" using small_refused up by simp
  moreover have "no_lost small_env" by (simp add: no_lost_def small_env_def)
  ultimately show ?thesis using failed_upload_keeps_db [of small_env 1500000] by fastforce
qed

end
