(* ===== verification/Proxy_Access.thy ===== *)
theory Proxy_Access
  imports Proxy_Props
begin

text \<open>
  Reads, deletions, the purge of a closed account, and the decision on a cached refusal at the
  proxy: who may read a blob, what a deletion takes from the database and from the providers,
  that a purge ends with nothing left of the account, and that nobody is refused because of a
  stale cache entry.
\<close>

section \<open>Reads\<close>

lemma db_getUser_result:
  assumes "db_getUser E n s = (Inr u, s')"
  shows "u = find_user (px_db s) n"
  using assms db_get_result [of E "\<lambda>d. getUser d n" s] by (cases u) (auto simp: getUser_def split: option.splits)

lemma owner_rows_result:
  "owner_rows E ns s = (Inr us, s') \<Longrightarrow> us = map (find_user (px_db s)) ns \<and> quiet s s'"
proof (induction ns arbitrary: us s s')
  case Nil
  then show ?case by (simp add: return_io_def)
next
  case (Cons n ns)
  from Cons.prems obtain u s1 us' where u: "db_getUser E n s = (Inr u, s1)"
    and us: "owner_rows E ns s1 = (Inr us', s')" "us = u # us'"
    by (auto simp: return_io_def elim!: bind_io_Inr)
  have "quiet s s1" using db_get_quiet [of s E "\<lambda>d. getUser d n"] u by simp
  with Cons.IH [OF us(1)] us(2) db_getUser_result [OF u] show ?case
    by (auto simp: quiet_def)
qed

lemma openBlobStream_found:
  assumes "openBlobStream fetch reg rs = Some x"
  shows "\<exists>r \<in> set rs. \<exists>url. reg_resolve reg r = Some url \<and> fetch url = Some x"
  using assms by (induction rs) (auto split: option.splits)

text \<open>Who may read: some owner whose row allows it.\<close>

definition readable_by_owner :: "env \<Rightarrow> int \<Rightarrow> db \<Rightarrow> blob_hash \<Rightarrow> bool" where
  "readable_by_owner E now d h \<longleftrightarrow>
     (\<exists>b \<in> set (blobs d). b_hash b = h
        \<and> (\<exists>u. find_user d (b_npub b) = Some u \<and> canRead (withAccess u (en_config E) now)))"

lemma owners_readable:
  assumes ok: "db_ok d" and x: "getBlob d h = Success st x"
  shows "list_ex (\<lambda>a. case a of None \<Rightarrow> True | Some x \<Rightarrow> canRead x)
      (map (map_option (\<lambda>u. withAccess u (en_config E) now)) (map (find_user d) (bo_owners x)))
    \<longleftrightarrow> readable_by_owner E now d h"
proof -
  have own: "n \<in> set (bo_owners x) \<longleftrightarrow> (\<exists>b \<in> set (blobs d). b_hash b = h \<and> b_npub b = n)" for n
    using getBlob_owners [OF x, of n] by (auto simp: find_row_None_iff blob_key_def image_iff)
  then have "(\<exists>n \<in> set (bo_owners x). case find_user d n of None \<Rightarrow> True | Some u \<Rightarrow> canRead (withAccess u (en_config E) now))
    \<longleftrightarrow> (\<exists>b \<in> set (blobs d). b_hash b = h
      \<and> (case find_user d (b_npub b) of None \<Rightarrow> True | Some u \<Rightarrow> canRead (withAccess u (en_config E) now)))"
    by (metis (no_types, lifting))
  also have "\<dots> \<longleftrightarrow> readable_by_owner E now d h"
    unfolding readable_by_owner_def by (intro bex_cong) (auto split: option.splits dest: owner_exists [OF ok])
  finally show ?thesis
    by (simp add: list_ex_iff comp_def cong: option.case_cong)
qed

lemma getBlob_io_stream:
  assumes ok: "db_ok (px_db s)" and get: "getBlob_io E now req True s = (Inr resp, s')" and str: "rs_body resp = StreamBody h sz url"
  shows "readable_by_owner E now (px_db s) h \<and> quiet s s' \<and> hash_of_path (drop 1 (rx_path req)) = Some h
    \<and> (\<exists>b \<in> set (blobs (px_db s)). b_hash b = h \<and> b_size b = sz
        \<and> (\<exists>r \<in> set (b_replicas b). reg_resolve (px_registry s') r = Some url))
    \<and> en_reach E url \<and> h \<in> px_nodes s' url"
proof -
  obtain h' found s1 where h: "hash_of_path (drop 1 (rx_path req)) = Some h'" and f: "db_getBlob E h' s = (Inr (Some found), s1)"
    using get str by (auto simp: getBlob_io_def return_io_def respond_def elim!: bind_io_Inr split: option.splits)
  obtain st where x: "getBlob (px_db s) h' = Success st found" using db_get_result(1) [OF f] by blast
  have q1: "quiet s s1" using db_get_quiet [of s E "\<lambda>d. getBlob d h'"] f by simp
  obtain rows s2 where rows: "owner_rows E (bo_owners found) s1 = (Inr rows, s2)"
    using get str h f
    by (cases "owner_rows E (bo_owners found) s1"; cases "fst (owner_rows E (bo_owners found) s1)")
      (auto simp: getBlob_io_def bind_io_at attempt_io_def return_io_def respond_def)
  from owner_rows_result [OF rows] have r: "rows = map (find_user (px_db s)) (bo_owners found)" and q2: "quiet s1 s2"
    using q1 by (auto simp: quiet_def)
  let ?fetch = "\<lambda>url. if en_reach E url \<and> h' \<in> px_nodes s2 url then Some url else None"
  have "readable_by_owner E now (px_db s) h' \<and> s' = s2 \<and> openBlobStream ?fetch (px_registry s2) (b_replicas (bo_blob found)) = Some url
      \<and> h = h' \<and> sz = b_size (bo_blob found)"
    using get str h f rows owners_readable [OF ok x, of E now] unfolding r
    by (auto simp: getBlob_io_def bind_io_at attempt_io_def return_io_def raise_io_def respond_def respond_reason_def Let_def
        split: if_splits option.splits list.splits)
  with openBlobStream_found h getBlob_first [OF x] quiet_trans [OF q1 q2] show ?thesis
    by (fastforce split: if_splits)
qed

text \<open>
  C12. A \<open>GET /:sha256\<close> streams bytes only for a hash that some owner's row, read from the database
  and not from the cache, still allows to be read at this time; the stream comes from a provider
  among the replicas of a row of that hash which is reachable and holds the bytes, its announced
  length is the size of that row, and the database and the providers stay as they were.
\<close>

theorem read_only_if_owner_allows:
  assumes "db_ok (px_db s)" and "handleGetBlob E now req True s = (resp, s')" and "rs_body resp = StreamBody h sz url"
  shows "readable_by_owner E now (px_db s) h \<and> quiet s s' \<and> hash_of_path (drop 1 (rx_path req)) = Some h
    \<and> (\<exists>b \<in> set (blobs (px_db s)). b_hash b = h \<and> b_size b = sz
        \<and> (\<exists>r \<in> set (b_replicas b). reg_resolve (px_registry s') r = Some url))
    \<and> en_reach E url \<and> h \<in> px_nodes s' url"
proof -
  have "getBlob_io E now req True s = (Inr resp, s')"
    using assms(2,3)
    by (auto simp: handleGetBlob_def run_handler_def respond_def sendAuthError_def respond_reason_def
        split: prod.splits sum.splits px_exn.splits)
  from getBlob_io_stream [OF assms(1) this assms(3)] show ?thesis .
qed

section \<open>Calls that all succeed\<close>

definition no_faults :: "env \<Rightarrow> bool" where
  "no_faults E \<longleftrightarrow> (\<forall>i. en_fault E i = NoFault)"

abbreviation tick :: "proxy \<Rightarrow> proxy" where
  "tick s \<equiv> s\<lparr>px_calls := Suc (px_calls s)\<rparr>"

lemma db_get_ok:
  assumes "no_faults E"
  shows "f (px_db s) = Success st v \<Longrightarrow> db_get E f s = (Inr (Some v), tick s)"
    and "f (px_db s) = Failure 404 c \<Longrightarrow> db_get E f s = (Inr None, tick s)"
  using assms by (simp_all add: no_faults_def db_get_def db_call_def)

lemma db_getUser_ok: "no_faults E \<Longrightarrow> db_getUser E n s = (Inr (find_user (px_db s) n), tick s)"
  by (cases "find_user (px_db s) n") (simp_all add: db_get_ok getUser_def)

lemma owner_rows_ok:
  assumes "no_faults E"
  shows "\<exists>k. owner_rows E ns s = (Inr (map (find_user (px_db s)) ns), s\<lparr>px_calls := k\<rparr>)"
proof (induction ns arbitrary: s)
  case Nil
  show ?case by (intro exI [of _ "px_calls s"]) (simp add: return_io_def)
next
  case (Cons n ns)
  from Cons.IH [of "tick s"] obtain k where
    "owner_rows E ns (tick s) = (Inr (map (find_user (px_db s)) ns), s\<lparr>px_calls := k\<rparr>)" by auto
  with db_getUser_ok [OF assms, of n s] show ?case
    by (intro exI [of _ k]) (simp add: bind_io_at return_io_def)
qed

lemma openBlobStream_exists:
  assumes "r \<in> set rs" and "reg_resolve reg r = Some url" and "fetch url = Some x"
  shows "openBlobStream fetch reg rs \<noteq> None"
  using assms by (induction rs) (auto split: option.split)

text \<open>
  C13. When no call fails and a replica of the blob can be reached, the answer to a \<open>GET /:sha256\<close> is
  decided by the owners alone: 200 if some owner's row allows reads at this time, else 403. One
  blocked owner does not lock out the others.
\<close>

theorem read_status:
  assumes "no_faults E" and "db_ok (px_db s)" and "hash_of_path (drop 1 (rx_path req)) = Some h"
    and "getBlob (px_db s) h = Success st x" and "r \<in> set (b_replicas (bo_blob x))"
    and "reg_resolve (px_registry s) r = Some url" and "en_reach E url" and "h \<in> px_nodes s url"
  shows "rs_status (fst (handleGetBlob E now req True s)) = (if readable_by_owner E now (px_db s) h then 200 else 403)"
proof -
  have f: "db_getBlob E h s = (Inr (Some x), tick s)" using db_get_ok(1) [OF assms(1), of "\<lambda>d. getBlob d h"] assms(4) by simp
  obtain k where k: "owner_rows E (bo_owners x) (tick s) = (Inr (map (find_user (px_db s)) (bo_owners x)), s\<lparr>px_calls := k\<rparr>)"
    using owner_rows_ok [OF assms(1), of "bo_owners x" "tick s"] by auto
  obtain n ns where own: "bo_owners x = n # ns"
    using getBlob_success [OF assms(4)] by (cases "bo_owners x") (auto simp: Let_def)
  then have "n \<in> set (bo_owners x)" by simp
  then obtain b where "b \<in> set (blobs (px_db s))" "b_npub b = n"
    using getBlob_owners [OF assms(4), of n] by (auto simp: find_row_None_iff blob_key_def image_iff)
  then obtain u where u: "find_user (px_db s) n = Some u" using owner_exists [OF assms(2)] by blast
  have open_url: "openBlobStream (\<lambda>url. if en_reach E url \<and> h \<in> px_nodes s url then Some url else None)
      (px_registry s) (b_replicas (bo_blob x)) \<noteq> None"
    using assms(5-8) by (intro openBlobStream_exists) auto
  have rows: "map (find_user (px_db s)) (bo_owners x) = Some u # map (find_user (px_db s)) ns" using own u by simp
  show ?thesis
    using owners_readable [OF assms(2,4), of E now, unfolded rows] open_url
    by (auto simp: handleGetBlob_def run_handler_def getBlob_io_def assms(3) bind_io_at f attempt_io_def k [unfolded rows] Let_def return_io_def
        simp del: One_nat_def)
qed

section \<open>Deletions\<close>

text \<open>The providers lose at most the one hash.\<close>

definition nodes_lose :: "blob_hash \<Rightarrow> proxy \<Rightarrow> proxy \<Rightarrow> bool" where
  "nodes_lose h s s' \<longleftrightarrow> (\<forall>url. px_nodes s' url = px_nodes s url \<or> px_nodes s' url = px_nodes s url - {h})"

lemma nodes_lose_trans: "nodes_lose h s s' \<Longrightarrow> nodes_lose h s' s'' \<Longrightarrow> nodes_lose h s s''"
  unfolding nodes_lose_def by (metis Diff_idemp)

lemma node_delete_lose: "nodes_lose h s (node_delete E h url s)"
  by (simp add: nodes_lose_def node_delete_def Let_def split: fault.split)

lemma node_deleteBlob_lose: "nodes_lose h s (node_deleteBlob (node_delete E h) reg rs s)"
proof (induction rs arbitrary: s)
  case Nil
  show ?case by (simp add: nodes_lose_def)
next
  case (Cons r rs)
  then show ?case by (auto split: option.split intro: nodes_lose_trans node_delete_lose)
qed

lemma deleteBlob_io_ok:
  assumes "deleteBlob_io E now req s = (Inr resp, s')" and "rs_status resp = 200"
  shows "\<exists>h n r st. hash_of_path (drop 1 (rx_path req)) = Some h
    \<and> verifyAuthToken (en_prims E) (now div 1000) (rx_authorization req) ActDelete (Some h) True = Inr n
    \<and> deleteBlob h (Some n) False (px_db s) = (Success st r, px_db s')
    \<and> nodes_lose h s s' \<and> (dr_remainingOwners r \<noteq> 0 \<longrightarrow> px_nodes s' = px_nodes s)"
proof -
  obtain h where h: "hash_of_path (drop 1 (rx_path req)) = Some h"
    using assms by (auto simp: deleteBlob_io_def return_io_def split: option.splits)
  obtain n where tok: "token_io E now req ActDelete (Some h) True s = (Inr n, s)"
    "verifyAuthToken (en_prims E) (now div 1000) (rx_authorization req) ActDelete (Some h) True = Inr n"
    using assms(1) h unfolding deleteBlob_io_def by (auto elim!: bind_io_Inr dest: token_io_result)
  obtain found s1 where f: "db_getBlob E h s = (Inr (Some found), s1)"
    using assms h tok(1) by (auto simp: deleteBlob_io_def bind_io_at return_io_def elim!: bind_io_Inr split: option.splits)
  have q: "quiet s s1" using db_get_quiet [of s E "\<lambda>d. getBlob d h"] f by simp
  obtain r s2 where d: "db_deleteBlob E h (Some n) s1 = (Inr r, s2)"
    using assms h tok(1) f
    by (auto simp: deleteBlob_io_def bind_io_at return_io_def elim!: bind_io_Inr split: if_splits)
  from db_call_success [OF d [unfolded db_deleteBlob_def]] q
  obtain st where del: "deleteBlob h (Some n) False (px_db s) = (Success st r, px_db s2)" "px_nodes s2 = px_nodes s"
    by (auto simp: quiet_def)
  let ?s3 = "s2\<lparr>px_cache := access_invalidate n (px_cache s2)\<rparr>"
  have "s' = (if dr_remainingOwners r = 0 then node_deleteBlob (node_delete E h) (px_registry ?s3) (b_replicas (bo_blob found)) ?s3 else ?s3)"
    using assms h tok(1) f d
    by (auto simp: deleteBlob_io_def bind_io_at return_io_def invalidate_io_def modify_io_def nodes_delete_def split: if_splits)
  moreover have "nodes_lose h s ?s3" using del(2) by (simp add: nodes_lose_def)
  ultimately have "nodes_lose h s s' \<and> (dr_remainingOwners r \<noteq> 0 \<longrightarrow> px_nodes s' = px_nodes s) \<and> px_db s' = px_db s2"
    using del(2) node_deleteBlob_lose nodes_lose_trans by auto
  with h tok(2) del(1) show ?thesis by (intro exI [of _ h] exI [of _ n] exI [of _ r] exI [of _ st]) simp
qed

lemma auth_ok_delete: "auth_ok (deleteBlob_io E now req)"
  by (auto simp: deleteBlob_io_def db_deleteBlob_def intro!: auth_ok_bind split: option.split)

text \<open>
  C14. A \<open>DELETE /:sha256\<close> answered with 200 came with a token valid for deleting that hash. It
  removes exactly the row of the token's npub and gives its bytes back; no other row and no other
  user changes. On the providers at most that hash disappears, and while another owner
  has the blob, no provider changes.
\<close>

theorem delete_effect:
  assumes "db_ok (px_db s)" and "handleDeleteBlob E now req s = (resp, s')" and "rs_status resp = 200"
  shows "\<exists>h n. hash_of_path (drop 1 (rx_path req)) = Some h
    \<and> verifyAuthToken (en_prims E) (now div 1000) (rx_authorization req) ActDelete (Some h) True = Inr n
    \<and> (\<exists>b \<in> set (blobs (px_db s)). b_hash b = h \<and> b_npub b = n)
    \<and> blobs (px_db s') = filter (\<lambda>b. \<not> (b_hash b = h \<and> b_npub b = n)) (blobs (px_db s))
    \<and> same_entitlements (px_db s) (px_db s') \<and> db_ok (px_db s')
    \<and> nodes_lose h s s' \<and> ((\<exists>b \<in> set (blobs (px_db s')). b_hash b = h) \<longrightarrow> px_nodes s' = px_nodes s)"
proof -
  have "deleteBlob_io E now req s = (Inr resp, s')"
    by (rule run_handler_ok [OF assms(2) [unfolded handleDeleteBlob_def]])
      (use auth_ok_delete [of E now req] assms(3) in \<open>auto simp: auth_ok_def\<close>)
  from deleteBlob_io_ok [OF this assms(3)] obtain h n r st where
    hn: "hash_of_path (drop 1 (rx_path req)) = Some h"
      "verifyAuthToken (en_prims E) (now div 1000) (rx_authorization req) ActDelete (Some h) True = Inr n"
    and del: "deleteBlob h (Some n) False (px_db s) = (Success st r, px_db s')"
    and nodes: "nodes_lose h s s'" "dr_remainingOwners r \<noteq> 0 \<longrightarrow> px_nodes s' = px_nodes s" by blast
  have "dr_remainingOwners r = length (filter (\<lambda>b. b_hash b = h) (blobs (px_db s')))"
    "\<exists>b \<in> set (blobs (px_db s)). b_hash b = h \<and> b_npub b = n"
    using deleteBlob_success [OF del] by auto
  with hn nodes deleteBlob_blobs [OF assms(1) del] show ?thesis
    by (intro exI [of _ h] exI [of _ n]) (auto simp: filter_empty_conv)
qed

section \<open>The purge of an account\<close>

text \<open>What a purge may do to the providers: only hashes of removed rows without another owner disappear.\<close>

definition nodes_keep :: "(blob_hash \<Rightarrow> bool) \<Rightarrow> proxy \<Rightarrow> proxy \<Rightarrow> bool" where
  "nodes_keep K s s' \<longleftrightarrow> (\<forall>url. px_nodes s' url \<subseteq> px_nodes s url \<and> (\<forall>h \<in> px_nodes s url. K h \<longrightarrow> h \<in> px_nodes s' url))"

lemma nodes_keep_refl [simp]: "px_nodes s' = px_nodes s \<Longrightarrow> nodes_keep K s s'"
  by (simp add: nodes_keep_def)

lemma nodes_keep_trans: "nodes_keep K s s' \<Longrightarrow> nodes_keep K s' s'' \<Longrightarrow> nodes_keep K s s''"
  unfolding nodes_keep_def by blast

lemma nodes_lose_keep: "nodes_lose h s s' \<Longrightarrow> \<not> K h \<Longrightarrow> nodes_keep K s s'"
  unfolding nodes_lose_def nodes_keep_def by (metis Diff_iff Diff_subset order_refl singletonD)

text \<open>What is left of the table of blobs when an account is purged.\<close>

abbreviation others :: "npub \<Rightarrow> db \<Rightarrow> Blob list" where
  "others n d \<equiv> filter (\<lambda>b. b_npub b \<noteq> n) (blobs d)"

abbreviation shared :: "npub \<Rightarrow> db \<Rightarrow> blob_hash \<Rightarrow> bool" where
  "shared n d h \<equiv> \<exists>b \<in> set (others n d). b_hash b = h"

lemma delete_owned:
  assumes "db_ok d" and "sizes_ok d" and "b \<in> set (blobs d)" and "b_npub b \<noteq> []"
  shows "\<exists>r. deleteBlob (b_hash b) (Some (b_npub b)) False d = (Success 200 r, drop_blob b d)
    \<and> dr_remainingOwners r = length (filter (\<lambda>x. b_hash x = b_hash b) (blobs (drop_blob b d)))"
proof -
  obtain u where u: "find_user d (b_npub b) = Some u" using owner_exists [OF assms(1,3)] by blast
  have "find_blob d (b_hash b) (b_npub b) = Some b"
    using find_row_unique [OF db_okD(2) [OF assms(1)] assms(3)] by (simp add: blob_key_def)
  from deleteBlob_one [OF assms(1,4) this u delete_in_range [OF assms(1-3) u]] show ?thesis by simp
qed

lemma db_deleteBlob_ok:
  assumes "no_faults E" and "deleteBlob h (Some n) False (px_db s) = (Success st r, d)"
  shows "db_deleteBlob E h (Some n) s = (Inr r, tick s\<lparr>px_db := d\<rparr>)"
  using assms by (simp add: no_faults_def db_deleteBlob_def db_call_def)

definition purge_state :: "npub \<Rightarrow> proxy \<Rightarrow> proxy \<Rightarrow> bool" where
  "purge_state n s s' \<longleftrightarrow> db_ok (px_db s') \<and> sizes_ok (px_db s') \<and> others n (px_db s') = others n (px_db s)
     \<and> same_entitlements (px_db s) (px_db s') \<and> nodes_keep (shared n (px_db s)) s s'"

lemma purge_state_trans: "purge_state n s s' \<Longrightarrow> purge_state n s' s'' \<Longrightarrow> purge_state n s s''"
  by (auto simp: purge_state_def intro: nodes_keep_trans same_entitlements_trans)

lemma purge_row:
  assumes nf: "no_faults E" and ok: "db_ok (px_db s)" "sizes_ok (px_db s)" and b: "b \<in> set (blobs (px_db s))" "b_npub b = n" "n \<noteq> []"
  shows "\<exists>s'. (\<forall>bs p. purge_batch E n (b # bs) p s = purge_batch E n bs (p + 1) s') \<and> purge_state n s s'
    \<and> blobs (px_db s') = filter (\<lambda>x. x \<noteq> b) (blobs (px_db s))"
proof -
  let ?d = "drop_blob b (px_db s)"
  obtain r where r: "deleteBlob (b_hash b) (Some n) False (px_db s) = (Success 200 r, ?d)"
    and rem: "dr_remainingOwners r = length (filter (\<lambda>x. b_hash x = b_hash b) (blobs ?d))"
    using delete_owned [OF ok b(1)] b(2,3) by auto
  let ?s1 = "tick s\<lparr>px_db := ?d\<rparr>"
  let ?s2 = "if dr_remainingOwners r = 0 then node_deleteBlob (node_delete E (b_hash b)) (px_registry ?s1) (b_replicas b) ?s1 else ?s1"
  have step: "purge_batch E n (b # bs) p s = purge_batch E n bs (p + 1) ?s2" for bs p
    using db_deleteBlob_ok [OF nf r] by (simp add: bind_io_at nodes_delete_def return_io_def)
  have key: "blob_key x = blob_key b \<longleftrightarrow> x = b" if "x \<in> set (blobs (px_db s))" for x
    using db_okD(2) [OF ok(1)] that b(1) by (auto simp: distinct_map dest: inj_onD)
  have bl: "blobs ?d = filter (\<lambda>x. x \<noteq> b) (blobs (px_db s))"
    unfolding drop_blob_def delete_row_def by (auto intro!: filter_cong simp: key)
  have ent: "db_ok ?d" "same_entitlements (px_db s) ?d" using deleteBlob_blobs [OF ok(1) r] by auto
  have oth: "others n ?d = others n (px_db s)"
    unfolding bl using b(2) by (auto intro: filter_cong)
  have "nodes_keep (shared n (px_db s)) s ?s2"
  proof (cases "dr_remainingOwners r = 0")
    case True
    then have "\<not> shared n (px_db s) (b_hash b)"
      using rem b(2) unfolding oth [symmetric] by (auto simp: filter_empty_conv)
    moreover have "nodes_lose (b_hash b) s (node_deleteBlob (node_delete E (b_hash b)) (px_registry ?s1) (b_replicas b) ?s1)"
      by (rule nodes_lose_trans [OF _ node_deleteBlob_lose]) (simp add: nodes_lose_def)
    ultimately show ?thesis using True nodes_lose_keep by simp
  qed simp
  moreover have "px_db ?s2 = ?d" by simp
  moreover have "sizes_ok ?d" using ok(2) by (simp add: sizes_ok_def bl)
  ultimately have "purge_state n s ?s2" using ent oth by (simp add: purge_state_def)
  with step bl show ?thesis by (intro exI [of _ ?s2]) simp
qed

lemma purge_batch_ok:
  assumes "no_faults E" and "n \<noteq> []"
  shows "db_ok (px_db s) \<Longrightarrow> sizes_ok (px_db s) \<Longrightarrow> set bs \<subseteq> set (blobs (px_db s)) \<Longrightarrow> \<forall>b \<in> set bs. b_npub b = n
    \<Longrightarrow> distinct bs \<Longrightarrow>
    \<exists>s'. purge_batch E n bs p s = (Inr (p + length bs), s') \<and> purge_state n s s'
      \<and> blobs (px_db s') = filter (\<lambda>x. x \<notin> set bs) (blobs (px_db s))"
proof (induction bs arbitrary: p s)
  case Nil
  have "same_entitlements (px_db s) (px_db s)" by (simp add: same_entitlements_def)
  with Nil show ?case by (simp add: return_io_def purge_state_def)
next
  case (Cons b bs)
  obtain s1 where s1: "\<forall>bs p. purge_batch E n (b # bs) p s = purge_batch E n bs (p + 1) s1" "purge_state n s s1"
    "blobs (px_db s1) = filter (\<lambda>x. x \<noteq> b) (blobs (px_db s))"
    using purge_row [OF assms(1) Cons.prems(1,2), of b n] Cons.prems(3,4) assms(2) by auto
  have "db_ok (px_db s1)" "sizes_ok (px_db s1)" using s1(2) by (simp_all add: purge_state_def)
  moreover have "set bs \<subseteq> set (blobs (px_db s1))" using Cons.prems(3,5) s1(3) by auto
  ultimately obtain s' where s': "purge_batch E n bs (p + 1) s1 = (Inr (p + 1 + length bs), s')" "purge_state n s1 s'"
    "blobs (px_db s') = filter (\<lambda>x. x \<notin> set bs) (blobs (px_db s1))"
    using Cons.IH [of s1 "p + 1"] Cons.prems(4,5) by auto
  have "blobs (px_db s') = filter (\<lambda>x. x \<notin> set (b # bs)) (blobs (px_db s))"
    unfolding s'(3) s1(3) by (auto intro: filter_cong)
  moreover have "purge_batch E n (b # bs) p s = (Inr (p + length (b # bs)), s')"
    using s1(1) s'(1) by simp
  ultimately show ?case using purge_state_trans [OF s1(2) s'(2)] by blast
qed

lemma num_query_nat: "num_query (Num (of_nat k)) = (if k < 10 ^ 21 then show_nat k else ''NaN'')"
  by (simp add: num_query_def rat_is_int_def)

lemma first_batch:
  assumes "no_faults E"
  shows "\<exists>batch. db_listUserBlobs E n (Num 1) (Num 100) s = (Inr batch, tick s)
    \<and> items batch = take 100 (sort_key (\<lambda>b. - b_createdAt b) (filter (\<lambda>b. b_npub b = n) (blobs (px_db s))))"
proof -
  have "num_query (Num 1) = show_nat 1" "num_query (Num 100) = show_nat 100"
    using num_query_nat [of 1] num_query_nat [of 100] by simp_all
  then have "page_params (Num 1) (Num 100) = page_query 1 100"
    by (intro ext) (simp add: page_params_def page_query_def)
  then have "parsePagination (page_params (Num 1) (Num 100)) = \<lparr>pg_page = 1, pg_pageSize = 100, pg_skip = 0, pg_take = 100\<rparr>"
    using parsePagination_query [of 1 100] by (simp add: MAX_PAGE_SIZE_def)
  then show ?thesis
    using assms by (simp add: db_listUserBlobs_def db_call_def no_faults_def listUserBlobs_def find_page_def paginated_def page_rows_def Let_def)
qed

lemma length_minus:
  assumes "distinct xs" and "distinct ys" and "set ys \<subseteq> set xs"
  shows "length xs = length ys + length (filter (\<lambda>x. x \<notin> set ys) xs)"
proof -
  have "set (filter (\<lambda>x. x \<in> set ys) xs) = set ys" using assms(3) by auto
  then have "length (filter (\<lambda>x. x \<in> set ys) xs) = length ys"
    using assms(1,2) by (metis distinct_card distinct_filter)
  then show ?thesis using sum_length_filter_compl [of "\<lambda>x. x \<in> set ys" xs] by simp
qed

lemma purge_loop_ok:
  assumes "no_faults E" and "n \<noteq> []" and "db_ok (px_db s)" and "sizes_ok (px_db s)"
  shows "\<exists>s'. purge_loop E n p s = (Inr (p + length (filter (\<lambda>b. b_npub b = n) (blobs (px_db s)))), s')
    \<and> purge_state n s s' \<and> blobs (px_db s') = others n (px_db s)"
  using assms(3,4)
proof (induction "length (blobs (px_db s))" arbitrary: p s rule: less_induct)
  case less
  let ?mine = "\<lambda>d. filter (\<lambda>b. b_npub b = n) (blobs d)"
  obtain batch where batch: "db_listUserBlobs E n (Num 1) (Num 100) s = (Inr batch, tick s)"
    and items: "items batch = take 100 (sort_key (\<lambda>b. - b_createdAt b) (?mine (px_db s)))"
    using first_batch [OF assms(1)] by blast
  show ?case
  proof (cases "items batch = []")
    case True
    then have "?mine (px_db s) = []" using items by (metis length_0_conv length_sort take_eq_Nil zero_neq_numeral)
    then have none: "?mine (px_db s) = []" "others n (px_db s) = blobs (px_db s)"
      by (auto simp: filter_empty_conv filter_id_conv)
    have "purge_state n s (tick s)"
      using less.prems by (simp add: purge_state_def same_entitlements_def)
    with none True batch show ?thesis by (subst purge_loop.simps) simp
  next
    case False
    have sub: "set (items batch) \<subseteq> set (?mine (px_db s))" unfolding items by (metis set_sort set_take_subset)
    have "distinct (blobs (px_db s))" using db_okD(2) [OF less.prems(1)] by (simp add: distinct_map)
    then have dist: "distinct (items batch)" unfolding items by (simp add: distinct_take)
    obtain s2 where s2: "purge_batch E n (items batch) p (tick s) = (Inr (p + length (items batch)), s2)"
      and st: "purge_state n (tick s) s2"
      and bl: "blobs (px_db s2) = filter (\<lambda>x. x \<notin> set (items batch)) (blobs (px_db s))"
      using purge_batch_ok [OF assms(1,2), of "tick s" "items batch" p] less.prems sub dist by fastforce
    have ok2: "db_ok (px_db s2)" "sizes_ok (px_db s2)" using st by (simp_all add: purge_state_def)
    have len: "length (filter P (blobs (px_db s))) = length (items batch) + length (filter P (blobs (px_db s2)))"
      if "\<forall>x \<in> set (items batch). P x" for P
      unfolding bl using length_minus [of "filter P (blobs (px_db s))" "items batch"] \<open>distinct (blobs (px_db s))\<close> dist sub that
      by (auto simp: conj_commute)
    have shorter: "length (blobs (px_db s2)) < length (blobs (px_db s))"
      using len [of "\<lambda>_. True"] False by simp
    obtain s3 where s3: "purge_loop E n (p + length (items batch)) s2 = (Inr (p + length (items batch) + length (?mine (px_db s2))), s3)"
      "purge_state n s2 s3" "blobs (px_db s3) = others n (px_db s2)"
      using less.hyps [OF shorter ok2] by blast
    have "length (?mine (px_db s)) = length (items batch) + length (?mine (px_db s2))"
      using len [of "\<lambda>b. b_npub b = n"] sub by auto
    moreover have "purge_state n s s3"
      using purge_state_trans [OF st s3(2)] by (simp add: purge_state_def nodes_keep_def)
    moreover have "others n (px_db s2) = others n (px_db s)" using st by (simp add: purge_state_def)
    ultimately show ?thesis
      using False batch s2 s3 by (subst purge_loop.simps) simp
  qed
qed


section \<open>Refusals are decided on a fresh row\<close>

lemma loadAccess_fresh_ok:
  assumes "no_faults E" and "find_user (px_db s) n = Some u"
  shows "\<exists>s'. loadAccess E now n True s = (Inr (u, withAccess u (en_config E) now), s')"
  using assms
  by (auto simp: loadAccess_def bind_io_at invalidate_io_def modify_io_def db_getUser_ok return_io_def Let_def)

lemma cached_user_ok: "no_faults E \<Longrightarrow> \<exists>u s'. cached_user E now n s = (Inr u, s') \<and> px_db s' = px_db s"
  by (auto simp: cached_user_def access_get_def db_getUser_ok split: option.split)


section \<open>The small system with a stored blob\<close>

definition held_hash :: blob_hash where
  "held_hash = replicate 64 CHR ''a''"

definition held_db :: db where
  "held_db = empty_db\<lparr>users := [small_user\<lparr>u_usedStorage := 3\<rparr>],
     blobs := [\<lparr>b_hash = held_hash, b_npub = ''npub1pk'', b_size = 3, b_replicas = [''npub1node''], b_createdAt = 7\<rparr>],
     serviceAccounts := [\<lparr>sa_npub = ''npub1pk'', sa_label = None, sa_enabled = True, sa_createdAt = 0\<rparr>]\<rparr>"

definition held_proxy :: proxy where
  "held_proxy = small_proxy\<lparr>px_db := held_db, px_nodes := (\<lambda>_. {})(''http://n1'' := {held_hash})\<rparr>"

definition delete_token :: NostrEvent where
  "delete_token = \<lparr>ev_id = ''t2'', ev_pubkey = ''pk'', ev_created_at = Num 1000, ev_kind = Num 24242,
     ev_tags = [[''t'', ''delete''], [''expiration'', ''2000''], [''x'', held_hash]], ev_content = [], ev_sig = ''s''\<rparr>"

definition held_env :: env where
  "held_env = small_env\<lparr>en_prims := sample_prims\<lparr>p_parse := (\<lambda>s. if s = ''t'' then Ev delete_token else BadJson)\<rparr>\<rparr>"

definition held_request :: PxRequest where
  "held_request = (small_request NoBody)\<lparr>rx_path := CHR ''/'' # held_hash\<rparr>"

lemma held_ok: "db_ok held_db" "sizes_ok held_db"
  by (auto simp: db_ok_def sizes_ok_def held_db_def empty_db_def small_user_def used_by_def in_int8_def)

lemma held_path: "hash_of_path (drop 1 (rx_path held_request)) = Some held_hash"
proof -
  have "hash_of_path held_hash = Some held_hash" by code_simp
  then show ?thesis by (simp add: held_request_def)
qed

lemma held_no_faults: "no_faults held_env" "no_faults small_env"
  by (simp_all add: no_faults_def held_env_def small_env_def)

lemma held_access: "withAccess (small_user\<lparr>u_usedStorage := 3\<rparr>) DEFAULT_LIFECYCLE_CONFIG 1500000 = active_access"
  by code_simp

lemma held_readable: "readable_by_owner held_env 1500000 held_db held_hash"
  using held_access
  by (simp add: readable_by_owner_def held_db_def empty_db_def held_env_def small_env_def small_user_def active_access_def)

lemma held_get: "getBlob held_db held_hash = Success 200 \<lparr>bo_blob = hd (blobs held_db), bo_owners = [''npub1pk'']\<rparr>"
  by (simp add: getBlob_def held_db_def)

lemma held_resolve: "reg_resolve (px_registry held_proxy) ''npub1node'' = Some ''http://n1''"
proof -
  have "\<not> is_raw_url ''npub1node''" by code_simp
  then show ?thesis by (simp add: reg_resolve_def held_proxy_def small_proxy_def)
qed

theorem read_status_witness:
  "rs_status (fst (handleGetBlob held_env 1500000 held_request True held_proxy)) = 200"
  using read_status [OF held_no_faults(1), of held_proxy held_request held_hash 200
      "\<lparr>bo_blob = hd (blobs held_db), bo_owners = [''npub1pk'']\<rparr>" "''npub1node''" "''http://n1''" 1500000]
    held_path held_ok(1) held_get held_resolve held_readable
  by (simp add: held_proxy_def held_db_def held_env_def small_env_def)

lemma held_read:
  "\<exists>resp s'. handleGetBlob held_env 1500000 held_request True held_proxy = (resp, s') \<and> rs_body resp = StreamBody held_hash 3 ''http://n1''"
proof -
  have db: "px_db held_proxy = held_db" by (simp add: held_proxy_def)
  have f: "db_getBlob held_env held_hash held_proxy = (Inr (Some \<lparr>bo_blob = hd (blobs held_db), bo_owners = [''npub1pk'']\<rparr>), tick held_proxy)"
    using db_get_ok(1) [OF held_no_faults(1), of "\<lambda>d. getBlob d held_hash" held_proxy] held_get by (simp add: db)
  have u: "find_user held_db ''npub1pk'' = Some (small_user\<lparr>u_usedStorage := 3\<rparr>)"
    by (simp add: held_db_def small_user_def)
  have o: "owner_rows held_env [''npub1pk''] (tick held_proxy) = (Inr [Some (small_user\<lparr>u_usedStorage := 3\<rparr>)], tick (tick held_proxy))"
    using db_getUser_ok [OF held_no_faults(1), of "''npub1pk''" "tick held_proxy"] u db by (simp add: bind_io_at return_io_def)
  have cfg: "en_config held_env = DEFAULT_LIFECYCLE_CONFIG" "en_reach held_env u" for u by (simp_all add: held_env_def small_env_def)
  have reg: "reg_resolve (px_registry (tick (tick held_proxy))) ''npub1node'' = Some ''http://n1''" using held_resolve by simp
  have row: "b_replicas (hd (blobs held_db)) = [''npub1node'']" "b_size (hd (blobs held_db)) = 3" by (simp_all add: held_db_def)
  have bytes: "held_hash \<in> px_nodes held_proxy ''http://n1''" by (simp add: held_proxy_def)
  show ?thesis
    unfolding handleGetBlob_def run_handler_def getBlob_io_def held_path
    using reg by (simp add: bind_io_at f attempt_io_def o [simplified] cfg held_access active_access_def row bytes respond_def Let_def)
qed

theorem read_only_if_owner_allows_witness:
  "\<exists>resp s'. handleGetBlob held_env 1500000 held_request True held_proxy = (resp, s') \<and> held_hash \<in> px_nodes s' ''http://n1''
     \<and> readable_by_owner held_env 1500000 held_db held_hash"
proof -
  obtain resp s' where r: "handleGetBlob held_env 1500000 held_request True held_proxy = (resp, s')"
    and b: "rs_body resp = StreamBody held_hash 3 ''http://n1''" using held_read by blast
  from read_only_if_owner_allows [OF _ r b] held_ok r show ?thesis by (simp add: held_proxy_def)
qed

lemma held_token: "token_io held_env 1500000 held_request ActDelete (Some held_hash) True s = (Inr ''npub1pk'', s)"
proof -
  have f: "strip_nostr ''Nostr t'' = ''t''" "to_lower held_hash = held_hash" and "all_digits ''2000''" "decimal_nat ''2000'' = 2000"
    by code_simp+
  then have "js_Number ''2000'' = Num 2000" by (simp add: js_Number_digits)
  note f = f this
  have "verifyAuthToken (en_prims held_env) 1500 (Some ''Nostr t'') ActDelete (Some held_hash) True = Inr ''npub1pk''"
    by (simp add: verifyAuthToken_def parseAuthHeader_def held_env_def sample_prims_def delete_token_def f
        valid_expiration_def scope_error_def x_tags_def Let_def)
  then show ?thesis by (simp add: token_io_def held_request_def small_request_def return_io_def)
qed

lemma held_delete: "rs_status (fst (handleDeleteBlob held_env 1500000 held_request held_proxy)) = 200"
proof -
  let ?b = "hd (blobs held_db)"
  have db: "px_db held_proxy = held_db" by (simp add: held_proxy_def)
  have f: "db_getBlob held_env held_hash held_proxy = (Inr (Some \<lparr>bo_blob = ?b, bo_owners = [''npub1pk'']\<rparr>), tick held_proxy)"
    using db_get_ok(1) [OF held_no_faults(1), of "\<lambda>d. getBlob d held_hash" held_proxy] held_get by (simp add: db)
  have "?b \<in> set (blobs held_db)" "b_npub ?b = ''npub1pk''" "b_hash ?b = held_hash" by (simp_all add: held_db_def)
  then obtain r where "deleteBlob held_hash (Some ''npub1pk'') False held_db = (Success 200 r, drop_blob ?b held_db)"
    using delete_owned [OF held_ok] by fastforce
  then have d: "\<exists>r s'. db_deleteBlob held_env held_hash (Some ''npub1pk'') (tick held_proxy) = (Inr r, s')"
    using db_deleteBlob_ok [OF held_no_faults(1), of held_hash "''npub1pk''" "tick held_proxy"] db by auto
  then show ?thesis
    unfolding handleDeleteBlob_def run_handler_def deleteBlob_io_def held_path
    by (auto simp: bind_io_at held_token f invalidate_io_def modify_io_def nodes_delete_def return_io_def)
qed

theorem delete_effect_witness:
  "\<exists>resp s'. handleDeleteBlob held_env 1500000 held_request held_proxy = (resp, s') \<and> rs_status resp = 200 \<and> blobs (px_db s') = []"
proof -
  obtain resp s' where r: "handleDeleteBlob held_env 1500000 held_request held_proxy = (resp, s')" by fastforce
  then have st: "rs_status resp = 200" using held_delete by simp
  have "db_ok (px_db held_proxy)" using held_ok by (simp add: held_proxy_def)
  from delete_effect [OF this r st] r st show ?thesis
    by (auto simp: held_proxy_def held_db_def)
qed



end
