(* ===== verification/Inflight.thy ===== *)
theory Inflight
  imports Proxy_Access
begin

text \<open>
  The cap on upload bytes in flight, \<open>uploadGate\<close> in \<open>proxy/blossom/src/index.ts\<close>: requests that pass
  the gate reserve their announced length, and each gives it back when its response is closed or
  finished, whichever comes first. Requests interleave in any order.
\<close>

section \<open>The state machine\<close>

text \<open>The proxy, and for every request that passed the gate its length and its \<open>released\<close> flag.\<close>

record inflight =
  if_proxy :: proxy
  if_requests :: "(int \<times> bool) list"

text \<open>The listener for \<open>close\<close> and \<open>finish\<close> of request i.\<close>

definition on_end :: "nat \<Rightarrow> inflight \<Rightarrow> inflight" where
  "on_end i s =
     (case if_requests s ! i of (len, released) \<Rightarrow>
        if released then s
        else s\<lparr>if_requests := (if_requests s)[i := (len, True)], if_proxy := release len (if_proxy s)\<rparr>)"

inductive inflight_step :: "env \<Rightarrow> inflight \<Rightarrow> inflight \<Rightarrow> bool" for E where
  gate_passed: "uploadGate E now req (if_proxy s) = (Inr len, p) \<Longrightarrow>
     inflight_step E s (s\<lparr>if_proxy := p, if_requests := if_requests s @ [(len, False)]\<rparr>)"
| gate_refused: "uploadGate E now req (if_proxy s) = (Inl resp, p) \<Longrightarrow> inflight_step E s (s\<lparr>if_proxy := p\<rparr>)"
| ended: "i < length (if_requests s) \<Longrightarrow> inflight_step E s (on_end i s)"
| handler: "px_inflight p = px_inflight (if_proxy s) \<Longrightarrow> inflight_step E s (s\<lparr>if_proxy := p\<rparr>)"

section \<open>Invariant\<close>

definition reserved :: "(int \<times> bool) list \<Rightarrow> int" where
  "reserved rs = sum_list (map fst (filter (\<lambda>r. \<not> snd r) rs))"

definition inflight_inv :: "env \<Rightarrow> inflight \<Rightarrow> bool" where
  "inflight_inv E s \<longleftrightarrow> px_inflight (if_proxy s) = reserved (if_requests s)
     \<and> (\<forall>r \<in> set (if_requests s). 0 < fst r \<and> fst r \<le> MAX_UPLOAD_BYTES)
     \<and> \<not> num_lt (en_maxInflight E) (num_of_int (px_inflight (if_proxy s)))"

definition inflight_init :: "env \<Rightarrow> inflight \<Rightarrow> bool" where
  "inflight_init E s \<longleftrightarrow> px_inflight (if_proxy s) = 0 \<and> if_requests s = [] \<and> num_lt (Num 0) (en_maxInflight E)"

lemma uploadGate_io_inflight:
  assumes "uploadGate_io E now req s = (r, s')"
  shows "px_inflight s' = px_inflight s + (case r of Inr (Inr len) \<Rightarrow> len | _ \<Rightarrow> 0)
    \<and> (\<forall>len. r = Inr (Inr len) \<longrightarrow> 0 < len \<and> len \<le> MAX_UPLOAD_BYTES
         \<and> \<not> num_lt (en_maxInflight E) (num_of_int (px_inflight s + len)))"
proof -
  obtain tk where tk: "token_io E now req ActUpload None True s = (tk, s)"
    using token_io_state [of E now req ActUpload None True s] by (metis prod.collapse)
  show ?thesis
  proof (cases tk)
    case (Inl e)
    with assms tk show ?thesis by (auto simp: uploadGate_io_def bind_io_at)
  next
    case (Inr n)
    obtain q s1 where q: "checked_access E now n s = (q, s1)" by fastforce
    have same: "px_inflight s1 = px_inflight s" using checked_access_quiet [of s E now n] q by (simp add: quiet_def)
    have range: "0 < num_to_int x \<and> num_to_int x \<le> MAX_UPLOAD_BYTES"
      if "num_is_integer x" "\<not> num_le x (Num 0)" "\<not> num_lt (num_of_int MAX_UPLOAD_BYTES) x" for x
      using that by (cases x) (auto simp: rat_is_int_def floor_le_iff)
    show ?thesis
      using assms tk Inr q same
      by (cases q) (auto simp: uploadGate_io_def bind_io_at return_io_def Let_def range split: if_splits)
  qed
qed
lemma uploadGate_inflight:
  "uploadGate E now req s = (Inr len, s') \<Longrightarrow> px_inflight s' = px_inflight s + len \<and> 0 < len \<and> len \<le> MAX_UPLOAD_BYTES
     \<and> \<not> num_lt (en_maxInflight E) (num_of_int (px_inflight s + len))"
  "uploadGate E now req s = (Inl resp, s') \<Longrightarrow> px_inflight s' = px_inflight s"
  by (auto simp: uploadGate_def Let_def split: prod.splits sum.splits if_splits px_exn.splits
      dest: uploadGate_io_inflight)

lemma reserved_snoc [simp]: "reserved (rs @ [(len, False)]) = reserved rs + len"
  by (simp add: reserved_def)

lemma reserved_end:
  "i < length rs \<Longrightarrow> rs ! i = (len, False) \<Longrightarrow> reserved (rs[i := (len, True)]) = reserved rs - len"
  by (induction rs arbitrary: i) (auto simp: reserved_def nth_Cons split: nat.splits)

lemma num_lt_less: "\<not> num_lt m (num_of_int a) \<Longrightarrow> b \<le> a \<Longrightarrow> \<not> num_lt m (num_of_int b)"
  by (cases m) (auto simp: not_less intro: order_trans)

lemma on_end_inv:
  assumes inv: "inflight_inv E s" and i: "i < length (if_requests s)"
  shows "inflight_inv E (on_end i s)"
proof (cases "if_requests s ! i")
  case (Pair len released)
  have r: "0 < len \<and> len \<le> MAX_UPLOAD_BYTES"
    using inv nth_mem [OF i] Pair by (force simp: inflight_inv_def)
  have cap: "\<not> num_lt (en_maxInflight E) (num_of_int (px_inflight (if_proxy s)))"
    using inv unfolding inflight_inv_def by blast
  have "set ((if_requests s)[i := (len, True)]) \<subseteq> insert (len, True) (set (if_requests s))"
    by (rule set_update_subset_insert)
  moreover have "\<not> num_lt (en_maxInflight E) (num_of_int (px_inflight (if_proxy s) - len))"
    by (rule num_lt_less [OF cap]) (use r in simp)
  ultimately show ?thesis
    using inv Pair r reserved_end [OF i] by (auto simp: on_end_def inflight_inv_def release_def)
qed

interpretation inflight: invariant_system "inflight_init E" "inflight_step E" "inflight_inv E" for E
proof
  fix s assume "inflight_init E s"
  then show "inflight_inv E s"
    by (cases "en_maxInflight E") (auto simp: inflight_init_def inflight_inv_def reserved_def)
next
  fix s t assume "inflight_step E s t" and "inflight_inv E s"
  then show "inflight_inv E t"
  proof (induction rule: inflight_step.induct)
    case (gate_passed now req s len p)
    then show ?case using uploadGate_inflight(1) [OF gate_passed.hyps] by (auto simp: inflight_inv_def)
  next
    case (gate_refused now req s resp p)
    then show ?case using uploadGate_inflight(2) [OF gate_refused.hyps] by (auto simp: inflight_inv_def)
  next
    case (ended i s)
    then show ?case by (intro on_end_inv)
  next
    case (handler p s)
    then show ?case by (auto simp: inflight_inv_def)
  qed
qed

lemma max_inflight_positive: "num_lt (Num 0) (max_inflight v)"
  by (simp add: max_inflight_def Let_def split: option.split)

text \<open>
  C17. However uploads and the ends of their responses interleave, the in-flight counter is the sum of
  the lengths of the requests that passed the gate and have not ended: it is never negative, never
  above the configured cap, a second end event of a request does not give its bytes back twice, and
  the counter is zero again when all requests have ended.
\<close>

theorem inflight_bounded:
  assumes "en_maxInflight E = max_inflight v" and "px_inflight p = 0"
    and "(inflight_step E)\<^sup>*\<^sup>* \<lparr>if_proxy = p, if_requests = []\<rparr> s"
  shows "px_inflight (if_proxy s) = reserved (if_requests s) \<and> 0 \<le> px_inflight (if_proxy s)
    \<and> \<not> num_lt (max_inflight v) (num_of_int (px_inflight (if_proxy s)))
    \<and> (list_all snd (if_requests s) \<longrightarrow> px_inflight (if_proxy s) = 0)"
proof -
  have "inflight_init E \<lparr>if_proxy = p, if_requests = []\<rparr>"
    using assms(1,2) max_inflight_positive by (simp add: inflight_init_def)
  then have inv: "inflight_inv E s" by (rule inflight.reachable_inv [OF _ assms(3)])
  moreover have "0 \<le> reserved (if_requests s)"
    unfolding reserved_def using inv by (intro sum_list_nonneg) (force simp: inflight_inv_def)
  moreover have "list_all snd (if_requests s) \<Longrightarrow> reserved (if_requests s) = 0"
    by (simp add: reserved_def list_all_iff)
  ultimately show ?thesis using assms(1) by (auto simp: inflight_inv_def)
qed

lemma sample_token_unscoped:
  "verifyAuthToken token_prims 1500 (Some ''Nostr t'') ActUpload None True = Inr ''npub1pk''"
proof -
  have f: "strip_nostr ''Nostr t'' = ''t''" and "all_digits ''2000''" "decimal_nat ''2000'' = 2000"
    by code_simp+
  then have "js_Number ''2000'' = Num 2000" by (simp add: js_Number_digits)
  with f show ?thesis
    by (simp add: verifyAuthToken_def parseAuthHeader_def token_prims_def sample_prims_def sample_token_def
        valid_expiration_def scope_error_def x_tags_def Let_def)
qed

lemma small_gate:
  "\<exists>p. uploadGate (small_env\<lparr>en_maxInflight := max_inflight None\<rparr>) 1500000 ((small_request NoBody)\<lparr>rx_contentLength := HStr ''3''\<rparr>) small_proxy
     = (Inr 3, p)"
proof -
  let ?E = "small_env\<lparr>en_maxInflight := max_inflight None\<rparr>" and ?r = "(small_request NoBody)\<lparr>rx_contentLength := HStr ''3''\<rparr>"
  obtain ok bs where lim: "rl_hit RATE_WINDOW_MS 30 1500000 (clientIp None None) [] = (ok, bs)" by fastforce
  then have ok: "ok" by (auto simp: rl_hit_def)
  let ?s = "small_proxy\<lparr>px_uploadLimiter := bs\<rparr>"
  have u: "db_getUser ?E ''npub1pk'' ?s = (Inr (Some small_user), tick ?s)"
    by (simp add: db_get_def db_call_def small_env_def getUser_def small_proxy_def small_db_def small_user_def)
  have cfg: "en_config ?E = DEFAULT_LIFECYCLE_CONFIG" "en_ttl ?E = 15000" "en_maxInflight ?E = Num (8 * 1024 * 1024 * 1024)"
    by (simp_all add: small_env_def max_inflight_def)
  have c: "\<exists>s'. checked_access ?E 1500000 ''npub1pk'' ?s = (Inr (small_user, active_access), s') \<and> px_inflight s' = 0"
    using small_access u
    by (simp add: checked_access_def loadAccess_def cached_user_def cache_hit_def access_get_def loadAccessForDenialCheck_def
        bind_io_at cfg small_proxy_def return_io_def active_access_def)
  have "all_digits ''3''" "decimal_nat ''3'' = 3" by code_simp+
  then have n: "js_Number ''3'' = Num 3" by (simp add: js_Number_digits)
  have t: "token_io ?E 1500000 ?r ActUpload None True ?s = (Inr ''npub1pk'', ?s)"
    using sample_token_unscoped by (simp add: token_io_def small_env_def small_request_def return_io_def)
  obtain s' where s': "checked_access ?E 1500000 ''npub1pk'' ?s = (Inr (small_user, active_access), s')" "px_inflight s' = 0"
    using c by blast
  have "uploadGate_io ?E 1500000 ?r ?s = (Inr (Inr 3), s'\<lparr>px_inflight := 3\<rparr>)"
    unfolding uploadGate_io_def bind_io_at [of "token_io ?E 1500000 ?r ActUpload None True", OF t]
    by (simp add: header_raw_def n rat_is_int_def MAX_UPLOAD_BYTES_def bind_io_at s' active_access_def exceeds_quota_def small_user_def
        Let_def cfg)
  then show ?thesis using lim ok
    by (simp add: uploadGate_def small_request_def small_proxy_def)
qed


theorem inflight_bounded_witness:
  "\<exists>s. (inflight_step (small_env\<lparr>en_maxInflight := max_inflight None\<rparr>))\<^sup>*\<^sup>* \<lparr>if_proxy = small_proxy, if_requests = []\<rparr> s
     \<and> if_requests s = [(3, True)] \<and> px_inflight (if_proxy s) = 0"
proof -
  let ?E = "small_env\<lparr>en_maxInflight := max_inflight None\<rparr>" and ?s0 = "\<lparr>if_proxy = small_proxy, if_requests = []\<rparr>"
  obtain p where p: "uploadGate ?E 1500000 ((small_request NoBody)\<lparr>rx_contentLength := HStr ''3''\<rparr>) (if_proxy ?s0) = (Inr 3, p)"
    using small_gate by auto
  let ?s1 = "\<lparr>if_proxy = p, if_requests = [(3, False)]\<rparr>"
  have "inflight_step ?E ?s0 ?s1" using gate_passed [OF p] by simp
  moreover have "inflight_step ?E ?s1 (on_end 0 ?s1)" by (rule ended) simp
  ultimately have run: "(inflight_step ?E)\<^sup>*\<^sup>* ?s0 (on_end 0 ?s1)" by (meson r_into_rtranclp rtranclp_trans)
  have "px_inflight small_proxy = 0" by (simp add: small_proxy_def)
  from inflight_bounded [OF _ this run] run show ?thesis
    by (intro exI [of _ "on_end 0 ?s1"]) (simp add: on_end_def reserved_def)
qed

end
