(* ===== verification/JsDate.thy ===== *)
theory JsDate
  imports JsBase
begin

text \<open>
  Dates of the JavaScript standard library as the services use them: the calendar of
  \<open>Date\<close> (proleptic Gregorian, UTC), \<open>toISOString\<close>, \<open>toUTCString\<close>, and the parsing of the ISO
  texts that \<open>toISOString\<close> prints. Texts in other formats are left to an argument.
\<close>

section \<open>Calendar\<close>

definition DayFromYear :: "int \<Rightarrow> int" where
  "DayFromYear y = 365 * (y - 1970) + (y - 1969) div 4 - (y - 1901) div 100 + (y - 1601) div 400"

definition leap_year :: "int \<Rightarrow> bool" where
  "leap_year y \<longleftrightarrow> y mod 4 = 0 \<and> (y mod 100 \<noteq> 0 \<or> y mod 400 = 0)"

definition days_in_year :: "int \<Rightarrow> int" where
  "days_in_year y = (if leap_year y then 366 else 365)"

lemma div_bounds: "0 < m \<Longrightarrow> m * (x div m) \<le> x \<and> x < m * (x div m) + m" for m x :: int
  using mult_div_mod_eq [of m x] pos_mod_bound [of m x] pos_mod_sign [of m x] by linarith

lemma div_plus_one: "1 < m \<Longrightarrow> (x + 1) div m = x div m + (if (x + 1) mod m = 0 then 1 else 0)" for m x :: int
proof -
  assume m: "1 < m"
  have r: "0 \<le> x mod m" "x mod m < m" using m by simp_all
  have d: "(x + 1) div m = x div m + (x mod m + 1) div m"
    using m div_add1_eq [of x 1 m] by (simp add: div_pos_pos_trivial mod_pos_pos_trivial)
  have e: "(x + 1) mod m = (x mod m + 1) mod m" by (simp add: mod_simps)
  show ?thesis
  proof (cases "x mod m + 1 = m")
    case True
    with m show ?thesis by (simp add: d e)
  next
    case False
    with r have "(x mod m + 1) div m = 0" "(x mod m + 1) mod m = x mod m + 1"
      by (simp_all add: div_pos_pos_trivial mod_pos_pos_trivial)
    with r show ?thesis by (simp add: d e)
  qed
qed

lemma div_shift:
  fixes m y j :: int
  assumes "1 < m"
  shows "(y + 1 - (m * j + 1)) div m = (y - (m * j + 1)) div m + (if y mod m = 0 then 1 else 0)"
proof -
  have "(y - (m * j + 1) + 1) mod m = y mod m"
    using mod_mult_self2 [of y m "- j"] by (simp add: algebra_simps)
  with div_plus_one [OF assms, of "y - (m * j + 1)"] show ?thesis by (simp add: algebra_simps)
qed

lemma century_multiples:
  "y mod 400 = 0 \<Longrightarrow> y mod 100 = 0" "y mod 100 = 0 \<Longrightarrow> y mod 4 = 0" for y :: int
  using dvd_trans [of 100 400 y] dvd_trans [of 4 100 y] by (simp_all add: dvd_eq_mod_eq_0)

lemma DayFromYear_Suc: "DayFromYear (y + 1) = DayFromYear y + days_in_year y"
proof -
  have n: "(4::int) * 492 + 1 = 1969" "(100::int) * 19 + 1 = 1901" "(400::int) * 4 + 1 = 1601" "(1::int) < 4" "(1::int) < 100" "(1::int) < 400"
    by simp_all
  note a = div_shift [OF n(4), of y 492, unfolded n] and b = div_shift [OF n(5), of y 19, unfolded n]
    and c = div_shift [OF n(6), of y 4, unfolded n]
  have "365 * (y + 1 - 1970) + (A + (if y mod 4 = 0 then 1 else 0)) - (B + (if y mod 100 = 0 then 1 else 0))
      + (C + (if y mod 400 = 0 then 1 else 0)) = 365 * (y - 1970) + A - B + C + days_in_year y" for A B C
    unfolding days_in_year_def leap_year_def using century_multiples [of y] by (cases "y mod 4 = 0"; cases "y mod 100 = 0"; cases "y mod 400 = 0") simp_all
  then show ?thesis unfolding DayFromYear_def a b c .
qed

lemma days_in_year_pos: "0 < days_in_year y"
  by (simp add: days_in_year_def)

text \<open>The year of a day: upwards from a lower estimate.\<close>

function year_up :: "int \<Rightarrow> int \<Rightarrow> int" where
  "year_up day y = (if DayFromYear (y + 1) \<le> day then year_up day (y + 1) else y)"
  by pat_completeness auto
termination
proof (relation "measure (\<lambda>(day, y). nat (day - DayFromYear y))")
  fix day y assume "DayFromYear (y + 1) \<le> day"
  with days_in_year_pos [of y] show "((day, y + 1), (day, y)) \<in> measure (\<lambda>(day, y). nat (day - DayFromYear y))"
    by (simp add: DayFromYear_Suc)
qed simp

declare year_up.simps [simp del]

definition year_guess :: "int \<Rightarrow> int" where
  "year_guess day = 1968 + (if 0 \<le> day then day div 366 else day div 365)"

definition year_of_day :: "int \<Rightarrow> int" where
  "year_of_day day = year_up day (year_guess day)"

lemma year_up_spec: "DayFromYear y \<le> day \<Longrightarrow> DayFromYear (year_up day y) \<le> day \<and> day < DayFromYear (year_up day y + 1)"
proof (induction day y rule: year_up.induct)
  case (1 day y)
  then show ?case by (cases "DayFromYear (y + 1) \<le> day") (simp_all add: year_up.simps [of day y])
qed

lemma year_guess_le: "DayFromYear (year_guess day) \<le> day"
proof -
  define k where "k = (if 0 \<le> day then day div 366 else day div 365)"
  have "366 * k \<le> day \<and> 0 \<le> k \<or> 365 * k \<le> day \<and> k \<le> 0"
    using div_bounds [of 366 day] div_bounds [of 365 day] by (auto simp: k_def)
  moreover obtain A B C where "DayFromYear (1968 + k) = 365 * (k - 2) + A - B + C"
    "4 * A \<le> k - 1" "k + 67 < 100 * B + 100" "400 * C \<le> k + 367"
  proof
    show "DayFromYear (1968 + k) = 365 * (k - 2) + (k - 1) div 4 - (k + 67) div 100 + (k + 367) div 400"
      by (simp add: DayFromYear_def add.commute)
  qed (rule div_bounds [THEN conjunct1] div_bounds [THEN conjunct2], simp)+
  ultimately have "DayFromYear (1968 + k) \<le> day" by (elim disjE conjE) (simp_all add: algebra_simps)
  then show ?thesis by (simp add: year_guess_def k_def)
qed

lemma year_of_day: "DayFromYear (year_of_day day) \<le> day" "day < DayFromYear (year_of_day day) + days_in_year (year_of_day day)"
  using year_up_spec [OF year_guess_le [of day]] by (simp_all add: year_of_day_def DayFromYear_Suc)

text \<open>Days before a month (0 to 11) of a year, and the month of a day of the year.\<close>

definition days_before :: "bool \<Rightarrow> nat \<Rightarrow> int" where
  "days_before leap mo =
     [0, 31, 59, 90, 120, 151, 181, 212, 243, 273, 304, 334] ! mo + (if leap \<and> 2 \<le> mo then 1 else 0)"

definition month_of :: "bool \<Rightarrow> int \<Rightarrow> nat" where
  "month_of leap d = length (takeWhile (\<lambda>mo. days_before leap mo \<le> d) [1..<12])"

definition weekday :: "int \<Rightarrow> nat" where
  "weekday day = nat ((day + 4) mod 7)"

definition month_length :: "bool \<Rightarrow> nat \<Rightarrow> int" where
  "month_length leap mo = (if mo < 11 then days_before leap (Suc mo) - days_before leap mo else 31)"

lemma month_of_spec:
  assumes "0 \<le> d" and "d < (if leap then 366 else 365)"
  shows "month_of leap d < 12" and "days_before leap (month_of leap d) \<le> d"
    and "d < days_before leap (month_of leap d) + month_length leap (month_of leap d)"
proof -
  let ?P = "\<lambda>mo. days_before leap mo \<le> d" and ?k = "month_of leap d"
  have k: "?k = length (takeWhile ?P [1..<12])" by (simp add: month_of_def)
  have "length (takeWhile ?P [1..<12]) \<le> length [1..<12::nat]" by (rule length_takeWhile_le)
  then show lt: "?k < 12" by (simp add: k)
  show le: "days_before leap ?k \<le> d"
  proof (cases "?k = 0")
    case True
    then show ?thesis using assms(1) by (simp add: days_before_def)
  next
    case False
    then have "takeWhile ?P [1..<12] ! (?k - 1) \<in> set (takeWhile ?P [1..<12])" by (intro nth_mem) (simp add: k)
    then have "?P (takeWhile ?P [1..<12] ! (?k - 1))" by (metis set_takeWhileD)
    moreover have "takeWhile ?P [1..<12] ! (?k - 1) = [1..<12] ! (?k - 1)"
      using False by (intro takeWhile_nth) (simp add: k)
    ultimately show ?thesis using False lt by (simp add: nth_upt)
  qed
  show "d < days_before leap ?k + month_length leap ?k"
  proof (cases "?k < 11")
    case True
    then have "\<not> ?P ([1..<12] ! ?k)" unfolding k by (intro nth_length_takeWhile) simp
    with True show ?thesis by (simp add: month_length_def nth_upt)
  next
    case False
    with lt have "?k = 11" by simp
    with assms(2) show ?thesis by (auto simp: month_length_def days_before_def split: if_splits)
  qed
qed

lemma month_length_bounds: "mo < 12 \<Longrightarrow> month_length leap mo \<le> 31"
  by (auto simp: month_length_def days_before_def less_Suc_eq numeral_eq_Suc)

section \<open>Texts\<close>

fun fixed_digits :: "nat \<Rightarrow> nat \<Rightarrow> string" where
  "fixed_digits 0 k = []"
| "fixed_digits (Suc n) k = fixed_digits n (k div 10) @ [char_of (48 + k mod 10)]"

lemma length_fixed_digits [simp]: "length (fixed_digits n k) = n"
  by (induction n arbitrary: k) auto

lemma fixed_digits_digits: "list_all is_digit (fixed_digits n k)"
  by (induction n arbitrary: k) (simp_all add: is_digit_char_of)

lemma fixed_digits_value: "decimal_nat (fixed_digits n k) = k mod 10 ^ n"
proof (induction n arbitrary: k)
  case (Suc n)
  have "decimal_nat (fixed_digits (Suc n) k) = k div 10 mod 10 ^ n * 10 + k mod 10"
    using Suc [of "k div 10"] by (simp add: decimal_nat_def digit_value_char_of)
  also have "\<dots> = k mod 10 ^ Suc n"
    using mod_mult2_eq [of k 10 "10 ^ n"] by simp
  finally show ?case .
qed (simp add: decimal_nat_def nat_of_digits_def)

definition iso_year :: "int \<Rightarrow> string" where
  "iso_year y =
     (if 0 \<le> y \<and> y \<le> 9999 then fixed_digits 4 (nat y)
      else (if y < 0 then CHR ''-'' else CHR ''+'') # fixed_digits 6 (nat \<bar>y\<bar>))"

definition MS_PER_DAY :: int where
  "MS_PER_DAY = 86400000"

text \<open>Year, month (0 to 11), day of the month, and milliseconds within the day of a time value.\<close>

definition civil :: "int \<Rightarrow> int \<times> nat \<times> nat" where
  "civil day =
     (let y = year_of_day day; d = day - DayFromYear y; mo = month_of (leap_year y) d
      in (y, mo, nat (d - days_before (leap_year y) mo + 1)))"

definition clock :: "int \<Rightarrow> nat \<times> nat \<times> nat \<times> nat" where
  "clock ms = (nat (ms div 3600000), nat (ms div 60000 mod 60), nat (ms div 1000 mod 60), nat (ms mod 1000))"

definition toISOString :: "int \<Rightarrow> string" where
  "toISOString t =
     (let (y, mo, d) = civil (t div MS_PER_DAY); (h, mi, s, ms) = clock (t mod MS_PER_DAY)
      in iso_year y @ ''-'' @ fixed_digits 2 (Suc mo) @ ''-'' @ fixed_digits 2 d @ ''T''
         @ fixed_digits 2 h @ '':'' @ fixed_digits 2 mi @ '':'' @ fixed_digits 2 s @ ''.'' @ fixed_digits 3 ms @ ''Z'')"

definition toUTCString :: "int \<Rightarrow> string" where
  "toUTCString t =
     (let (y, mo, d) = civil (t div MS_PER_DAY); (h, mi, s, ms) = clock (t mod MS_PER_DAY)
      in [''Sun'', ''Mon'', ''Tue'', ''Wed'', ''Thu'', ''Fri'', ''Sat''] ! weekday (t div MS_PER_DAY) @ '', ''
         @ fixed_digits 2 d @ '' ''
         @ [''Jan'', ''Feb'', ''Mar'', ''Apr'', ''May'', ''Jun'', ''Jul'', ''Aug'', ''Sep'', ''Oct'', ''Nov'', ''Dec''] ! mo
         @ '' '' @ (if y < 0 then ''-'' else []) @ (if nat \<bar>y\<bar> < 10000 then fixed_digits 4 (nat \<bar>y\<bar>) else show_nat (nat \<bar>y\<bar>))
         @ '' '' @ fixed_digits 2 h @ '':'' @ fixed_digits 2 mi @ '':'' @ fixed_digits 2 s @ '' GMT'')"

text \<open>The ISO texts with all fields and the offset \<open>Z\<close>.\<close>

definition parse_iso_year :: "string \<Rightarrow> (int \<times> string) option" where
  "parse_iso_year s =
     (case s of
        [] \<Rightarrow> None
      | c # r \<Rightarrow>
          if c = CHR ''+'' \<or> c = CHR ''-''
          then (let y = take 6 r in
                if length y = 6 \<and> all_digits y \<and> \<not> (c = CHR ''-'' \<and> decimal_nat y = 0)
                then Some ((if c = CHR ''-'' then - int (decimal_nat y) else int (decimal_nat y)), drop 6 r) else None)
          else (let y = take 4 s in
                if length y = 4 \<and> all_digits y then Some (int (decimal_nat y), drop 4 s) else None))"

definition parse_iso_rest :: "int \<Rightarrow> string \<Rightarrow> date" where
  "parse_iso_rest y r =
     (let num = (\<lambda>i n. decimal_nat (take n (drop i r)));
          mo = num 1 2 - 1; d = int (num 4 2); h = num 7 2; mi = num 10 2; s = num 13 2; ms = num 16 3 in
      if length r = 20 \<and> list_all (\<lambda>(i, c). r ! i = c) (zip [0, 3, 6, 9, 12, 15, 19] ''--T::.Z'')
         \<and> list_all (\<lambda>i. is_digit (r ! i)) [1, 2, 4, 5, 7, 8, 10, 11, 13, 14, 16, 17, 18]
         \<and> 1 \<le> num 1 2 \<and> num 1 2 \<le> 12 \<and> 1 \<le> d \<and> d \<le> month_length (leap_year y) mo \<and> h < 24 \<and> mi < 60 \<and> s < 60
      then new_Date ((DayFromYear y + days_before (leap_year y) mo + d - 1) * MS_PER_DAY
             + int h * 3600000 + int mi * 60000 + int s * 1000 + int ms)
      else None)"

definition parse_iso :: "string \<Rightarrow> date" where
  "parse_iso s = (case parse_iso_year s of None \<Rightarrow> None | Some (y, r) \<Rightarrow> parse_iso_rest y r)"

text \<open>\<open>Date.parse\<close>; texts of other forms are left to \<open>other\<close>.\<close>

definition Date_parse :: "(string \<Rightarrow> date) \<Rightarrow> string \<Rightarrow> date" where
  "Date_parse other s = (case parse_iso s of Some t \<Rightarrow> Some t | None \<Rightarrow> other s)"

section \<open>Round trip\<close>

lemma civil_spec:
  assumes "civil day = (y, mo, d)"
  shows "mo < 12" "1 \<le> d" "int d \<le> month_length (leap_year y) mo"
    "DayFromYear y + days_before (leap_year y) mo + int d - 1 = day"
proof -
  have y: "y = year_of_day day" and mo: "mo = month_of (leap_year y) (day - DayFromYear y)"
    and d: "d = nat (day - DayFromYear y - days_before (leap_year y) mo + 1)"
    using assms by (auto simp: civil_def Let_def)
  have r: "0 \<le> day - DayFromYear y" "day - DayFromYear y < (if leap_year y then 366 else 365)"
    using year_of_day [of day] by (simp_all add: y days_in_year_def)
  note ms = month_of_spec [OF r, folded mo]
  show "mo < 12" by (rule ms(1))
  have d': "int d = day - DayFromYear y - days_before (leap_year y) mo + 1" using ms(2) by (simp add: d)
  show "1 \<le> d" "int d \<le> month_length (leap_year y) mo"
    "DayFromYear y + days_before (leap_year y) mo + int d - 1 = day"
    using ms d' by linarith+
qed

lemma DayFromYear_bounds: "146097 * y \<le> 400 * DayFromYear y + 287814690" "400 * DayFromYear y \<le> 146097 * y - 287807490"
proof -
  obtain A B C where "DayFromYear y = 365 * (y - 1970) + A - B + C" "4 * A \<le> y - 1969" "y - 1969 < 4 * A + 4"
    "100 * B \<le> y - 1901" "y - 1901 < 100 * B + 100" "400 * C \<le> y - 1601" "y - 1601 < 400 * C + 400"
  proof
    show "DayFromYear y = 365 * (y - 1970) + (y - 1969) div 4 - (y - 1901) div 100 + (y - 1601) div 400"
      by (simp add: DayFromYear_def)
  qed (rule div_bounds [THEN conjunct1] div_bounds [THEN conjunct2], simp)+
  then show "146097 * y \<le> 400 * DayFromYear y + 287814690" "400 * DayFromYear y \<le> 146097 * y - 287807490"
    by (simp_all add: algebra_simps)
qed

lemma year_bounds:
  assumes "\<bar>t\<bar> \<le> MAX_DATE_MS" and "civil (t div MS_PER_DAY) = (y, mo, d)"
  shows "\<bar>y\<bar> < 1000000"
proof -
  have "\<bar>t div MS_PER_DAY\<bar> \<le> 100000000"
    using assms(1) div_bounds [of MS_PER_DAY t] by (simp add: MS_PER_DAY_def MAX_DATE_MS_def)
  moreover have "DayFromYear y \<le> t div MS_PER_DAY" "t div MS_PER_DAY < DayFromYear (y + 1)"
    using assms(2) year_of_day [of "t div MS_PER_DAY"] by (auto simp: civil_def Let_def DayFromYear_Suc)
  ultimately show ?thesis
    using DayFromYear_bounds(1) [of y] DayFromYear_bounds(2) [of "y + 1"] by (simp add: algebra_simps)
qed

lemma all_digits_fixed: "0 < n \<Longrightarrow> all_digits (fixed_digits n k)"
  using fixed_digits_digits [of n k] length_fixed_digits [of n k] by (auto simp: all_digits_def simp del: length_fixed_digits)

lemma fixed_digits_Cons: "0 < n \<Longrightarrow> \<exists>c cs. fixed_digits n k = c # cs \<and> is_digit c"
  using fixed_digits_digits [of n k] length_fixed_digits [of n k] by (cases "fixed_digits n k") auto

lemma parse_iso_year_iso: "\<bar>y\<bar> < 1000000 \<Longrightarrow> parse_iso_year (iso_year y @ r) = Some (y, r)"
proof (cases "0 \<le> y \<and> y \<le> 9999")
  case True
  obtain c cs where c: "fixed_digits 4 (nat y) = c # cs" "is_digit c" using fixed_digits_Cons [of 4 "nat y"] by auto
  have "c \<noteq> CHR ''+''" "c \<noteq> CHR ''-''" using c(2) by (auto simp: is_digit_def char_code_def)
  moreover have "take 4 (fixed_digits 4 (nat y) @ r) = fixed_digits 4 (nat y)" "drop 4 (fixed_digits 4 (nat y) @ r) = r" by simp_all
  moreover have "decimal_nat (fixed_digits 4 (nat y)) = nat y" using True by (simp add: fixed_digits_value nat_less_iff)
  ultimately show ?thesis
    using True c all_digits_fixed [of 4 "nat y"] length_fixed_digits [of 4 "nat y"]
    by (simp add: parse_iso_year_def iso_year_def Let_def)
next
  case False
  assume y: "\<bar>y\<bar> < 1000000"
  have "take 6 (fixed_digits 6 (nat \<bar>y\<bar>) @ r) = fixed_digits 6 (nat \<bar>y\<bar>)" "drop 6 (fixed_digits 6 (nat \<bar>y\<bar>) @ r) = r" by simp_all
  moreover have "decimal_nat (fixed_digits 6 (nat \<bar>y\<bar>)) = nat \<bar>y\<bar>" using y by (simp add: fixed_digits_value nat_less_iff)
  ultimately show ?thesis
    using False y all_digits_fixed [of 6 "nat \<bar>y\<bar>"] by (auto simp: parse_iso_year_def iso_year_def Let_def)
qed

lemma clock_spec:
  assumes "0 \<le> v" "v < MS_PER_DAY" "clock v = (h, mi, s, ms)"
  shows "h < 24" "mi < 60" "s < 60" "ms < 1000" "int h * 3600000 + int mi * 60000 + int s * 1000 + int ms = v"
proof -
  have e: "h = nat (v div 3600000)" "mi = nat (v div 60000 mod 60)" "s = nat (v div 1000 mod 60)" "ms = nat (v mod 1000)"
    using assms(3) by (simp_all add: clock_def)
  have q: "v div 60000 = v div 1000 div 60" "v div 3600000 = v div 1000 div 60 div 60"
    using zdiv_zmult2_eq [of 60 v 1000] zdiv_zmult2_eq [of 60 v 60000] by simp_all
  have "v div 3600000 < 24" using assms(2) by (simp add: MS_PER_DAY_def div_less_iff_less_mult)
  then show "h < 24" by (simp add: e(1))
  show "mi < 60" "s < 60" "ms < 1000" by (simp_all add: e(2-4) nat_less_iff)
  have "int h = v div 3600000" "int mi = v div 60000 mod 60" "int s = v div 1000 mod 60" "int ms = v mod 1000"
    using assms(1) by (simp_all add: e pos_imp_zdiv_nonneg_iff)
  then show "int h * 3600000 + int mi * 60000 + int s * 1000 + int ms = v"
    using div_mult_mod_eq [of "v div 1000 div 60" 60] div_mult_mod_eq [of "v div 1000" 60] div_mult_mod_eq [of v 1000]
    unfolding q by linarith
qed

lemma two_digits: "\<exists>a b. fixed_digits 2 k = [a, b] \<and> is_digit a \<and> is_digit b"
  using fixed_digits_digits [of 2 k] by (auto simp: numeral_2_eq_2)

lemma three_digits: "\<exists>a b c. fixed_digits 3 k = [a, b, c] \<and> is_digit a \<and> is_digit b \<and> is_digit c"
  using fixed_digits_digits [of 3 k] by (auto simp: numeral_3_eq_3)

lemma parse_iso_rest_iso:
  assumes "mo < 12" "1 \<le> d" "int d \<le> month_length (leap_year y) mo" "h < 24" "mi < 60" "s < 60" "ms < 1000"
  shows "parse_iso_rest y (''-'' @ fixed_digits 2 (Suc mo) @ ''-'' @ fixed_digits 2 d @ ''T''
      @ fixed_digits 2 h @ '':'' @ fixed_digits 2 mi @ '':'' @ fixed_digits 2 s @ ''.'' @ fixed_digits 3 ms @ ''Z'')
    = new_Date ((DayFromYear y + days_before (leap_year y) mo + int d - 1) * MS_PER_DAY
        + int h * 3600000 + int mi * 60000 + int s * 1000 + int ms)"
proof -
  have d: "d < 100" using assms(3) month_length_bounds [OF assms(1), of "leap_year y"] by linarith
  obtain a1 a2 where a: "fixed_digits 2 (Suc mo) = [a1, a2]" "is_digit a1" "is_digit a2" using two_digits by metis
  obtain b1 b2 where b: "fixed_digits 2 d = [b1, b2]" "is_digit b1" "is_digit b2" using two_digits by metis
  obtain c1 c2 where c: "fixed_digits 2 h = [c1, c2]" "is_digit c1" "is_digit c2" using two_digits by metis
  obtain e1 e2 where e: "fixed_digits 2 mi = [e1, e2]" "is_digit e1" "is_digit e2" using two_digits by metis
  obtain f1 f2 where f: "fixed_digits 2 s = [f1, f2]" "is_digit f1" "is_digit f2" using two_digits by metis
  obtain g1 g2 g3 where g: "fixed_digits 3 ms = [g1, g2, g3]" "is_digit g1" "is_digit g2" "is_digit g3" using three_digits by metis
  have v: "decimal_nat [a1, a2] = Suc mo" "decimal_nat [b1, b2] = d" "decimal_nat [c1, c2] = h" "decimal_nat [e1, e2] = mi"
    "decimal_nat [f1, f2] = s" "decimal_nat [g1, g2, g3] = ms"
    using fixed_digits_value [of 2 "Suc mo"] fixed_digits_value [of 2 d] fixed_digits_value [of 2 h] fixed_digits_value [of 2 mi]
      fixed_digits_value [of 2 s] fixed_digits_value [of 3 ms] assms d by (simp_all add: a b c e f g)
  show ?thesis
    unfolding a(1) b(1) c(1) e(1) f(1) g(1)
    using assms by (simp add: parse_iso_rest_def Let_def v a b c e f g take_Cons' drop_Cons' nth_Cons')
qed

lemma parse_toISOString:
  assumes "\<bar>t\<bar> \<le> MAX_DATE_MS"
  shows "parse_iso (toISOString t) = Some t"
proof -
  obtain y mo d where c: "civil (t div MS_PER_DAY) = (y, mo, d)" using prod_cases3 by blast
  obtain h mi s ms where k: "clock (t mod MS_PER_DAY) = (h, mi, s, ms)" using prod_cases4 by blast
  have v: "0 \<le> t mod MS_PER_DAY" "t mod MS_PER_DAY < MS_PER_DAY" by (simp_all add: MS_PER_DAY_def)
  note cs = civil_spec [OF c] and ks = clock_spec [OF v k]
  have "t div MS_PER_DAY * MS_PER_DAY + int h * 3600000 + int mi * 60000 + int s * 1000 + int ms = t"
    using ks(5) div_mult_mod_eq [of t MS_PER_DAY] by linarith
  then show ?thesis
    using parse_iso_rest_iso [OF cs(1-3) ks(1-4)] assms
    by (simp add: parse_iso_def toISOString_def c k parse_iso_year_iso [OF year_bounds [OF assms c]] cs(4))
qed

end
