(* ===== verification/Providers.thy ===== *)
theory Providers
  imports DbApi_Inv Placement
begin

text \<open>
  The mesh tables of the data service: \<open>packages/db/src/routes/members.ts\<close> and
  \<open>routes/storages.ts\<close> with the tables \<open>MeshMember\<close> and \<open>StorageProvider\<close>: membership, the life of
  a storage provider, the active roster, the capacity signal for signups and the rewriting of
  replica URLs to provider ids. Environment variables are arguments. An exception that no handler
  catches is the response 500.
\<close>

section \<open>Tables\<close>

datatype MeshRole = CLIENT | ADMIN
datatype MeshStatus = MEMBER_ACTIVE | REVOKED
datatype StorageLifecycle = LINKED | REMOVED

record MeshMember =
  mm_npub :: npub
  mm_role :: MeshRole
  mm_status :: MeshStatus
  mm_addedByNpub :: "npub option"
  mm_createdAt :: int
  mm_updatedAt :: int

record StorageProvider =
  sp_npub :: npub
  sp_ownerNpub :: npub
  sp_tunnelIp :: "string option"
  sp_blossomPort :: "int option"
  sp_pgAgentPort :: "int option"
  sp_declaredCapacityBytes :: "int option"
  sp_reportedTotalBytes :: "int option"
  sp_reportedFreeBytes :: "int option"
  sp_lifecycle :: StorageLifecycle
  sp_lastPingAt :: "int option"
  sp_createdAt :: int

record mesh =
  meshMembers :: "MeshMember list"
  storageProviders :: "StorageProvider list"

abbreviation find_member :: "mesh \<Rightarrow> npub \<Rightarrow> MeshMember option" where
  "find_member m n \<equiv> find_row mm_npub n (meshMembers m)"

abbreviation find_storage :: "mesh \<Rightarrow> npub \<Rightarrow> StorageProvider option" where
  "find_storage m n \<equiv> find_row sp_npub n (storageProviders m)"

text \<open>The value range of a Postgres \<open>integer\<close> column.\<close>

definition in_int4 :: "int \<Rightarrow> bool" where
  "in_int4 i \<longleftrightarrow> - (2 ^ 31) \<le> i \<and> i < 2 ^ 31"

definition server_error :: "'a response" where
  "server_error = Failure 500 ''Internal Server Error''"

text \<open>\<open>req.body && typeof req.body === "object" ? req.body : {}\<close>, then a property.\<close>

definition body_prop :: "json option \<Rightarrow> string \<Rightarrow> json option" where
  "body_prop body k = (case body of Some j \<Rightarrow> jprop k j | None \<Rightarrow> None)"

section \<open>Members\<close>

fun role_of_string :: "string \<Rightarrow> MeshRole option" where
  "role_of_string s = (if s = ''CLIENT'' then Some CLIENT else if s = ''ADMIN'' then Some ADMIN else None)"

fun status_of_string :: "string \<Rightarrow> MeshStatus option" where
  "status_of_string s =
     (if s = ''ACTIVE'' then Some MEMBER_ACTIVE else if s = ''REVOKED'' then Some REVOKED else None)"

definition enumValue :: "(string \<Rightarrow> 'e option) \<Rightarrow> json option \<Rightarrow> 'e option" where
  "enumValue read v = (case v of Some (JStr s) \<Rightarrow> read s | _ \<Rightarrow> None)"

text \<open>\<open>GET /members\<close>: the filtered members, each with the number of its storages.\<close>

definition getMembers :: "(string \<Rightarrow> json option) \<Rightarrow> mesh \<Rightarrow> (MeshMember \<times> nat) list response" where
  "getMembers query m =
     (let role = enumValue role_of_string (query ''role''); st = enumValue status_of_string (query ''status'') in
      if (query ''role'' \<noteq> None \<and> role = None) \<or> (query ''status'' \<noteq> None \<and> st = None)
      then Failure 400 ''invalid_filter''
      else Success 200
        (map (\<lambda>mb. (mb, length (filter (\<lambda>s. sp_ownerNpub s = mm_npub mb) (storageProviders m))))
          (filter (\<lambda>mb. (role = None \<or> role = Some (mm_role mb)) \<and> (st = None \<or> st = Some (mm_status mb)))
            (meshMembers m))))"

definition getMember :: "npub \<Rightarrow> mesh \<Rightarrow> MeshMember response" where
  "getMember n m =
     (case find_member m n of None \<Rightarrow> Failure 404 ''not_found'' | Some mb \<Rightarrow> Success 200 mb)"

text \<open>\<open>PUT /members/:npub\<close>: an upsert that always ends in an active member.\<close>

definition putMember :: "int \<Rightarrow> npub \<Rightarrow> json option \<Rightarrow> mesh \<Rightarrow> MeshMember response \<times> mesh" where
  "putMember now n body m =
     (let role = (case body_prop body ''role'' of None \<Rightarrow> Some CLIENT | v \<Rightarrow> enumValue role_of_string v);
          st = body_prop body ''status''; added = body_prop body ''addedByNpub'' in
      if role = None \<or> (st \<noteq> None \<and> st \<noteq> Some (JStr ''ACTIVE'')) then (Failure 400 ''invalid_member'', m)
      else if (case added of None \<Rightarrow> False | Some JNull \<Rightarrow> False | Some (JStr _) \<Rightarrow> False | _ \<Rightarrow> True)
      then (Failure 400 ''invalid_member'', m)
      else
        (case find_member m n of
           Some mb \<Rightarrow>
             (let mb' = mb\<lparr>mm_role := the role, mm_status := MEMBER_ACTIVE, mm_updatedAt := now\<rparr> in
              (Success 200 mb', m\<lparr>meshMembers := update_row mm_npub n (\<lambda>_. mb') (meshMembers m)\<rparr>))
         | None \<Rightarrow>
             (let mb' = \<lparr>mm_npub = n, mm_role = the role, mm_status = MEMBER_ACTIVE,
                         mm_addedByNpub = (case added of Some (JStr a) \<Rightarrow> Some a | _ \<Rightarrow> None),
                         mm_createdAt = now, mm_updatedAt = now\<rparr> in
              (Success 200 mb', m\<lparr>meshMembers := meshMembers m @ [mb']\<rparr>))))"

definition deleteMember :: "int \<Rightarrow> npub \<Rightarrow> mesh \<Rightarrow> MeshMember response \<times> mesh" where
  "deleteMember now n m =
     (case find_member m n of
        None \<Rightarrow> (Failure 404 ''not_found'', m)
      | Some mb \<Rightarrow>
          (let mb' = mb\<lparr>mm_status := REVOKED, mm_updatedAt := now\<rparr> in
           (Success 200 mb', m\<lparr>meshMembers := update_row mm_npub n (\<lambda>_. mb') (meshMembers m)\<rparr>)))"

section \<open>Fields of a storage\<close>

text \<open>An optional field of a request: absent, null, or a value.\<close>

datatype 'a field = Absent | Null | Given 'a

definition positiveNumber :: "string option \<Rightarrow> rat \<Rightarrow> rat" where
  "positiveNumber v fallback =
     (case (case v of None \<Rightarrow> NaN | Some s \<Rightarrow> js_Number s) of
        Num r \<Rightarrow> if 0 < r then r else fallback
      | _ \<Rightarrow> fallback)"

definition MAX_SAFE_INTEGER :: int where
  "MAX_SAFE_INTEGER = 2 ^ 53 - 1"

definition is_safe_integer :: "js_number \<Rightarrow> bool" where
  "is_safe_integer x \<longleftrightarrow> num_is_integer x \<and> \<bar>num_to_int x\<bar> \<le> MAX_SAFE_INTEGER"

text \<open>\<open>parseBigInt\<close>; \<open>None\<close> is the exception \<open>invalid_bigint\<close>.\<close>

fun parseBigInt :: "json option \<Rightarrow> int field option" where
  "parseBigInt None = Some Absent"
| "parseBigInt (Some JNull) = Some Null"
| "parseBigInt (Some (JNum x)) =
     (if is_safe_integer x \<and> 0 \<le> num_to_int x then Some (Given (num_to_int x)) else None)"
| "parseBigInt (Some (JStr s)) = (if all_digits s then Some (Given (int (decimal_nat s))) else None)"
| "parseBigInt (Some _) = None"

text \<open>\<open>parseOptionalPort\<close>; \<open>None\<close> is NaN.\<close>

fun parseOptionalPort :: "json option \<Rightarrow> int field option" where
  "parseOptionalPort None = Some Absent"
| "parseOptionalPort (Some JNull) = Some Null"
| "parseOptionalPort (Some (JNum x)) =
     (if is_safe_integer x \<and> 0 \<le> num_to_int x then Some (Given (num_to_int x)) else None)"
| "parseOptionalPort (Some _) = None"

text \<open>\<open>parseOptionalDate\<close>: what is no date is undefined.\<close>

fun parseOptionalDate :: "(string \<Rightarrow> date) \<Rightarrow> json option \<Rightarrow> int field" where
  "parseOptionalDate dp (Some JNull) = Null"
| "parseOptionalDate dp (Some (JStr s)) = (case dp s of None \<Rightarrow> Absent | Some t \<Rightarrow> Given t)"
| "parseOptionalDate dp _ = Absent"

abbreviation normalizeUrl :: "string \<Rightarrow> string" where
  "normalizeUrl \<equiv> strip_trailing_slashes"

fun apply_field :: "'a field \<Rightarrow> 'a option \<Rightarrow> 'a option" where
  "apply_field Absent old = old"
| "apply_field Null old = None"
| "apply_field (Given v) old = Some v"
section \<open>Storages\<close>

text \<open>\<open>ACTIVE_WINDOW_SECS\<close> and the cutoff of the roster queries; \<open>new Date(x)\<close> drops the fraction of x.\<close>

definition ACTIVE_WINDOW_SECS :: "string option \<Rightarrow> rat" where
  "ACTIVE_WINDOW_SECS env = positiveNumber env 960"

definition trunc :: "rat \<Rightarrow> int" where
  "trunc r = (if 0 \<le> r then \<lfloor>r\<rfloor> else \<lceil>r\<rceil>)"

definition roster_cutoff :: "rat \<Rightarrow> int \<Rightarrow> date" where
  "roster_cutoff window now = new_Date (trunc (of_int now - window * 1000))"

definition is_active :: "int \<Rightarrow> StorageProvider \<Rightarrow> bool" where
  "is_active cutoff s \<longleftrightarrow> sp_lifecycle s = LINKED \<and> (case sp_lastPingAt s of None \<Rightarrow> False | Some t \<Rightarrow> cutoff < t)
     \<and> sp_tunnelIp s \<noteq> None \<and> sp_blossomPort s \<noteq> None"

definition getActive :: "rat \<Rightarrow> int \<Rightarrow> mesh \<Rightarrow> StorageProvider list response" where
  "getActive window now m =
     (case roster_cutoff window now of
        None \<Rightarrow> server_error
      | Some cutoff \<Rightarrow> Success 200 (filter (is_active cutoff) (storageProviders m)))"

definition getActivePg :: "rat \<Rightarrow> int \<Rightarrow> mesh \<Rightarrow> StorageProvider list response" where
  "getActivePg window now m =
     (case roster_cutoff window now of
        None \<Rightarrow> server_error
      | Some cutoff \<Rightarrow>
          Success 200 (filter (\<lambda>s. is_active cutoff s \<and> sp_pgAgentPort s \<noteq> None) (storageProviders m)))"

record CapacityRecord =
  cp_providers :: nat
  cp_replicas :: int
  cp_totalBytes :: int
  cp_freeBytes :: int
  cp_committedBytes :: int
  cp_availableBytes :: int
  cp_minFreeBytes :: int
  cp_signupsOpen :: bool

text \<open>Division of bigints truncates towards zero.\<close>

definition bigint_div :: "int \<Rightarrow> int \<Rightarrow> int" where
  "bigint_div a b = (if 0 \<le> a then a div b else - ((- a) div b))"

text \<open>\<open>SUM(GREATEST(storage_bytes - used_storage, 0))\<close> over the users with a live plan and an allowance.\<close>

definition committed_bytes :: "int \<Rightarrow> db \<Rightarrow> int" where
  "committed_bytes now d =
     sum_where (\<lambda>u. max 0 (the (u_storageBytes u) - u_usedStorage u))
       (\<lambda>u. (case u_planExpiresAt u of None \<Rightarrow> False | Some t \<Rightarrow> now < t) \<and> u_storageBytes u \<noteq> None) (users d)"

definition bytes_or_zero :: "int option \<Rightarrow> int" where
  "bytes_or_zero v = (case v of None \<Rightarrow> 0 | Some n \<Rightarrow> n)"

text \<open>\<open>GET /storages/capacity\<close>: the record computed from the active providers and the commitments, and the handler.\<close>

definition capacity_of ::
  "string option \<Rightarrow> string option \<Rightarrow> string option \<Rightarrow> StorageProvider list \<Rightarrow> int \<Rightarrow> CapacityRecord" where
  "capacity_of replicasEnv countEnv minFreeEnv providers committedBytes =
     (let freeBytes = sum_list (map (\<lambda>s. bytes_or_zero (sp_reportedFreeBytes s)) providers);
          totalBytes = sum_list (map (\<lambda>s. bytes_or_zero (sp_reportedTotalBytes s)) providers);
          configuredReplicas = max 1 \<lfloor>positiveNumber replicasEnv 2\<rfloor>;
          replicas = max 1 (min configuredReplicas (int (length providers)));
          rawAvailable = (if providers = [] then 0 else bigint_div freeBytes replicas);
          available = (if countEnv = Some ''true''
                       then (if committedBytes < rawAvailable then rawAvailable - committedBytes else 0)
                       else rawAvailable);
          minFree = \<lfloor>positiveNumber minFreeEnv 1073741824\<rfloor>
      in \<lparr>cp_providers = length providers, cp_replicas = replicas, cp_totalBytes = totalBytes,
          cp_freeBytes = freeBytes, cp_committedBytes = committedBytes, cp_availableBytes = available,
          cp_minFreeBytes = minFree, cp_signupsOpen = (providers \<noteq> [] \<and> minFree \<le> available)\<rparr>)"

definition getCapacity ::
  "rat \<Rightarrow> string option \<Rightarrow> string option \<Rightarrow> string option \<Rightarrow> int \<Rightarrow> mesh \<Rightarrow> db \<Rightarrow> CapacityRecord response" where
  "getCapacity window replicasEnv countEnv minFreeEnv now m d =
     (case roster_cutoff window now of
        None \<Rightarrow> server_error
      | Some cutoff \<Rightarrow>
          if \<not> in_int8 (committed_bytes now d) then server_error
          else Success 200 (capacity_of replicasEnv countEnv minFreeEnv
                 (filter (is_active cutoff) (storageProviders m)) (committed_bytes now d)))"

definition getStorages :: "json option \<Rightarrow> mesh \<Rightarrow> StorageProvider list response" where
  "getStorages owner m =
     (case owner of
        None \<Rightarrow> Success 200 (storageProviders m)
      | Some (JStr n) \<Rightarrow> Success 200 (filter (\<lambda>s. sp_ownerNpub s = n) (storageProviders m))
      | _ \<Rightarrow> Failure 400 ''invalid_filter'')"

definition getStorageProvider :: "npub \<Rightarrow> mesh \<Rightarrow> StorageProvider response" where
  "getStorageProvider n m =
     (case find_storage m n of None \<Rightarrow> Failure 404 ''not_found'' | Some s \<Rightarrow> Success 200 s)"

text \<open>
  \<open>POST /storages\<close>. The row is looked up first and written later: \<open>seen\<close> is the table at the
  lookup, \<open>m\<close> the table at the write, which another request may have changed. \<open>link_storage\<close> is
  the update that links an existing row again, \<open>create_storage\<close> the insert with the recovery
  when the row appeared in between.
\<close>

definition link_storage :: "npub \<Rightarrow> npub \<Rightarrow> int field \<Rightarrow> nat \<Rightarrow> mesh \<Rightarrow> StorageProvider response \<times> mesh" where
  "link_storage n owner cap st m =
     (case find_storage m n of
        Some s \<Rightarrow>
          if sp_ownerNpub s \<noteq> owner then (server_error, m)
          else
            (let s' = s\<lparr>sp_lifecycle := LINKED,
                        sp_declaredCapacityBytes := apply_field cap (sp_declaredCapacityBytes s)\<rparr> in
             (Success st s', m\<lparr>storageProviders := update_row sp_npub n (\<lambda>_. s') (storageProviders m)\<rparr>))
      | None \<Rightarrow> (server_error, m))"

definition create_storage :: "int \<Rightarrow> npub \<Rightarrow> npub \<Rightarrow> int field \<Rightarrow> mesh \<Rightarrow> StorageProvider response \<times> mesh" where
  "create_storage now n owner cap m =
     (case find_storage m n of
        Some s \<Rightarrow> if sp_ownerNpub s \<noteq> owner then (Failure 409 ''owner_conflict'', m) else link_storage n owner cap 200 m
      | None \<Rightarrow>
          if find_member m owner = None then (server_error, m)
          else
            (let s' = \<lparr>sp_npub = n, sp_ownerNpub = owner, sp_tunnelIp = None, sp_blossomPort = None,
                       sp_pgAgentPort = None, sp_declaredCapacityBytes = apply_field cap None,
                       sp_reportedTotalBytes = None, sp_reportedFreeBytes = None, sp_lifecycle = LINKED,
                       sp_lastPingAt = None, sp_createdAt = now\<rparr> in
             (Success 201 s', m\<lparr>storageProviders := storageProviders m @ [s']\<rparr>)))"

definition field_in_int8 :: "int field \<Rightarrow> bool" where
  "field_in_int8 f = (case f of Given v \<Rightarrow> in_int8 v | _ \<Rightarrow> True)"

definition postStorage :: "int \<Rightarrow> json option \<Rightarrow> mesh \<Rightarrow> mesh \<Rightarrow> StorageProvider response \<times> mesh" where
  "postStorage now body seen m =
     (case (body_prop body ''npub'', body_prop body ''ownerNpub'') of
        (Some (JStr n), Some (JStr owner)) \<Rightarrow>
          (case parseBigInt (body_prop body ''declaredCapacityBytes'') of
             None \<Rightarrow> (Failure 400 ''invalid_bigint'', m)
           | Some cap \<Rightarrow>
               (case find_storage seen n of
                  Some s \<Rightarrow>
                    if sp_ownerNpub s \<noteq> owner then (Failure 409 ''owner_conflict'', m)
                    else if \<not> field_in_int8 cap then (server_error, m)
                    else link_storage n owner cap 200 m
                | None \<Rightarrow>
                    if \<not> field_in_int8 cap then (server_error, m) else create_storage now n owner cap m))
      | _ \<Rightarrow> (Failure 400 ''invalid_storage'', m))"

text \<open>
  \<open>PATCH /storages/:npub\<close>: the checks and the assembled update. \<open>Inl\<close> is a refusal.
\<close>

fun lifecycle_of_string :: "string \<Rightarrow> StorageLifecycle option" where
  "lifecycle_of_string s =
     (if s = ''LINKED'' then Some LINKED else if s = ''REMOVED'' then Some REMOVED else None)"

definition text_field :: "json option \<Rightarrow> string field option" where
  "text_field v =
     (case v of None \<Rightarrow> Some Absent | Some JNull \<Rightarrow> Some Null | Some (JStr s) \<Rightarrow> Some (Given s) | _ \<Rightarrow> None)"

definition date_ok :: "json option \<Rightarrow> int field \<Rightarrow> bool" where
  "date_ok v parsed \<longleftrightarrow> v = None \<or> parsed \<noteq> Absent"

definition port_in_int4 :: "int field \<Rightarrow> bool" where
  "port_in_int4 f = (case f of Given v \<Rightarrow> in_int4 v | _ \<Rightarrow> True)"

record StorageUpdate =
  su_tunnelIp :: "string field"
  su_blossomPort :: "int field"
  su_pgAgentPort :: "int field"
  su_declaredCapacityBytes :: "int field"
  su_reportedTotalBytes :: "int field"
  su_reportedFreeBytes :: "int field"
  su_lifecycle :: "StorageLifecycle option"
  su_lastPingAt :: "int field"
  su_createdAt :: "int field"

definition parse_update :: "(string \<Rightarrow> date) \<Rightarrow> json option \<Rightarrow> (nat \<times> string) + StorageUpdate" where
  "parse_update dp body =
     (let lc = enumValue lifecycle_of_string (body_prop body ''lifecycle'') in
      if body_prop body ''ownerNpub'' \<noteq> None \<or> (body_prop body ''lifecycle'' \<noteq> None \<and> lc = None)
      then Inl (400, ''invalid_storage'')
      else
        (let ping = parseOptionalDate dp (body_prop body ''lastPingAt'');
             created = parseOptionalDate dp (body_prop body ''createdAt'') in
         case (parseOptionalPort (body_prop body ''blossomPort''), parseOptionalPort (body_prop body ''pgAgentPort''),
               text_field (body_prop body ''tunnelIp'')) of
           (Some bp, Some pp, Some ip) \<Rightarrow>
             if \<not> date_ok (body_prop body ''lastPingAt'') ping \<or> \<not> date_ok (body_prop body ''createdAt'') created
             then Inl (400, ''invalid_storage'')
             else
               (case (parseBigInt (body_prop body ''declaredCapacityBytes''),
                      parseBigInt (body_prop body ''reportedTotalBytes''),
                      parseBigInt (body_prop body ''reportedFreeBytes'')) of
                  (Some dc, Some rt, Some rf) \<Rightarrow>
                    Inr \<lparr>su_tunnelIp = ip, su_blossomPort = bp, su_pgAgentPort = pp,
                         su_declaredCapacityBytes = dc, su_reportedTotalBytes = rt, su_reportedFreeBytes = rf,
                         su_lifecycle = lc, su_lastPingAt = ping, su_createdAt = created\<rparr>
                | _ \<Rightarrow> Inl (400, ''invalid_bigint''))
         | _ \<Rightarrow> Inl (400, ''invalid_storage'')))"

definition apply_update :: "StorageUpdate \<Rightarrow> StorageProvider \<Rightarrow> StorageProvider" where
  "apply_update u s = s\<lparr>
     sp_tunnelIp := apply_field (su_tunnelIp u) (sp_tunnelIp s),
     sp_blossomPort := apply_field (su_blossomPort u) (sp_blossomPort s),
     sp_pgAgentPort := apply_field (su_pgAgentPort u) (sp_pgAgentPort s),
     sp_declaredCapacityBytes := apply_field (su_declaredCapacityBytes u) (sp_declaredCapacityBytes s),
     sp_reportedTotalBytes := apply_field (su_reportedTotalBytes u) (sp_reportedTotalBytes s),
     sp_reportedFreeBytes := apply_field (su_reportedFreeBytes u) (sp_reportedFreeBytes s),
     sp_lifecycle := (case su_lifecycle u of None \<Rightarrow> sp_lifecycle s | Some l \<Rightarrow> l),
     sp_lastPingAt := apply_field (su_lastPingAt u) (sp_lastPingAt s),
     sp_createdAt := (case su_createdAt u of Given t \<Rightarrow> t | _ \<Rightarrow> sp_createdAt s)\<rparr>"

definition patchStorage :: "(string \<Rightarrow> date) \<Rightarrow> npub \<Rightarrow> json option \<Rightarrow> mesh \<Rightarrow> StorageProvider response \<times> mesh" where
  "patchStorage dp n body m =
     (case parse_update dp body of
        Inl (st, c) \<Rightarrow> (Failure st c, m)
      | Inr u \<Rightarrow>
          if \<not> (port_in_int4 (su_blossomPort u) \<and> port_in_int4 (su_pgAgentPort u)
                 \<and> field_in_int8 (su_declaredCapacityBytes u) \<and> field_in_int8 (su_reportedTotalBytes u)
                 \<and> field_in_int8 (su_reportedFreeBytes u))
          then (server_error, m)
          else
            (case find_storage m n of
               None \<Rightarrow> (Failure 404 ''not_found'', m)
             | Some s \<Rightarrow>
                 (Success 200 (apply_update u s),
                  m\<lparr>storageProviders := update_row sp_npub n (apply_update u) (storageProviders m)\<rparr>)))"

definition deleteStorage :: "npub \<Rightarrow> mesh \<Rightarrow> StorageProvider response \<times> mesh" where
  "deleteStorage n m =
     (case find_storage m n of
        None \<Rightarrow> (Failure 404 ''not_found'', m)
      | Some s \<Rightarrow>
          (Success 200 (s\<lparr>sp_lifecycle := REMOVED\<rparr>),
           m\<lparr>storageProviders := update_row sp_npub n (\<lambda>s. s\<lparr>sp_lifecycle := REMOVED\<rparr>) (storageProviders m)\<rparr>))"

section \<open>Replica backfill\<close>

text \<open>\<open>addAlias\<close> over the map of URLs and the set of ambiguous URLs.\<close>

type_synonym alias_state = "(string \<times> npub) list \<times> string list"

definition addAlias :: "string \<Rightarrow> npub \<Rightarrow> alias_state \<Rightarrow> alias_state" where
  "addAlias url n st =
     (let (aliases, ambiguous) = st in
      case map_of aliases url of
        Some e \<Rightarrow>
          if e \<noteq> [] \<and> e \<noteq> n then (AList.delete url aliases, url # ambiguous)
          else if url \<notin> set ambiguous then (AList.update url n aliases, ambiguous) else st
      | None \<Rightarrow> if url \<notin> set ambiguous then (AList.update url n aliases, ambiguous) else st)"

definition alias_url :: "string \<Rightarrow> string \<Rightarrow> int \<Rightarrow> string" where
  "alias_url scheme ip port = scheme @ ''://'' @ ip @ '':'' @ show_int port"

definition add_storage_aliases :: "alias_state \<Rightarrow> StorageProvider \<Rightarrow> alias_state" where
  "add_storage_aliases st s =
     (case (sp_tunnelIp s, sp_blossomPort s) of
        (Some ip, Some port) \<Rightarrow>
          if ip = [] then st
          else addAlias (alias_url ''https'' ip port) (sp_npub s) (addAlias (alias_url ''http'' ip port) (sp_npub s) st)
      | _ \<Rightarrow> st)"

definition storage_aliases :: "StorageProvider list \<Rightarrow> (string \<times> npub) list" where
  "storage_aliases ss = fst (foldl add_storage_aliases ([], []) ss)"

text \<open>\<open>rewrite\<close> of one replica: \<open>Some\<close> of the replacement, \<open>None\<close> for a URL without one.\<close>

definition replica_target :: "(string \<times> npub) list \<Rightarrow> string \<Rightarrow> npub option" where
  "replica_target aliases r =
     (case map_of aliases (normalizeUrl r) of Some n \<Rightarrow> if n = [] then None else Some n | None \<Rightarrow> None)"

definition rewrite_replica :: "(string \<times> npub) list \<Rightarrow> string \<Rightarrow> string" where
  "rewrite_replica aliases r =
     (if \<not> is_raw_url r then r else (case replica_target aliases r of None \<Rightarrow> r | Some n \<Rightarrow> n))"

text \<open>\<open>distinct: ["hash"]\<close>: the first row of every hash.\<close>

fun distinct_by_hash :: "Blob list \<Rightarrow> Blob list" where
  "distinct_by_hash [] = []"
| "distinct_by_hash (b # bs) = b # filter (\<lambda>x. b_hash x \<noteq> b_hash b) (distinct_by_hash bs)"

record BackfillResult =
  bf_dryRun :: bool
  bf_changedRows :: nat
  bf_replacedValues :: nat
  bf_unmatchedValues :: nat

definition backfill_updates :: "(string \<times> npub) list \<Rightarrow> Blob list \<Rightarrow> (blob_hash \<times> string list) list" where
  "backfill_updates aliases bs =
     map (\<lambda>b. (b_hash b, map (rewrite_replica aliases) (b_replicas b)))
       (filter (\<lambda>b. map (rewrite_replica aliases) (b_replicas b) \<noteq> b_replicas b) (distinct_by_hash bs))"

definition set_replicas :: "blob_hash \<times> string list \<Rightarrow> Blob list \<Rightarrow> Blob list" where
  "set_replicas u bs = map (\<lambda>b. if b_hash b = fst u then b\<lparr>b_replicas := snd u\<rparr> else b) bs"

text \<open>The field \<open>dryRun\<close>: \<open>None\<close> when it is no boolean.\<close>

definition dry_run :: "json option \<Rightarrow> bool option" where
  "dry_run body = (case body_prop body ''dryRun'' of None \<Rightarrow> Some False | Some JNull \<Rightarrow> Some False
     | Some (JBool b) \<Rightarrow> Some b | _ \<Rightarrow> None)"

definition postBackfill :: "json option \<Rightarrow> mesh \<Rightarrow> db \<Rightarrow> BackfillResult response \<times> db" where
  "postBackfill body m d =
     (case dry_run body of
        None \<Rightarrow> (Failure 400 ''invalid_dry_run'', d)
      | Some dryRun \<Rightarrow>
          (let aliases = storage_aliases (storageProviders m);
               updates = backfill_updates aliases (blobs d);
               urls = filter is_raw_url (concat (map b_replicas (distinct_by_hash (blobs d))))
           in (Success 200 \<lparr>bf_dryRun = dryRun, bf_changedRows = length updates,
                 bf_replacedValues = length (filter (\<lambda>r. replica_target aliases r \<noteq> None) urls),
                 bf_unmatchedValues = length (filter (\<lambda>r. replica_target aliases r = None) urls)\<rparr>,
               if dryRun then d else d\<lparr>blobs := foldl (\<lambda>bs u. set_replicas u bs) (blobs d) updates\<rparr>)))"

section \<open>The roster as the proxy sees it\<close>

definition active_record :: "StorageProvider \<Rightarrow> ActiveStorage" where
  "active_record s = \<lparr>as_npub = sp_npub s, as_tunnelIp = the (sp_tunnelIp s), as_blossomPort = nat (the (sp_blossomPort s))\<rparr>"

definition active_roster :: "rat \<Rightarrow> int \<Rightarrow> mesh \<Rightarrow> unit + ActiveStorage list" where
  "active_roster window now m =
     (case getActive window now m of Success _ ss \<Rightarrow> Inr (map active_record ss) | Failure _ _ \<Rightarrow> Inl ())"

section \<open>Invariants of the mesh tables\<close>

definition mesh_ok :: "mesh \<Rightarrow> bool" where
  "mesh_ok m \<longleftrightarrow> distinct (map mm_npub (meshMembers m)) \<and> distinct (map sp_npub (storageProviders m))
     \<and> (\<forall>s \<in> set (storageProviders m). sp_ownerNpub s \<in> mm_npub ` set (meshMembers m)
          \<and> (\<forall>p. sp_blossomPort s = Some p \<longrightarrow> 0 \<le> p \<and> in_int4 p)
          \<and> (\<forall>v. sp_reportedFreeBytes s = Some v \<longrightarrow> 0 \<le> v)
          \<and> (\<forall>v. sp_reportedTotalBytes s = Some v \<longrightarrow> 0 \<le> v))"

text \<open>One request of any caller; a registration may act on an old view of the table.\<close>

inductive mesh_step :: "mesh \<Rightarrow> mesh \<Rightarrow> bool" where
  step_putMember: "mesh_step m (snd (putMember now n body m))"
| step_deleteMember: "mesh_step m (snd (deleteMember now n m))"
| step_postStorage: "mesh_step m (snd (postStorage now body seen m))"
| step_patchStorage: "mesh_step m (snd (patchStorage dp n body m))"
| step_deleteStorage: "mesh_step m (snd (deleteStorage n m))"

lemma parseBigInt_nonneg: "parseBigInt v = Some (Given i) \<Longrightarrow> 0 \<le> i"
  by (induction v rule: parseBigInt.induct) (auto split: if_splits)

lemma parseOptionalPort_nonneg: "parseOptionalPort v = Some (Given i) \<Longrightarrow> 0 \<le> i"
  by (induction v rule: parseOptionalPort.induct) (auto split: if_splits)

lemma apply_field_cases: "apply_field f old = Some v \<Longrightarrow> f = Given v \<or> (f = Absent \<and> old = Some v)"
  by (cases f) auto

lemma parse_update_fields:
  assumes "parse_update dp body = Inr u"
  shows "su_blossomPort u = Given p \<Longrightarrow> 0 \<le> p" and "su_reportedFreeBytes u = Given f \<Longrightarrow> 0 \<le> f"
    and "su_reportedTotalBytes u = Given t \<Longrightarrow> 0 \<le> t"
  using assms
  by (auto simp: parse_update_def Let_def split: if_splits prod.splits option.splits
      dest: parseBigInt_nonneg parseOptionalPort_nonneg)

text \<open>How a request changes the two tables.\<close>

lemma mesh_okI:
  assumes "mesh_ok m" and "map mm_npub (meshMembers m') = map mm_npub (meshMembers m)"
    and "map sp_npub (storageProviders m') = map sp_npub (storageProviders m)"
    and "\<And>s. s \<in> set (storageProviders m') \<Longrightarrow> \<exists>s0 \<in> set (storageProviders m). sp_ownerNpub s = sp_ownerNpub s0
      \<and> (sp_blossomPort s = sp_blossomPort s0 \<or> (\<forall>p. sp_blossomPort s = Some p \<longrightarrow> 0 \<le> p \<and> in_int4 p))
      \<and> (sp_reportedFreeBytes s = sp_reportedFreeBytes s0 \<or> (\<forall>v. sp_reportedFreeBytes s = Some v \<longrightarrow> 0 \<le> v))
      \<and> (sp_reportedTotalBytes s = sp_reportedTotalBytes s0 \<or> (\<forall>v. sp_reportedTotalBytes s = Some v \<longrightarrow> 0 \<le> v))"
  shows "mesh_ok m'"
proof -
  have members: "mm_npub ` set (meshMembers m') = mm_npub ` set (meshMembers m)"
    using assms(2) by (metis set_map)
  have "sp_ownerNpub s \<in> mm_npub ` set (meshMembers m') \<and> (\<forall>p. sp_blossomPort s = Some p \<longrightarrow> 0 \<le> p \<and> in_int4 p)
      \<and> (\<forall>v. sp_reportedFreeBytes s = Some v \<longrightarrow> 0 \<le> v) \<and> (\<forall>v. sp_reportedTotalBytes s = Some v \<longrightarrow> 0 \<le> v)"
    if s: "s \<in> set (storageProviders m')" for s
  proof -
    obtain s0 where s0: "s0 \<in> set (storageProviders m)" "sp_ownerNpub s = sp_ownerNpub s0"
      "sp_blossomPort s = sp_blossomPort s0 \<or> (\<forall>p. sp_blossomPort s = Some p \<longrightarrow> 0 \<le> p \<and> in_int4 p)"
      "sp_reportedFreeBytes s = sp_reportedFreeBytes s0 \<or> (\<forall>v. sp_reportedFreeBytes s = Some v \<longrightarrow> 0 \<le> v)"
      "sp_reportedTotalBytes s = sp_reportedTotalBytes s0 \<or> (\<forall>v. sp_reportedTotalBytes s = Some v \<longrightarrow> 0 \<le> v)"
      using assms(4) [OF s] by blast
    with assms(1) show ?thesis unfolding mesh_ok_def members by metis
  qed
  with assms(1-3) show ?thesis by (simp add: mesh_ok_def)
qed

lemma update_row_same_keys:
  assumes "find_row key k t = Some r" and "key r' = key r"
  shows "map key (update_row key k (\<lambda>_. r') t) = map key t"
  using find_row_SomeD [OF assms(1)] assms(2) by (auto simp: update_row_def)

lemma update_row_mem:
  "x \<in> set (update_row key k f t) \<Longrightarrow> x \<in> set t \<or> (\<exists>y \<in> set t. key y = k \<and> x = f y)"
  by (auto simp: update_row_def split: if_splits)

lemma putMember_ok: "mesh_ok m \<Longrightarrow> mesh_ok (snd (putMember now n body m))"
proof -
  assume ok: "mesh_ok m"
  have upd: "mesh_ok (m\<lparr>meshMembers := update_row mm_npub n (\<lambda>_. mb\<lparr>mm_role := r, mm_status := MEMBER_ACTIVE, mm_updatedAt := now\<rparr>) (meshMembers m)\<rparr>)"
    if "find_member m n = Some mb" for mb r
    using ok by (rule mesh_okI) (use update_row_same_keys [OF that] in auto)
  have ins: "mesh_ok (m\<lparr>meshMembers := meshMembers m @ [mb]\<rparr>)" if "find_member m n = None" "mm_npub mb = n" for mb
    using ok that by (auto simp: mesh_ok_def find_row_None_iff)
  show ?thesis
    by (auto simp: putMember_def Let_def ok intro!: upd ins split: option.split)
qed

lemma deleteMember_ok: "mesh_ok m \<Longrightarrow> mesh_ok (snd (deleteMember now n m))"
proof (cases "find_member m n")
  case (Some mb)
  assume "mesh_ok m"
  then show ?thesis
    by (rule mesh_okI) (use update_row_same_keys [OF Some] Some in \<open>auto simp: deleteMember_def Let_def\<close>)
qed (simp add: deleteMember_def)

lemma link_storage_ok: "mesh_ok m \<Longrightarrow> mesh_ok (snd (link_storage n owner cap st m))"
proof (cases "find_storage m n")
  case (Some s)
  assume "mesh_ok m"
  then show ?thesis
    by (rule mesh_okI)
      (use update_row_same_keys [OF Some] find_row_SomeD [OF Some] Some in \<open>auto simp: link_storage_def Let_def split: if_splits dest!: update_row_mem\<close>)
qed (simp add: link_storage_def)

lemma create_storage_ok:
  assumes "mesh_ok m"
  shows "mesh_ok (snd (create_storage now n owner cap m))"
  using assms link_storage_ok [OF assms]
  by (auto simp: create_storage_def Let_def mesh_ok_def find_row_None_iff split: option.split dest!: find_row_SomeD)

lemma patchStorage_ok: "mesh_ok m \<Longrightarrow> mesh_ok (snd (patchStorage dp n body m))"
proof -
  assume ok: "mesh_ok m"
  have "mesh_ok (m\<lparr>storageProviders := update_row sp_npub n (apply_update u) (storageProviders m)\<rparr>)"
    if u: "parse_update dp body = Inr u" and port: "port_in_int4 (su_blossomPort u)" for u
    using ok
  proof (rule mesh_okI)
    fix s assume "s \<in> set (storageProviders (m\<lparr>storageProviders := update_row sp_npub n (apply_update u) (storageProviders m)\<rparr>))"
    then consider "s \<in> set (storageProviders m)" | y where "y \<in> set (storageProviders m)" "s = apply_update u y"
      by (auto dest!: update_row_mem)
    then show "\<exists>s0 \<in> set (storageProviders m). sp_ownerNpub s = sp_ownerNpub s0
      \<and> (sp_blossomPort s = sp_blossomPort s0 \<or> (\<forall>p. sp_blossomPort s = Some p \<longrightarrow> 0 \<le> p \<and> in_int4 p))
      \<and> (sp_reportedFreeBytes s = sp_reportedFreeBytes s0 \<or> (\<forall>v. sp_reportedFreeBytes s = Some v \<longrightarrow> 0 \<le> v))
      \<and> (sp_reportedTotalBytes s = sp_reportedTotalBytes s0 \<or> (\<forall>v. sp_reportedTotalBytes s = Some v \<longrightarrow> 0 \<le> v))"
    proof cases
      case 2
      with parse_update_fields [OF u] port show ?thesis
        by (intro bexI [of _ y]) (auto simp: apply_update_def port_in_int4_def dest!: apply_field_cases)
    qed blast
  qed (auto simp: apply_update_def)
  with ok show ?thesis
    by (auto simp: patchStorage_def split: sum.split option.split)
qed

lemma deleteStorage_ok: "mesh_ok m \<Longrightarrow> mesh_ok (snd (deleteStorage n m))"
proof (cases "find_storage m n")
  case (Some s)
  assume "mesh_ok m"
  then show ?thesis
    by (rule mesh_okI) (use Some in \<open>auto simp: deleteStorage_def dest!: update_row_mem\<close>)
qed (simp add: deleteStorage_def)

interpretation mesh: invariant_system mesh_ok mesh_step mesh_ok
proof
  fix s t assume "mesh_step s t" and "mesh_ok s"
  then show "mesh_ok t"
    using putMember_ok deleteMember_ok link_storage_ok create_storage_ok patchStorage_ok deleteStorage_ok
    by (induction rule: mesh_step.induct)
      (auto simp: postStorage_def split: option.split json.split prod.split)
qed simp

section \<open>Ownership\<close>

lemma find_storage_replace:
  "sp_npub s' = n \<Longrightarrow> find_row sp_npub k (update_row sp_npub n (\<lambda>_. s') t)
     = (if k = n then map_option (\<lambda>_. s') (find_row sp_npub k t) else find_row sp_npub k t)"
  by (induction t) (auto simp: update_row_def)

lemma apply_update_keys [simp]: "sp_npub (apply_update u s) = sp_npub s" "sp_ownerNpub (apply_update u s) = sp_ownerNpub s"
  by (simp_all add: apply_update_def)

lemma link_storage_owner:
  "find_storage m k = Some s \<Longrightarrow> \<exists>s'. find_storage (snd (link_storage n owner cap st m)) k = Some s' \<and> sp_ownerNpub s' = sp_ownerNpub s"
proof (cases "find_storage m n")
  case (Some x)
  assume "find_storage m k = Some s"
  with Some find_row_SomeD [OF Some] find_storage_replace [of _ n k "storageProviders m"] show ?thesis
    by (auto simp: link_storage_def Let_def)
qed (simp add: link_storage_def)

lemma owner_kept:
  assumes "mesh_step m m'" and "find_storage m k = Some s"
  shows "\<exists>s'. find_storage m' k = Some s' \<and> sp_ownerNpub s' = sp_ownerNpub s"
  using assms
proof (induction rule: mesh_step.induct)
  case (step_putMember m now n body)
  then show ?case by (auto simp: putMember_def Let_def split: option.split)
next
  case (step_deleteMember m now n)
  then show ?case by (auto simp: deleteMember_def Let_def split: option.split)
next
  case (step_postStorage m now body seen)
  have create: "\<exists>s'. find_storage (snd (create_storage now n owner cap m)) k = Some s' \<and> sp_ownerNpub s' = sp_ownerNpub s" for n owner cap
    using step_postStorage link_storage_owner [OF step_postStorage(1)]
    by (auto simp: create_storage_def Let_def find_row_append split: option.split)
  show ?case
    using step_postStorage create link_storage_owner [OF step_postStorage(1)]
    by (auto simp: postStorage_def split: option.split json.split prod.split)
next
  case (step_patchStorage m dp n body)
  then show ?case
    by (auto simp: patchStorage_def find_row_update split: sum.split option.split)
next
  case (step_deleteStorage m n)
  then show ?case by (auto simp: deleteStorage_def find_row_update split: option.split)
qed

section \<open>Capacity\<close>

lemma bigint_div_mult_le: "0 \<le> a \<Longrightarrow> 0 < b \<Longrightarrow> b * bigint_div a b \<le> a"
  by (simp add: bigint_div_def) (metis mult.commute div_mult_mod_eq le_add_same_cancel1 pos_mod_sign)

lemma committed_nonneg: "0 \<le> committed_bytes now d"
  unfolding committed_bytes_def by (rule sum_where_nonneg) simp

section \<open>Aliases and the backfill\<close>

definition storage_urls :: "StorageProvider \<Rightarrow> string list" where
  "storage_urls s =
     (case (sp_tunnelIp s, sp_blossomPort s) of
        (Some ip, Some port) \<Rightarrow> if ip = [] then [] else [alias_url ''http'' ip port, alias_url ''https'' ip port]
      | _ \<Rightarrow> [])"

definition alias_pairs :: "StorageProvider list \<Rightarrow> (string \<times> npub) list" where
  "alias_pairs ss = concat (map (\<lambda>s. map (\<lambda>u. (u, sp_npub s)) (storage_urls s)) ss)"

definition add_pairs :: "(string \<times> npub) list \<Rightarrow> alias_state" where
  "add_pairs ps = foldl (\<lambda>st p. addAlias (fst p) (snd p) st) ([], []) ps"

lemma storage_aliases_pairs: "storage_aliases ss = fst (add_pairs (alias_pairs ss))"
proof -
  have one: "add_storage_aliases st s = foldl (\<lambda>st p. addAlias (fst p) (snd p) st) st (map (\<lambda>u. (u, sp_npub s)) (storage_urls s))" for st s
    by (simp add: add_storage_aliases_def storage_urls_def split: option.split)
  have "foldl add_storage_aliases st ss = foldl (\<lambda>st p. addAlias (fst p) (snd p) st) st (alias_pairs ss)" for st
    by (induction ss arbitrary: st) (simp_all add: alias_pairs_def one)
  then show ?thesis by (simp add: storage_aliases_def add_pairs_def)
qed

text \<open>An alias is kept exactly for a URL that names one provider.\<close>

definition named_by :: "(string \<times> npub) list \<Rightarrow> string \<Rightarrow> npub set" where
  "named_by ps u = {n. (u, n) \<in> set ps}"

lemma named_by_snoc: "named_by (ps @ [(url, n)]) u = (if u = url then insert n (named_by ps u) else named_by ps u)"
  by (auto simp: named_by_def)

lemma add_pairs_inv:
  assumes "\<forall>p \<in> set ps. snd p \<noteq> []"
  shows "(\<forall>u n. map_of (fst (add_pairs ps)) u = Some n \<longleftrightarrow> named_by ps u = {n})
    \<and> (\<forall>u. u \<in> set (snd (add_pairs ps)) \<longleftrightarrow> named_by ps u \<noteq> {} \<and> (\<forall>n. named_by ps u \<noteq> {n}))"
  using assms
proof (induction ps rule: rev_induct)
  case Nil
  then show ?case by (simp add: add_pairs_def named_by_def)
next
  case (snoc p ps)
  obtain url n where p: "p = (url, n)" by fastforce
  obtain al amb where st: "add_pairs ps = (al, amb)" by fastforce
  have step: "add_pairs (ps @ [p]) = addAlias url n (al, amb)" using st by (simp add: add_pairs_def p)
  have al: "map_of al u = Some k \<longleftrightarrow> named_by ps u = {k}"
    and amb: "u \<in> set amb \<longleftrightarrow> named_by ps u \<noteq> {} \<and> (\<forall>n. named_by ps u \<noteq> {n})" for u k
    using snoc.IH snoc.prems st by auto
  have ne: "k \<in> named_by ps url \<Longrightarrow> k \<noteq> []" for k using snoc.prems by (force simp: named_by_def)
  consider (none) "named_by ps url = {}" | (one) e where "named_by ps url = {e}"
    | (many) "url \<in> set amb" using amb [of url] by blast
  then show ?case
  proof cases
    case none
    then have "map_of al url = None" "url \<notin> set amb" using al [of url] amb [of url] by (metis insert_not_empty not_None_eq, simp)
    then have "addAlias url n (al, amb) = (AList.update url n al, amb)" by (simp add: addAlias_def)
    with none show ?thesis by (auto simp: step [unfolded p] p named_by_snoc al amb update_conv')
  next
    case one
    then have e: "map_of al url = Some e" "url \<notin> set amb" "e \<noteq> []" using al [of url] amb [of url] ne by auto
    show ?thesis
    proof (cases "e = n")
      case True
      with e have "addAlias url n (al, amb) = (AList.update url n al, amb)" by (simp add: addAlias_def)
      with one True show ?thesis by (auto simp: step [unfolded p] p named_by_snoc al amb update_conv')
    next
      case False
      with e have "addAlias url n (al, amb) = (AList.delete url al, url # amb)" by (simp add: addAlias_def)
      with one False show ?thesis by (auto simp: step [unfolded p] p named_by_snoc al amb delete_conv' doubleton_eq_iff)
    qed
  next
    case many
    then have "map_of al url = None" using al [of url] amb [of url] by (metis not_None_eq)
    with many have "addAlias url n (al, amb) = (al, amb)" by (simp add: addAlias_def)
    moreover have "insert n (named_by ps url) \<noteq> {k}" for k using many amb [of url] by blast
    ultimately show ?thesis using many by (auto simp: step [unfolded p] p named_by_snoc al amb)
  qed
qed

end
