(* ===== verification/Providers_Props.thy ===== *)
theory Providers_Props
  imports Providers
begin

text \<open>
  Refinement statements about the mesh tables: the alias table of the replica backfill against the
  plain reading \<open>a URL stands for the one provider that has this address\<close>, the backfill as one
  map over the blob rows, and the registry of the proxy as a view of the provider table. Then the
  ownership of a provider over any sequence of requests, the soundness of the capacity signal,
  and a sample mesh on which the hypotheses hold.
\<close>

section \<open>Specification of the backfill\<close>

definition providers_at :: "StorageProvider list \<Rightarrow> string \<Rightarrow> npub list" where
  "providers_at ss u = map sp_npub (filter (\<lambda>s. u \<in> set (storage_urls s)) ss)"

definition replica_spec :: "StorageProvider list \<Rightarrow> string \<Rightarrow> string" where
  "replica_spec ss r =
     (if is_raw_url r then (case providers_at ss (normalizeUrl r) of [n] \<Rightarrow> n | _ \<Rightarrow> r) else r)"

definition backfill_spec :: "StorageProvider list \<Rightarrow> Blob list \<Rightarrow> Blob \<Rightarrow> Blob" where
  "backfill_spec ss bs b =
     (case find_row b_hash (b_hash b) bs of
        Some b0 \<Rightarrow>
          if map (replica_spec ss) (b_replicas b0) = b_replicas b0 then b
          else b\<lparr>b_replicas := map (replica_spec ss) (b_replicas b0)\<rparr>
      | None \<Rightarrow> b)"

definition provider_ids_ok :: "StorageProvider list \<Rightarrow> bool" where
  "provider_ids_ok ss \<longleftrightarrow> distinct (map sp_npub ss) \<and> list_all (\<lambda>s. sp_npub s \<noteq> [] \<and> \<not> is_raw_url (sp_npub s)) ss"

lemma providers_at_named: "set (providers_at ss u) = named_by (alias_pairs ss) u"
  by (auto simp: providers_at_def named_by_def alias_pairs_def)

lemma distinct_providers_at: "distinct (map sp_npub ss) \<Longrightarrow> distinct (providers_at ss u)"
  by (simp add: providers_at_def distinct_map_filter)

lemma set_singleton_list: "distinct xs \<Longrightarrow> set xs = {x} \<longleftrightarrow> xs = [x]"
  by (cases xs; cases "tl xs") auto

lemma storage_aliases_spec:
  assumes "provider_ids_ok ss"
  shows "map_of (storage_aliases ss) u = Some n \<longleftrightarrow> providers_at ss u = [n]"
proof -
  have "\<forall>p \<in> set (alias_pairs ss). snd p \<noteq> []"
    using assms by (auto simp: alias_pairs_def provider_ids_ok_def list_all_iff)
  then have "map_of (storage_aliases ss) u = Some n \<longleftrightarrow> named_by (alias_pairs ss) u = {n}"
    unfolding storage_aliases_pairs using add_pairs_inv by blast
  also have "\<dots> \<longleftrightarrow> providers_at ss u = [n]"
    using assms set_singleton_list distinct_providers_at
    by (metis providers_at_named provider_ids_ok_def)
  finally show ?thesis .
qed

lemma providers_at_ids:
  "provider_ids_ok ss \<Longrightarrow> n \<in> set (providers_at ss u) \<Longrightarrow> n \<noteq> [] \<and> \<not> is_raw_url n"
  by (auto simp: providers_at_def provider_ids_ok_def list_all_iff)

lemma rewrite_replica_spec:
  assumes ids: "provider_ids_ok ss"
  shows "rewrite_replica (storage_aliases ss) r = replica_spec ss r"
proof (cases "map_of (storage_aliases ss) (normalizeUrl r)")
  case None
  then have "providers_at ss (normalizeUrl r) \<noteq> [n]" for n
    using storage_aliases_spec [OF ids] by (metis option.distinct(1))
  with None show ?thesis
    by (auto simp: rewrite_replica_def replica_spec_def replica_target_def split: list.split)
next
  case (Some n)
  then have at: "providers_at ss (normalizeUrl r) = [n]" by (simp add: storage_aliases_spec [OF ids])
  with providers_at_ids [OF ids, of n "normalizeUrl r"] have "n \<noteq> []" by simp
  with Some at show ?thesis by (simp add: rewrite_replica_def replica_spec_def replica_target_def)
qed

lemma replica_spec_idem: "provider_ids_ok ss \<Longrightarrow> replica_spec ss (replica_spec ss r) = replica_spec ss r"
  using providers_at_ids [of ss _ "normalizeUrl r"]
  by (fastforce simp: replica_spec_def split: list.split)

section \<open>The writes of the backfill\<close>

lemma distinct_by_hash_filter:
  "find_row b_hash h (distinct_by_hash bs) = find_row b_hash h bs"
proof (induction bs)
  case (Cons b bs)
  have "b_hash b \<noteq> h \<Longrightarrow> find_row b_hash h (filter (\<lambda>x. b_hash x \<noteq> b_hash b) xs) = find_row b_hash h xs" for xs :: "Blob list"
    by (induction xs) auto
  with Cons show ?case by simp
qed simp

lemma distinct_by_hash_keys: "distinct (map b_hash (distinct_by_hash bs))"
  by (induction bs) (auto simp: distinct_map_filter)

text \<open>A list of updates with distinct hashes is one pass over the rows.\<close>

lemma apply_updates:
  "distinct (map fst us) \<Longrightarrow> foldl (\<lambda>bs u. set_replicas u bs) bs us
     = map (\<lambda>b. case map_of us (b_hash b) of None \<Rightarrow> b | Some rs \<Rightarrow> b\<lparr>b_replicas := rs\<rparr>) bs"
proof (induction us arbitrary: bs)
  case (Cons u us)
  then have "map_of us (fst u) = None" by (simp add: map_of_eq_None_iff)
  with Cons show ?case
    by (auto simp: set_replicas_def comp_def intro!: map_cong split: option.split)
qed simp

lemma map_of_updates:
  assumes "distinct (map b_hash bs)"
  shows "map_of (map (\<lambda>b. (b_hash b, f b)) (filter P bs)) h
    = (case find_row b_hash h bs of Some b \<Rightarrow> if P b then Some (f b) else None | None \<Rightarrow> None)"
  using assms
proof (induction bs)
  case (Cons b bs)
  show ?case
  proof (cases "b_hash b = h")
    case True
    with Cons.prems have "find_row b_hash h bs = None" by (auto simp: find_row_None_iff)
    with Cons True show ?thesis by simp
  qed (use Cons in auto)
qed simp

lemma backfill_rows:
  assumes "provider_ids_ok ss"
  shows "foldl (\<lambda>bs u. set_replicas u bs) bs (backfill_updates (storage_aliases ss) bs) = map (backfill_spec ss bs) bs"
proof -
  let ?us = "backfill_updates (storage_aliases ss) bs"
  have rw: "rewrite_replica (storage_aliases ss) = replica_spec ss"
    by (rule ext) (rule rewrite_replica_spec [OF assms])
  have "map_of ?us h = (case find_row b_hash h bs of
      Some b \<Rightarrow> if map (replica_spec ss) (b_replicas b) \<noteq> b_replicas b then Some (map (replica_spec ss) (b_replicas b)) else None
    | None \<Rightarrow> None)" for h
    unfolding backfill_updates_def rw map_of_updates [OF distinct_by_hash_keys] distinct_by_hash_filter ..
  moreover have "distinct (map fst ?us)"
    by (simp add: backfill_updates_def comp_def distinct_map_filter distinct_by_hash_keys)
  ultimately show ?thesis
    by (auto simp: apply_updates backfill_spec_def intro!: map_cong split: option.split)
qed

lemma backfill_spec_hash [simp]: "b_hash (backfill_spec ss bs b) = b_hash b"
  by (simp add: backfill_spec_def split: option.split)

lemma find_row_map: "(\<And>b. key (f b) = key b) \<Longrightarrow> find_row key k (map f t) = map_option f (find_row key k t)"
  by (induction t) auto

lemma spec_replicas_fixed:
  assumes "provider_ids_ok ss" and "find_row b_hash h (map (backfill_spec ss bs) bs) = Some b"
  shows "map (replica_spec ss) (b_replicas b) = b_replicas b"
proof -
  obtain b0 where b0: "find_row b_hash h bs = Some b0" "b = backfill_spec ss bs b0"
    using assms(2) by (auto simp: find_row_map)
  with find_row_SomeD [OF b0(1)] show ?thesis
    using replica_spec_idem [OF assms(1)] by (auto simp: backfill_spec_def)
qed

lemma backfill_nothing_left:
  assumes "provider_ids_ok ss"
  shows "backfill_updates (storage_aliases ss) (map (backfill_spec ss bs) bs) = []"
proof -
  have rw: "rewrite_replica (storage_aliases ss) = replica_spec ss"
    by (rule ext) (rule rewrite_replica_spec [OF assms])
  have "map (replica_spec ss) (b_replicas b) = b_replicas b"
    if "b \<in> set (distinct_by_hash (map (backfill_spec ss bs) bs))" for b
    using spec_replicas_fixed [OF assms, of "b_hash b" bs b] find_row_unique [OF distinct_by_hash_keys that]
    by (simp add: distinct_by_hash_filter)
  then show ?thesis by (simp add: backfill_updates_def rw filter_False)
qed


section \<open>The registry as a view of the provider table\<close>

definition active_url :: "StorageProvider \<Rightarrow> string" where
  "active_url s = ''http://'' @ hostForUrl (the (sp_tunnelIp s)) @ '':'' @ show_nat (nat (the (sp_blossomPort s)))"

lemma storage_url_record: "storage_url (active_record s) = active_url s"
  by (simp add: storage_url_def active_record_def active_url_def)

lemma registry_of_lookup:
  assumes "distinct (map sp_npub ss)"
  shows "map_of (registry_of (map active_record ss)) k = map_option active_url (find_row sp_npub k ss)"
  using assms
proof (induction ss rule: rev_induct)
  case Nil
  then show ?case by (simp add: registry_of_def)
next
  case (snoc s ss)
  have step: "registry_of (map active_record (ss @ [s]))
      = AList.update (sp_npub s) (active_url s) (registry_of (map active_record ss))"
    by (simp add: registry_of_def storage_url_record [unfolded active_record_def] active_record_def)
  have "find_row sp_npub (sp_npub s) ss = None" using snoc.prems by (simp add: find_row_None_iff)
  with snoc show ?case
    unfolding step by (auto simp: update_conv' find_row_append split: option.split)
qed

lemma find_row_filter:
  "distinct (map key t) \<Longrightarrow> find_row key k (filter P t)
     = (case find_row key k t of Some r \<Rightarrow> if P r then Some r else None | None \<Rightarrow> None)"
proof (induction t)
  case (Cons r t)
  then have "key r = k \<Longrightarrow> find_row key k t = None" by (auto simp: find_row_None_iff)
  with Cons show ?case by (auto split: option.splits if_splits)
qed simp

text \<open>
  C28. After a successful poll the registry of the proxy is a view of the provider table. A provider id
  resolves to the address of its row if the row is linked, has an address and was heard of
  within the window, and to nothing otherwise; a legacy URL resolves to itself. The candidates for an
  upload are exactly the active providers, each once and with a working address.
\<close>

theorem registry_refines_table:
  assumes "provider_ids_ok (storageProviders m)" and "roster_cutoff window now = Some cutoff"
  shows "reg_resolve (reg_refresh (active_roster window now m) old) k =
      (if is_raw_url k then Some k
       else (case find_storage m k of
               Some s \<Rightarrow> if is_active cutoff s then Some (active_url s) else None
             | None \<Rightarrow> None))
    \<and> map_of (map (\<lambda>c. (sc_id c, sc_url c)) (candidates (reg_refresh (active_roster window now m) old))) k =
        (case find_storage m k of
           Some s \<Rightarrow> if is_active cutoff s then Some (active_url s) else None
         | None \<Rightarrow> None)
    \<and> distinct (map sc_id (candidates (reg_refresh (active_roster window now m) old)))"
proof -
  let ?ss = "filter (is_active cutoff) (storageProviders m)"
  have reg: "reg_refresh (active_roster window now m) old = registry_of (map active_record ?ss)"
    using assms(2) by (simp add: reg_refresh_def active_roster_def getActive_def)
  have d: "distinct (map sp_npub (storageProviders m))" using assms(1) by (simp add: provider_ids_ok_def)
  then have "map_of (registry_of (map active_record ?ss)) k = map_option active_url (find_row sp_npub k ?ss)"
    by (intro registry_of_lookup) (simp add: distinct_map_filter)
  then have look: "map_of (registry_of (map active_record ?ss)) k =
      (case find_storage m k of Some s \<Rightarrow> if is_active cutoff s then Some (active_url s) else None | None \<Rightarrow> None)"
    by (simp add: find_row_filter [OF d] split: option.split)
  have ids: "map (\<lambda>c. (sc_id c, sc_url c)) (candidates r) = r" for r
    by (induction r) (auto simp: candidates_def)
  have keys: "map sc_id (candidates r) = map fst r" for r
    by (induction r) (auto simp: candidates_def)
  have "distinct (map fst (foldl (\<lambda>m a. AList.update (as_npub a) (storage_url a) m) r xs))" if "distinct (map fst r)" for r xs
    using that by (induction xs arbitrary: r) (simp_all add: distinct_update)
  then have "distinct (map fst (registry_of xs))" for xs by (simp add: registry_of_def)
  with look show ?thesis by (simp add: reg reg_resolve_def ids keys)
qed

section \<open>Ownership and capacity\<close>

text \<open>
  C29. A storage provider belongs to one member for good: whatever requests follow, also registrations
  that race with each other on an outdated view of the table, a registered provider stays in the
  table with the owner it was registered with, and its owner is a mesh member.
\<close>

theorem provider_owner_fixed:
  assumes "mesh_ok m" and "find_storage m n = Some s" and "mesh_step\<^sup>*\<^sup>* m m'"
  shows "\<exists>s'. find_storage m' n = Some s' \<and> sp_ownerNpub s' = sp_ownerNpub s \<and> find_member m' (sp_ownerNpub s') \<noteq> None"
proof -
  from assms(3,2) have kept: "\<exists>s'. find_storage m' n = Some s' \<and> sp_ownerNpub s' = sp_ownerNpub s"
  proof (induction rule: rtranclp_induct)
    case (step y z)
    then show ?case using owner_kept by metis
  qed blast
  then obtain s' where s': "find_storage m' n = Some s'" "sp_ownerNpub s' = sp_ownerNpub s" by blast
  have "mesh_ok m'" by (rule mesh.inv_steps [OF assms(1,3)])
  then have "sp_ownerNpub s' \<in> mm_npub ` set (meshMembers m')"
    using find_row_SomeD [OF s'(1)] by (auto simp: mesh_ok_def)
  with s' show ?thesis by (simp add: find_row_None_iff)
qed

text \<open>
  C30. The capacity signal does not promise space that is not there. If it says that signups are open
  while commitments are counted, then the free bytes that the active providers reported hold
  the unused part of every live allowance and the configured reserve, on as many replicas as a
  new blob will get (the reserve being at least one byte).
\<close>

theorem capacity_not_oversold:
  assumes "mesh_ok m" and "getCapacity window reps (Some ''true'') mf now m d = Success st c" and "cp_signupsOpen c" and "0 < cp_minFreeBytes c"
  shows "cp_replicas c * (cp_committedBytes c + cp_minFreeBytes c) \<le> cp_freeBytes c
    \<and> cp_committedBytes c = committed_bytes now d \<and> 1 \<le> cp_replicas c \<and> cp_replicas c \<le> int (cp_providers c)"
proof -
  obtain cutoff where c: "c = capacity_of reps (Some ''true'') mf (filter (is_active cutoff) (storageProviders m)) (committed_bytes now d)"
    using assms(2) by (auto simp: getCapacity_def server_error_def split: option.splits if_splits)
  define ps where "ps = filter (is_active cutoff) (storageProviders m)"
  define free where "free = sum_list (map (\<lambda>s. bytes_or_zero (sp_reportedFreeBytes s)) ps)"
  define r where "r = max 1 (min (max 1 \<lfloor>positiveNumber reps 2\<rfloor>) (int (length ps)))"
  have "0 \<le> free"
    unfolding free_def ps_def using assms(1) by (intro sum_list_nonneg) (auto simp: mesh_ok_def bytes_or_zero_def split: option.splits)
  then have raw: "r * bigint_div free r \<le> free" by (rule bigint_div_mult_le) (simp add: r_def)
  have ne: "ps \<noteq> []" and le: "cp_minFreeBytes c + committed_bytes now d \<le> bigint_div free r"
    using assms(3,4) unfolding c ps_def [symmetric] capacity_of_def Let_def free_def [symmetric] r_def [symmetric]
    by (simp_all split: if_splits)
  have f: "cp_replicas c = r" "cp_freeBytes c = free" "cp_committedBytes c = committed_bytes now d" "cp_providers c = length ps"
    unfolding c ps_def [symmetric] capacity_of_def Let_def by (simp_all add: free_def r_def)
  have "r * (committed_bytes now d + cp_minFreeBytes c) \<le> r * bigint_div free r"
    using le by (intro mult_left_mono) (simp_all add: r_def)
  with raw have "r * (committed_bytes now d + cp_minFreeBytes c) \<le> free" by (rule order_trans [rotated])
  moreover have "1 \<le> int (length ps)" using ne by (cases ps) auto
  ultimately show ?thesis unfolding f by (simp add: r_def)
qed

section \<open>A sample mesh\<close>

definition node_member :: MeshMember where
  "node_member = \<lparr>mm_npub = ''npub1owner'', mm_role = CLIENT, mm_status = MEMBER_ACTIVE,
     mm_addedByNpub = None, mm_createdAt = 0, mm_updatedAt = 0\<rparr>"

definition node_provider :: StorageProvider where
  "node_provider = \<lparr>sp_npub = ''npub1node'', sp_ownerNpub = ''npub1owner'', sp_tunnelIp = Some ''10.0.0.2'',
     sp_blossomPort = Some 7, sp_pgAgentPort = None, sp_declaredCapacityBytes = Some 5000,
     sp_reportedTotalBytes = Some 5000, sp_reportedFreeBytes = Some 4000, sp_lifecycle = LINKED,
     sp_lastPingAt = Some 1000000, sp_createdAt = 0\<rparr>"

definition node_mesh :: mesh where
  "node_mesh = \<lparr>meshMembers = [node_member], storageProviders = [node_provider]\<rparr>"

definition node_blob :: Blob where
  "node_blob = \<lparr>b_hash = ''h1'', b_npub = ''npub1user'', b_size = 3,
     b_replicas = [''http://10.0.0.2:7/'', ''http://10.9.9.9:7''], b_createdAt = 0\<rparr>"

definition node_db :: db where
  "node_db = \<lparr>users = [\<lparr>u_npub = ''npub1user'', u_planExpiresAt = Some 2000000, u_storageBytes = Some 1003,
       u_usedStorage = 3, u_createdAt = 0\<rparr>],
     blobs = [node_blob], grants = [], serviceAccounts = [], notificationLogs = [], moderationActions = []\<rparr>"

lemma sample_ids: "provider_ids_ok (storageProviders node_mesh)"
  by code_simp

lemma sample_mesh_ok: "mesh_ok node_mesh"
  by (simp add: mesh_ok_def node_mesh_def node_member_def node_provider_def in_int4_def)

lemma sample_cutoff: "roster_cutoff 960 1000001 = Some 40001"
  by (simp add: roster_cutoff_def trunc_def new_Date_def MAX_DATE_MS_def)

lemma sample_found: "find_storage node_mesh ''npub1node'' = Some node_provider"
  by (simp add: node_mesh_def node_provider_def)


theorem registry_refines_table_witness:
  "reg_resolve (reg_refresh (active_roster 960 1000001 node_mesh) []) ''npub1node'' = Some ''http://10.0.0.2:7''"
proof -
  have "active_url node_provider = ''http://10.0.0.2:7''" and "\<not> is_raw_url ''npub1node''"
    and "is_active 40001 node_provider" by code_simp+
  with registry_refines_table [OF sample_ids sample_cutoff, of "[]" "''npub1node''"] sample_found show ?thesis by simp
qed

theorem provider_owner_fixed_witness:
  "\<exists>s'. find_storage (snd (deleteStorage ''npub1node'' node_mesh)) ''npub1node'' = Some s' \<and> sp_ownerNpub s' = ''npub1owner''
    \<and> find_member (snd (deleteStorage ''npub1node'' node_mesh)) ''npub1owner'' \<noteq> None"
proof -
  have "mesh_step\<^sup>*\<^sup>* node_mesh (snd (deleteStorage ''npub1node'' node_mesh))"
    by (rule r_into_rtranclp) (rule step_deleteStorage)
  moreover have "sp_ownerNpub node_provider = ''npub1owner''" by (simp add: node_provider_def)
  ultimately show ?thesis
    using provider_owner_fixed [OF sample_mesh_ok sample_found] by metis
qed

lemma sample_capacity:
  "getCapacity 960 None (Some ''true'') (Some ''5'') 1000001 node_mesh node_db
     = Success 200 \<lparr>cp_providers = 1, cp_replicas = 1, cp_totalBytes = 5000, cp_freeBytes = 4000, cp_committedBytes = 1000,
         cp_availableBytes = 3000, cp_minFreeBytes = 5, cp_signupsOpen = True\<rparr>"
proof -
  have "js_Number ''5'' = Num 5"
    by (subst js_Number_digits) code_simp+
  then have f: "positiveNumber (Some ''5'') 1073741824 = 5" by (simp add: positiveNumber_def)
  have a: "filter (is_active 40001) (storageProviders node_mesh) = [node_provider]" by code_simp
  have c: "committed_bytes 1000001 node_db = 1000" by code_simp
  show ?thesis
    unfolding getCapacity_def sample_cutoff option.case a c capacity_of_def f
    by (simp add: in_int8_def positiveNumber_def node_provider_def bytes_or_zero_def bigint_div_def Let_def)
qed

theorem capacity_not_oversold_witness:
  "(1::int) * (1000 + 5) \<le> 4000 \<and> committed_bytes 1000001 node_db = 1000"
  using capacity_not_oversold [OF sample_mesh_ok sample_capacity] by simp

end
