(* ===== verification/Serialize.thy ===== *)
theory Serialize
  imports JsDate Providers_Props
begin

text \<open>
  The JSON bodies of the data service, \<open>packages/db/src/serialize.ts\<close>, and what its clients read
  back from them: the dates and sizes from which \<open>deriveAccess\<close> computes, and the addresses from
  which the proxy builds its registry. The other theories pass typed rows between the services;
  the theorem of this theory is the reason why this loses nothing.
\<close>

section \<open>Printers\<close>

definition json_opt :: "('a \<Rightarrow> json) \<Rightarrow> 'a option \<Rightarrow> json" where
  "json_opt f v = (case v of None \<Rightarrow> JNull | Some x \<Rightarrow> f x)"

definition json_date :: "int \<Rightarrow> json" where
  "json_date t = JStr (toISOString t)"

definition json_bigint :: "int \<Rightarrow> json" where
  "json_bigint i = JStr (show_int i)"

definition userToJson :: "User \<Rightarrow> json" where
  "userToJson u = JObj [(''npub'', JStr (u_npub u)), (''planExpiresAt'', json_opt json_date (u_planExpiresAt u)),
     (''storageBytes'', json_opt json_bigint (u_storageBytes u)), (''usedStorage'', json_bigint (u_usedStorage u)),
     (''createdAt'', json_date (u_createdAt u))]"

definition blobToJson :: "Blob \<Rightarrow> json" where
  "blobToJson b = JObj [(''hash'', JStr (b_hash b)), (''npub'', JStr (b_npub b)), (''size'', json_bigint (b_size b)),
     (''replicas'', JArr (map JStr (b_replicas b))), (''createdAt'', json_date (b_createdAt b))]"

definition role_name :: "MeshRole \<Rightarrow> string" where
  "role_name r = (case r of CLIENT \<Rightarrow> ''CLIENT'' | ADMIN \<Rightarrow> ''ADMIN'')"

definition status_name :: "MeshStatus \<Rightarrow> string" where
  "status_name st = (case st of MEMBER_ACTIVE \<Rightarrow> ''ACTIVE'' | REVOKED \<Rightarrow> ''REVOKED'')"

definition lifecycle_name :: "StorageLifecycle \<Rightarrow> string" where
  "lifecycle_name l = (case l of LINKED \<Rightarrow> ''LINKED'' | REMOVED \<Rightarrow> ''REMOVED'')"

definition meshMemberToJson :: "MeshMember \<Rightarrow> nat option \<Rightarrow> json" where
  "meshMemberToJson mb storageCount = JObj ([(''npub'', JStr (mm_npub mb)), (''role'', JStr (role_name (mm_role mb))),
     (''status'', JStr (status_name (mm_status mb))), (''addedByNpub'', json_opt JStr (mm_addedByNpub mb)),
     (''createdAt'', json_date (mm_createdAt mb)), (''updatedAt'', json_date (mm_updatedAt mb))]
     @ (case storageCount of None \<Rightarrow> [] | Some n \<Rightarrow> [(''storageCount'', JNum (num_of_int (int n)))]))"

definition storageProviderToJson :: "StorageProvider \<Rightarrow> json" where
  "storageProviderToJson s = JObj [(''npub'', JStr (sp_npub s)), (''ownerNpub'', JStr (sp_ownerNpub s)),
     (''tunnelIp'', json_opt JStr (sp_tunnelIp s)),
     (''blossomPort'', json_opt (\<lambda>p. JNum (num_of_int p)) (sp_blossomPort s)),
     (''pgAgentPort'', json_opt (\<lambda>p. JNum (num_of_int p)) (sp_pgAgentPort s)),
     (''declaredCapacityBytes'', json_opt json_bigint (sp_declaredCapacityBytes s)),
     (''reportedTotalBytes'', json_opt json_bigint (sp_reportedTotalBytes s)),
     (''reportedFreeBytes'', json_opt json_bigint (sp_reportedFreeBytes s)),
     (''lifecycle'', JStr (lifecycle_name (sp_lifecycle s))),
     (''lastPingAt'', json_opt json_date (sp_lastPingAt s)), (''createdAt'', json_date (sp_createdAt s))]"

definition notificationToJson :: "NotificationLog \<Rightarrow> json" where
  "notificationToJson r = JObj [(''id'', JStr (nl_id r)), (''npub'', JStr (nl_npub r)), (''kind'', JStr (nl_kind r)),
     (''ref'', json_opt JStr (nl_ref r)), (''channel'', JStr (nl_channel r)), (''sentAt'', json_date (nl_sentAt r))]"

definition moderationToJson :: "ModerationAction \<Rightarrow> json" where
  "moderationToJson a = JObj [(''id'', JStr (ma_id a)), (''hash'', JStr (ma_hash a)), (''npub'', JStr (ma_npub a)),
     (''adminNpub'', JStr (ma_adminNpub a)), (''reason'', JStr (ma_reason a)), (''createdAt'', json_date (ma_createdAt a))]"

definition accountToJson :: "ServiceAccount \<Rightarrow> json" where
  "accountToJson a = JObj [(''npub'', JStr (sa_npub a)), (''label'', json_opt JStr (sa_label a)),
     (''enabled'', JBool (sa_enabled a)), (''createdAt'', json_date (sa_createdAt a))]"

section \<open>Readers\<close>

text \<open>
  The argument of \<open>deriveAccess\<close> as \<open>withAccess\<close> takes it from a user body: the expiry is null or a
  text, the sizes go through \<open>BigInt\<close>. \<open>None\<close> is an exception.
\<close>

definition wire_dates :: "json \<Rightarrow> EntitlementDates option" where
  "wire_dates j =
     (case (jprop ''planExpiresAt'' j, jprop ''storageBytes'' j, jprop ''usedStorage'' j) of
        (Some e, Some sb, Some us) \<Rightarrow>
          (case (bigint_of_json us, case sb of JNull \<Rightarrow> Some None | v \<Rightarrow> map_option Some (bigint_of_json v)) of
             (Some used, Some allowance) \<Rightarrow>
               Some \<lparr>e_planExpiresAt = (case e of JStr s \<Rightarrow> DateStr s | _ \<Rightarrow> NullDate),
                     e_storageBytes = allowance, e_usedStorage = used\<rparr>
           | _ \<Rightarrow> None)
      | _ \<Rightarrow> None)"

text \<open>The fields that \<open>ServerRegistry.refresh\<close> takes from a storage body.\<close>

definition wire_active :: "json \<Rightarrow> ActiveStorage option" where
  "wire_active j =
     (case (jprop ''npub'' j, jprop ''tunnelIp'' j, jprop ''blossomPort'' j) of
        (Some (JStr n), Some (JStr ip), Some (JNum p)) \<Rightarrow>
          Some \<lparr>as_npub = n, as_tunnelIp = ip, as_blossomPort = nat (num_to_int p)\<rparr>
      | _ \<Rightarrow> None)"

lemma json_opt_simps [simp]: "json_opt f None = JNull" "json_opt f (Some x) = f x"
  by (simp_all add: json_opt_def)

lemma bigint_json_bigint [simp]: "bigint_of_json (json_bigint i) = Some i"
  by (simp add: json_bigint_def bigint_show_int)

lemma wire_dates_user:
  "wire_dates (userToJson u) = Some \<lparr>e_planExpiresAt = (case u_planExpiresAt u of None \<Rightarrow> NullDate | Some t \<Rightarrow> DateStr (toISOString t)),
     e_storageBytes = u_storageBytes u, e_usedStorage = u_usedStorage u\<rparr>"
  by (cases "u_storageBytes u"; cases "u_planExpiresAt u")
    (simp_all add: wire_dates_def userToJson_def json_date_def json_bigint_def bigint_show_int)

lemma Date_parse_toISOString: "\<bar>t\<bar> \<le> MAX_DATE_MS \<Longrightarrow> Date_parse other (toISOString t) = Some t"
  by (simp add: Date_parse_def parse_toISOString)

lemma deriveAccess_dates:
  assumes "toDate dp (e_planExpiresAt e) = toDate dp' (e_planExpiresAt e')" "e_storageBytes e = e_storageBytes e'" "e_usedStorage e = e_usedStorage e'"
  shows "deriveAccess dp e now config = deriveAccess dp' e' now config"
  using assms by (simp add: deriveAccess_def)

text \<open>
  C40. Nothing the decisions need is lost between the services. The access state that a client derives
  from the JSON body of a user is the one of the user's row, for every expiry a \<open>Date\<close> can hold, and
  the address a client reads from the JSON body of an active provider is the one of its row.
\<close>

theorem rows_over_the_wire:
  assumes "\<And>t. u_planExpiresAt u = Some t \<Longrightarrow> \<bar>t\<bar> \<le> MAX_DATE_MS" and "is_active cutoff s"
  shows "(\<exists>e. wire_dates (userToJson u) = Some e
      \<and> (\<forall>now config other. deriveAccess (Date_parse other) e now config = withAccess u config now))
    \<and> wire_active (storageProviderToJson s) = Some (active_record s)"
proof -
  have "deriveAccess (Date_parse other) \<lparr>e_planExpiresAt = (case u_planExpiresAt u of None \<Rightarrow> NullDate | Some t \<Rightarrow> DateStr (toISOString t)),
     e_storageBytes = u_storageBytes u, e_usedStorage = u_usedStorage u\<rparr> now config = withAccess u config now" for now config other
    unfolding withAccess_def user_dates_def
    using assms(1) by (intro deriveAccess_dates) (auto simp: Date_parse_toISOString split: option.split)
  then have "\<exists>e. wire_dates (userToJson u) = Some e
      \<and> (\<forall>now config other. deriveAccess (Date_parse other) e now config = withAccess u config now)"
    by (simp add: wire_dates_user)
  moreover have "wire_active (storageProviderToJson s) = Some (active_record s)"
    using assms(2) by (auto simp: is_active_def wire_active_def storageProviderToJson_def active_record_def)
  ultimately show ?thesis by blast
qed

theorem rows_over_the_wire_witness:
  "(\<exists>e. wire_dates (userToJson (hd (users node_db))) = Some e
      \<and> (\<forall>now config other. deriveAccess (Date_parse other) e now config = withAccess (hd (users node_db)) config now))
    \<and> wire_active (storageProviderToJson node_provider) = Some (active_record node_provider)"
proof (rule rows_over_the_wire)
  show "is_active 40001 node_provider" by (simp add: is_active_def node_provider_def)
  fix t assume "u_planExpiresAt (hd (users node_db)) = Some t"
  then show "\<bar>t\<bar> \<le> MAX_DATE_MS" by (simp add: node_db_def MAX_DATE_MS_def)
qed

end
