(* ===== verification/Notifier.thy ===== *)
theory Notifier
  imports Serialize Proxy_Access
begin

text \<open>
  The notifier, \<open>packages/notifier\<close>: the notifications a user is due, their delivery over two
  channels with the log of the data service as the guard against repetition, and the pass of the
  scheduler over all users with an expiry, which also asks the proxy to purge accounts past their
  retention. The state is the system of the proxy together with the messages that left the
  notifier. Arguments decide the fate of every call.
\<close>

section \<open>Due notifications\<close>

record DueNotification =
  dn_kind :: string
  dn_ref :: string
  dn_title :: string
  dn_body :: string

text \<open>\<open>toFixed\<close> of a finite number: the nearest decimal, the larger one of two.\<close>

definition toFixed :: "nat \<Rightarrow> rat \<Rightarrow> string" where
  "toFixed f x =
     (let n = nat \<lfloor>\<bar>x\<bar> * 10 ^ f + 1 / 2\<rfloor> in
      (if x < 0 then ''-'' else []) @ show_nat (n div 10 ^ f) @ (if f = 0 then [] else ''.'' @ fixed_digits f n))"

function format_scale :: "rat \<Rightarrow> nat \<Rightarrow> rat \<times> nat" where
  "format_scale n unit = (if 1024 \<le> n \<and> unit < 4 then format_scale (n / 1024) (unit + 1) else (n, unit))"
  by pat_completeness auto
termination
  by (relation "measure (\<lambda>(n, unit). 4 - unit)") auto

declare format_scale.simps [simp del]

definition formatBytes :: "int option \<Rightarrow> string" where
  "formatBytes v =
     (case v of
        None \<Rightarrow> ''unlimited''
      | Some bytes \<Rightarrow>
          (let (n, unit) = format_scale (of_int bytes) 0 in
           toFixed (if 10 \<le> n \<or> unit = 0 then 0 else 1) n @ '' ''
             @ [''B'', ''KB'', ''MB'', ''GB'', ''TB''] ! unit))"

text \<open>\<open>toUTCString\<close> of an optional date in a template.\<close>

definition utc_text :: "date option \<Rightarrow> string" where
  "utc_text d = (case d of None \<Rightarrow> ''undefined'' | Some None \<Rightarrow> ''Invalid Date'' | Some (Some t) \<Rightarrow> toUTCString t)"

definition em_dash :: string where
  "em_dash = [CHR 0xE2, CHR 0x80, CHR 0x94]"

definition expiry_warnings :: "int \<Rightarrow> LifecycleConfig \<Rightarrow> int \<Rightarrow> DueNotification list" where
  "expiry_warnings expiry config now =
     (let remaining = daysUntil expiry now in
      concat (map (\<lambda>warningDays.
        if 0 \<le> remaining \<and> remaining \<le> warningDays
        then [\<lparr>dn_kind = ''expiry_warning_'' @ show_int warningDays, dn_ref = toISOString expiry,
               dn_title = ''Plan expires in '' @ show_int remaining @ '' day'' @ (if remaining = 1 then [] else ''s''),
               dn_body = ''Your storage plan expires '' @ toUTCString expiry
                 @ ''. Renew from the pricing page to add days and keep uploads enabled.''\<rparr>]
        else []) (expiryWarningDays (notify config))))"

definition quota_warnings :: "User \<Rightarrow> int \<Rightarrow> LifecycleConfig \<Rightarrow> DueNotification list" where
  "quota_warnings u expiry config =
     (case u_storageBytes u of
        None \<Rightarrow> []
      | Some sb \<Rightarrow>
          if sb \<le> 0 then []
          else
            (let percent = bigint_div (u_usedStorage u * 100) sb in
             concat (map (\<lambda>threshold.
               if threshold \<le> percent
               then [\<lparr>dn_kind = ''quota_warning_'' @ show_int threshold, dn_ref = toISOString expiry,
                      dn_title = (if 100 \<le> threshold then ''Storage allowance reached''
                                  else ''Storage '' @ show_int threshold @ ''% full''),
                      dn_body = ''You are using '' @ formatBytes (Some (u_usedStorage u)) @ '' of your ''
                        @ formatBytes (Some sb) @ '' allowance ('' @ show_int percent
                        @ ''%). Delete blobs or upgrade to avoid uploads being blocked.''\<rparr>]
               else []) (quotaWarningPercent (notify config)))))"

definition state_notice :: "AccessState \<Rightarrow> int \<Rightarrow> DueNotification list" where
  "state_notice access expiry =
     (case status access of
        GRACE \<Rightarrow>
          [\<lparr>dn_kind = ''grace_entered'', dn_ref = toISOString expiry,
            dn_title = (if reason access = R_grace_over_quota
                        then ''Over your storage allowance '' @ em_dash @ '' grace period started''
                        else ''Plan expired '' @ em_dash @ '' grace period started''),
            dn_body = (if reason access = R_grace_over_quota
                       then ''You are over your allowance. Uploads are blocked until you delete blobs or upgrade. Grace ends ''
                         @ utc_text (graceUntil access) @ ''.''
                       else ''Uploads are blocked. Delete blobs or renew before '' @ utc_text (graceUntil access)
                         @ '' to avoid the next stage.'')\<rparr>]
      | WRITE_BLOCKED \<Rightarrow>
          [\<lparr>dn_kind = ''write_blocked'', dn_ref = toISOString expiry, dn_title = ''Uploads are blocked'',
            dn_body = ''The grace period has ended and uploads are now blocked. Your data is still readable. Renew or free space before reads are blocked on ''
              @ utc_text (readBlockedUntil access) @ ''.''\<rparr>]
      | READ_BLOCKED \<Rightarrow>
          [\<lparr>dn_kind = ''read_blocked'', dn_ref = toISOString expiry,
            dn_title = ''Reads are blocked '' @ em_dash @ '' data scheduled for purge'',
            dn_body = ''Reads are blocked and your blobs are scheduled for purge on '' @ utc_text (purgeAt access)
              @ ''. Renew before then to keep your data.''\<rparr>]
      | _ \<Rightarrow> [])"

definition dueNotifications :: "User \<Rightarrow> AccessState \<Rightarrow> LifecycleConfig \<Rightarrow> int \<Rightarrow> DueNotification list" where
  "dueNotifications u access config now =
     (case u_planExpiresAt u of
        None \<Rightarrow> []
      | Some expiry \<Rightarrow>
          if status access = CLOSED then []
          else expiry_warnings expiry config now @ quota_warnings u expiry config @ state_notice access expiry)"

definition moderationNotification :: "string \<Rightarrow> blob_hash \<Rightarrow> string \<Rightarrow> DueNotification" where
  "moderationNotification i h why =
     \<lparr>dn_kind = ''moderation_deleted'', dn_ref = i, dn_title = ''A blob was removed following a report'',
      dn_body = ''Blob '' @ h @ '' was removed by moderation. Reason: '' @ why
        @ ''. If you believe this was a mistake, contact the operator to appeal.''\<rparr>"

section \<open>Delivery\<close>

record Message =
  ms_channel :: string
  ms_npub :: npub
  ms_due :: DueNotification

text \<open>
  The answer of the backend that mails: a status, an answer that got lost after the mail was
  sent, or no effect. \<open>EmailSender.send\<close> turns it into one of three results.
\<close>

datatype mail_answer = MailStatus string | MailLost | MailDown
datatype EmailResult = MAIL_SENT | NO_ADDRESS | MAIL_FAILED

record notifier_env =
  ne_env :: env
  ne_config :: LifecycleConfig
  ne_dm :: "(nat \<Rightarrow> fault) option"
  ne_backend :: bool
  ne_mail :: "nat \<Rightarrow> mail_answer"
  ne_purge :: "(npub \<Rightarrow> Nip98Request) option"
  ne_purgeFault :: "nat \<Rightarrow> fault"

record notifier =
  nt_sys :: proxy
  nt_outbox :: "Message list"
  nt_sends :: nat

type_synonym 'a nio = "notifier \<Rightarrow> (px_exn + 'a) \<times> notifier"

definition on_sys :: "'a io \<Rightarrow> 'a nio" where
  "on_sys m s = (let (r, p) = m (nt_sys s) in (r, s\<lparr>nt_sys := p\<rparr>))"

definition sent_message :: "Message \<Rightarrow> notifier \<Rightarrow> notifier" where
  "sent_message msg s = s\<lparr>nt_outbox := nt_outbox s @ [msg], nt_sends := Suc (nt_sends s)\<rparr>"

definition dm_send :: "(nat \<Rightarrow> fault) \<Rightarrow> npub \<Rightarrow> DueNotification \<Rightarrow> unit nio" where
  "dm_send fate n due s =
     (let msg = \<lparr>ms_channel = ''nostr'', ms_npub = n, ms_due = due\<rparr> in
      case fate (nt_sends s) of
        NoFault \<Rightarrow> (Inr (), sent_message msg s)
      | Lost \<Rightarrow> (Inl ExOther, sent_message msg s)
      | _ \<Rightarrow> (Inl ExOther, s\<lparr>nt_sends := Suc (nt_sends s)\<rparr>))"

definition email_send :: "notifier_env \<Rightarrow> npub \<Rightarrow> DueNotification \<Rightarrow> EmailResult nio" where
  "email_send NE n due s =
     (let msg = \<lparr>ms_channel = ''email'', ms_npub = n, ms_due = due\<rparr>; idle = s\<lparr>nt_sends := Suc (nt_sends s)\<rparr> in
      if \<not> ne_backend NE then (Inr MAIL_FAILED, s)
      else
        (case ne_mail NE (nt_sends s) of
           MailStatus st \<Rightarrow> if st = ''sent'' then (Inr MAIL_SENT, sent_message msg s) else (Inr NO_ADDRESS, idle)
         | MailLost \<Rightarrow> (Inr MAIL_FAILED, sent_message msg s)
         | MailDown \<Rightarrow> (Inr MAIL_FAILED, idle)))"

definition log_notification :: "notifier_env \<Rightarrow> int \<Rightarrow> npub \<Rightarrow> DueNotification \<Rightarrow> string \<Rightarrow> bool nio" where
  "log_notification NE now n due ch =
     on_sys (db_logNotification (ne_env NE) now n (dn_kind due) (Some (dn_ref due)) ch)"

definition deliver_nostr :: "notifier_env \<Rightarrow> int \<Rightarrow> npub \<Rightarrow> DueNotification \<Rightarrow> notifier \<Rightarrow> nat \<times> notifier" where
  "deliver_nostr NE now n due s =
     (case ne_dm NE of
        None \<Rightarrow> (0, s)
      | Some fate \<Rightarrow>
          (case log_notification NE now n due ''nostr'' s of
             (Inr True, s1) \<Rightarrow> (case dm_send fate n due s1 of (Inr _, s2) \<Rightarrow> (1, s2) | (Inl _, s2) \<Rightarrow> (0, s2))
           | (Inr False, s1) \<Rightarrow> (1, s1)
           | (Inl _, s1) \<Rightarrow> (0, s1)))"

definition deliver_email :: "notifier_env \<Rightarrow> int \<Rightarrow> npub \<Rightarrow> DueNotification \<Rightarrow> notifier \<Rightarrow> nat \<times> notifier" where
  "deliver_email NE now n due s =
     (case log_notification NE now n due ''email'' s of
        (Inr True, s1) \<Rightarrow>
          (case email_send NE n due s1 of
             (Inr r, s2) \<Rightarrow> (if r = MAIL_SENT then 1 else 0, s2)
           | (Inl _, s2) \<Rightarrow> (0, s2))
      | (Inr False, s1) \<Rightarrow> (1, s1)
      | (Inl _, s1) \<Rightarrow> (0, s1))"

definition deliver :: "notifier_env \<Rightarrow> int \<Rightarrow> npub \<Rightarrow> DueNotification \<Rightarrow> notifier \<Rightarrow> nat \<times> notifier" where
  "deliver NE now n due s =
     (let (k, s1) = deliver_nostr NE now n due s; (l, s2) = deliver_email NE now n due s1 in (k + l, s2))"

fun deliverAll :: "notifier_env \<Rightarrow> int \<Rightarrow> npub \<Rightarrow> DueNotification list \<Rightarrow> notifier \<Rightarrow> nat \<times> notifier" where
  "deliverAll NE now n [] s = (0, s)"
| "deliverAll NE now n (x # xs) s =
     (let (k, s1) = deliver NE now n x s; (l, s2) = deliverAll NE now n xs s1 in (k + l, s2))"

section \<open>A pass of the scheduler\<close>

definition purge_due :: "notifier_env \<Rightarrow> int \<Rightarrow> User \<Rightarrow> AccessState \<Rightarrow> bool" where
  "purge_due NE now u access \<longleftrightarrow>
     purgeEnabled (ne_config NE) \<and> (status access = READ_BLOCKED \<or> status access = CLOSED)
     \<and> (case purgeAt access of None \<Rightarrow> False | Some d \<Rightarrow> date_ge (Some now) d)
     \<and> 0 < u_usedStorage u \<and> ne_purge NE \<noteq> None"

text \<open>\<open>options.purge\<close>: a signed request to the proxy; any status but success is an exception.\<close>

definition call_purge :: "notifier_env \<Rightarrow> int \<Rightarrow> npub \<Rightarrow> nat nio" where
  "call_purge NE now n s =
     (let s1 = s\<lparr>nt_sends := Suc (nt_sends s)\<rparr>; (resp, p) = purge (ne_env NE) now (the (ne_purge NE) n) n (nt_sys s) in
      case ne_purgeFault NE (nt_sends s) of
        NoFault \<Rightarrow>
          (case rs_body resp of
             PurgedBody k \<Rightarrow> if rs_status resp = 200 then (Inr k, s1\<lparr>nt_sys := p\<rparr>) else (Inl ExOther, s1\<lparr>nt_sys := p\<rparr>)
           | _ \<Rightarrow> (Inl ExOther, s1\<lparr>nt_sys := p\<rparr>))
      | Lost \<Rightarrow> (Inl ExOther, s1\<lparr>nt_sys := p\<rparr>)
      | _ \<Rightarrow> (Inl ExOther, s1))"

definition purged_notice :: "date option \<Rightarrow> nat \<Rightarrow> DueNotification" where
  "purged_notice when k =
     \<lparr>dn_kind = ''purged'', dn_ref = (case when of Some (Some t) \<Rightarrow> toISOString t | _ \<Rightarrow> []),
      dn_title = ''Your storage account was purged'',
      dn_body = ''All '' @ show_nat k @ '' blobs were deleted after the retention window. Purchase a new plan to start storing again.''\<rparr>"

definition process_user :: "notifier_env \<Rightarrow> int \<Rightarrow> User \<Rightarrow> notifier \<Rightarrow> nat \<times> notifier" where
  "process_user NE now u s =
     (let access = withAccess u (ne_config NE) now;
          (k, s1) = deliverAll NE now (u_npub u) (dueNotifications u access (ne_config NE) now) s in
      if purge_due NE now u access
      then
        (case call_purge NE now (u_npub u) s1 of
           (Inl _, s2) \<Rightarrow> (k, s2)
         | (Inr c, s2) \<Rightarrow> (k, snd (deliverAll NE now (u_npub u) [purged_notice (purgeAt access) c] s2)))
      else (k, s1))"

fun process_users :: "notifier_env \<Rightarrow> int \<Rightarrow> User list \<Rightarrow> notifier \<Rightarrow> nat \<times> notifier" where
  "process_users NE now [] s = (0, s)"
| "process_users NE now (u # us) s =
     (let (k, s1) = process_user NE now u s; (l, s2) = process_users NE now us s1 in (k + l, s2))"

definition db_listAttentionUsers :: "env \<Rightarrow> nat \<Rightarrow> nat \<Rightarrow> User paginated io" where
  "db_listAttentionUsers E p ps =
     db_call E (\<lambda>d. (Success 200 (getAttention (page_params (Num (of_nat p)) (Num (of_nat ps))) d), d))"

section \<open>What a pass may change\<close>

text \<open>
  From one database to a later one: users keep their place and their entitlement, only the accounts
  in \<open>N\<close> may lose blobs and usage, and the notification log grows.
\<close>

definition touches :: "npub set \<Rightarrow> db \<Rightarrow> db \<Rightarrow> bool" where
  "touches N d d' \<longleftrightarrow>
     (\<exists>f. users d' = map f (users d) \<and> (\<forall>u. u_npub u \<notin> N \<longrightarrow> f u = u) \<and> (\<forall>u. (f u)\<lparr>u_usedStorage := 0\<rparr> = u\<lparr>u_usedStorage := 0\<rparr>))
     \<and> (\<forall>n. n \<notin> N \<longrightarrow> filter (\<lambda>b. b_npub b = n) (blobs d') = filter (\<lambda>b. b_npub b = n) (blobs d))
     \<and> (\<exists>rs. notificationLogs d' = notificationLogs d @ rs)"

lemma touches_refl: "touches N d d"
  unfolding touches_def by (intro conjI exI [of _ id] exI [of _ "[]"]) auto

lemma same_but_used: "(f u)\<lparr>u_usedStorage := 0\<rparr> = u\<lparr>u_usedStorage := 0\<rparr> \<Longrightarrow>
    u_npub (f u) = u_npub u \<and> u_planExpiresAt (f u) = u_planExpiresAt u \<and> u_storageBytes (f u) = u_storageBytes u"
  for f :: "User \<Rightarrow> User"
  by (cases "f u"; cases u) simp

lemma touches_trans:
  assumes "touches N d d'" and "touches M d' d''"
  shows "touches (N \<union> M) d d''"
proof -
  obtain f where f: "users d' = map f (users d)" "\<forall>u. u_npub u \<notin> N \<longrightarrow> f u = u" "\<forall>u. (f u)\<lparr>u_usedStorage := 0\<rparr> = u\<lparr>u_usedStorage := 0\<rparr>"
    using assms(1) by (auto simp: touches_def)
  obtain g where g: "users d'' = map g (users d')" "\<forall>u. u_npub u \<notin> M \<longrightarrow> g u = u" "\<forall>u. (g u)\<lparr>u_usedStorage := 0\<rparr> = u\<lparr>u_usedStorage := 0\<rparr>"
    using assms(2) by (auto simp: touches_def)
  have "users d'' = map (g \<circ> f) (users d)" using f(1) g(1) by simp
  moreover have "\<forall>u. u_npub u \<notin> N \<union> M \<longrightarrow> (g \<circ> f) u = u" using f(2) g(2) by auto
  moreover have "\<forall>u. ((g \<circ> f) u)\<lparr>u_usedStorage := 0\<rparr> = u\<lparr>u_usedStorage := 0\<rparr>" using f(3) g(3) by simp
  moreover have "\<exists>rs. notificationLogs d'' = notificationLogs d @ rs"
    using assms by (auto simp: touches_def)
  ultimately show ?thesis using assms unfolding touches_def by (intro conjI exI [of _ "g \<circ> f"]) auto
qed

lemma touches_mono: "touches N d d' \<Longrightarrow> N \<subseteq> M \<Longrightarrow> touches M d d'"
  unfolding touches_def by blast

lemma touches_step: "touches N d d' \<Longrightarrow> touches N d' d'' \<Longrightarrow> touches N d d''"
  using touches_trans [of N d d' N d''] by simp

lemma touches_drop_blob: "touches {b_npub b} d (drop_blob b d)"
proof -
  let ?f = "\<lambda>u. if u_npub u = b_npub b then u\<lparr>u_usedStorage := u_usedStorage u - b_size b\<rparr> else u"
  have "users (drop_blob b d) = map ?f (users d)"
    by (simp add: drop_blob_def update_row_def)
  moreover have "filter (\<lambda>x. b_npub x = n) (blobs (drop_blob b d)) = filter (\<lambda>x. b_npub x = n) (blobs d)" if "n \<noteq> b_npub b" for n
    using that by (auto simp: drop_blob_def delete_row_def blob_key_def intro: filter_cong)
  moreover have "notificationLogs (drop_blob b d) = notificationLogs d" by (simp add: drop_blob_def)
  ultimately show ?thesis unfolding touches_def by (intro conjI exI [of _ ?f]) auto
qed

lemma touches_delete_rows: "delete_rows rs l d = Inr (l', d') \<Longrightarrow> touches (b_npub ` set rs) d d'"
proof (induction rs arbitrary: l d)
  case Nil
  then show ?case by (simp add: touches_refl)
next
  case (Cons r rs)
  from Cons.prems obtain u where "delete_rows rs u (drop_blob r d) = Inr (l', d')"
    by (elim delete_rows_step) blast
  from touches_trans [OF touches_drop_blob Cons.IH [OF this]] show ?case by simp
qed

lemma touches_deleteBlob: "touches {n} d (snd (deleteBlob h (Some n) False d))"
proof (cases "deleteBlob h (Some n) False d")
  case (Pair r d')
  show ?thesis
  proof (cases r)
    case (Success st v)
    then obtain l where "delete_rows (filter (\<lambda>b. b_hash b = h \<and> (False \<or> Some (b_npub b) = Some n)) (blobs d)) 0 d = Inr (l, d')"
      using deleteBlob_success Pair by blast
    from touches_mono [OF touches_delete_rows [OF this], of "{n}"] Pair show ?thesis by auto
  next
    case (Failure st c)
    then have "d' = d" using Pair deleteBlob_failure by blast
    then show ?thesis using Pair touches_refl by simp
  qed
qed

lemma db_call_db: "px_db (snd (db_call E f s)) \<in> {px_db s, snd (f (px_db s))}"
  by (auto simp: db_call_def Let_def split: fault.split prod.split response.split)

lemma touches_purge_batch: "touches {n} (px_db s) (px_db (snd (purge_batch E n bs p s)))"
proof (induction bs arbitrary: p s)
  case Nil
  then show ?case by (simp add: return_io_def touches_refl)
next
  case (Cons b bs)
  obtain r s1 where one: "db_deleteBlob E (b_hash b) (Some n) s = (r, s1)" by fastforce
  have t1: "touches {n} (px_db s) (px_db s1)"
    using db_call_db [of E "deleteBlob (b_hash b) (Some n) False" s] one touches_deleteBlob touches_refl
    by (auto simp: db_deleteBlob_def)
  have t2: "touches {n} (px_db s) (px_db (snd (purge_batch E n bs (p + 1) s2)))" if "px_db s2 = px_db s1" for s2
    using touches_step [OF t1] Cons.IH [of s2 "p + 1"] that by simp
  have "px_db (snd (nodes_delete E (b_hash b) (b_replicas b) s1)) = px_db s1"
    by (simp add: nodes_delete_def node_deleteBlob_db)
  with t1 t2 show ?case
    by (auto simp: bind_io_def one nodes_delete_def return_io_def split: sum.split)
qed

lemma touches_purge_loop: "touches {n} (px_db s) (px_db (snd (purge_loop E n p s)))"
proof (induction E n p s rule: purge_loop.induct)
  case (1 E n p s)
  obtain r s1 where l: "db_listUserBlobs E n (Num 1) (Num 100) s = (r, s1)" by fastforce
  have d: "px_db s1 = px_db s" using db_listUserBlobs_db [of E n "Num 1" "Num 100" s] l by simp
  show ?case
  proof (cases r)
    case (Inr batch)
    obtain q s2 where b: "purge_batch E n (items batch) p s1 = (q, s2)" by fastforce
    have t: "touches {n} (px_db s) (px_db s2)" using touches_purge_batch [of n s1 E "items batch" p] b d by simp
    show ?thesis
      using 1 t l b Inr d touches_refl touches_step
      by (subst purge_loop.simps) (auto split: sum.split)
  qed (use l d touches_refl in \<open>subst purge_loop.simps; simp\<close>)
qed

lemma run_handler_snd: "snd (run_handler failed m s) = snd (m s)"
  by (auto simp: run_handler_def split: prod.split sum.split px_exn.split)

lemma touches_purge: "touches {n} (px_db s) (px_db (snd (purge E now nreq n s)))"
proof -
  obtain g s1 where g: "internal_gate E now nreq s = (g, s1)" by fastforce
  have d: "px_db s1 = px_db s" using g by (auto simp: internal_gate_def Let_def split: prod.splits)
  obtain r s2 where l: "purge_loop E n 0 s1 = (r, s2)" by fastforce
  have t: "touches {n} (px_db s) (px_db s2)" using touches_purge_loop [of n s1 E 0] l d by simp
  have "px_db (snd (bind_io (purge_loop E n 0) (\<lambda>purged. bind_io (invalidate_io n) (\<lambda>_. return_io (respond 200 (PurgedBody purged)))) s1)) = px_db s2"
    by (auto simp: bind_io_def l return_io_def invalidate_io_def modify_io_def split: sum.split)
  with t d show ?thesis
    by (auto simp: purge_def internal_route_def g run_handler_snd touches_refl split: option.split)
qed

abbreviation nt_db :: "notifier \<Rightarrow> db" where
  "nt_db s \<equiv> px_db (nt_sys s)"

lemma touches_call_purge: "touches {n} (nt_db s) (nt_db (snd (call_purge NE now n s)))"
  using touches_purge [of n "nt_sys s" "ne_env NE" now "the (ne_purge NE) n"] touches_refl
  by (auto simp: call_purge_def Let_def split: fault.split px_body.split prod.split)

section \<open>The log and the outbox\<close>

type_synonym msg_id = "npub \<times> string \<times> string \<times> string"

definition msg_key :: "Message \<Rightarrow> msg_id" where
  "msg_key m = (ms_npub m, dn_kind (ms_due m), dn_ref (ms_due m), ms_channel m)"

fun logged :: "db \<Rightarrow> msg_id \<Rightarrow> bool" where
  "logged d (n, k, r, ch) = list_ex (nl_conflict n k (Some r) ch) (notificationLogs d)"

definition log_grows :: "db \<Rightarrow> db \<Rightarrow> bool" where
  "log_grows d d' \<longleftrightarrow> (\<exists>rs. notificationLogs d' = notificationLogs d @ rs)"

lemma log_grows_refl: "log_grows d d"
  by (simp add: log_grows_def)

lemma log_grows_trans: "log_grows d d' \<Longrightarrow> log_grows d' d'' \<Longrightarrow> log_grows d d''"
  by (auto simp: log_grows_def)

lemma logged_mono: "logged d k \<Longrightarrow> log_grows d d' \<Longrightarrow> logged d' k"
  by (cases k) (auto simp: log_grows_def)

declare logged.simps [simp del]

lemma touches_log: "touches N d d' \<Longrightarrow> log_grows d d'"
  by (simp add: touches_def log_grows_def)

text \<open>New messages have pairwise different keys that were not logged before and are logged now.\<close>

definition delivers :: "notifier \<Rightarrow> notifier \<Rightarrow> bool" where
  "delivers s s' \<longleftrightarrow> log_grows (nt_db s) (nt_db s')
     \<and> (\<exists>new. nt_outbox s' = nt_outbox s @ new \<and> distinct (map msg_key new)
          \<and> (\<forall>m \<in> set new. \<not> logged (nt_db s) (msg_key m) \<and> logged (nt_db s') (msg_key m)))"

lemma delivers_trans:
  assumes "delivers s s'" and "delivers s' s''"
  shows "delivers s s''"
proof -
  obtain a where a: "nt_outbox s' = nt_outbox s @ a" "distinct (map msg_key a)"
    "\<forall>m \<in> set a. \<not> logged (nt_db s) (msg_key m) \<and> logged (nt_db s') (msg_key m)" using assms(1) by (auto simp: delivers_def)
  obtain b where b: "nt_outbox s'' = nt_outbox s' @ b" "distinct (map msg_key b)"
    "\<forall>m \<in> set b. \<not> logged (nt_db s') (msg_key m) \<and> logged (nt_db s'') (msg_key m)" using assms(2) by (auto simp: delivers_def)
  have g: "log_grows (nt_db s) (nt_db s')" "log_grows (nt_db s') (nt_db s'')" using assms by (simp_all add: delivers_def)
  have "distinct (map msg_key (a @ b))" using a b by force
  moreover have "\<forall>m \<in> set (a @ b). \<not> logged (nt_db s) (msg_key m) \<and> logged (nt_db s'') (msg_key m)"
    using a(3) b(3) logged_mono [OF _ g(1)] logged_mono [OF _ g(2)] by (metis UnE set_append)
  ultimately show ?thesis
    using a(1) b(1) log_grows_trans [OF g] unfolding delivers_def by (intro conjI exI [of _ "a @ b"]) simp_all
qed

lemma delivers_silent: "log_grows (nt_db s) (nt_db s') \<Longrightarrow> nt_outbox s' = nt_outbox s \<Longrightarrow> delivers s s'"
  by (simp add: delivers_def)

lemma postNotification_touches: "touches {} d (snd (postNotification now fresh n k rf ch d))"
  unfolding touches_def
  by (intro conjI exI [of _ id]) (auto simp: postNotification_def Let_def)

lemma postNotification_success:
  "postNotification now fresh n k (Some rf) ch d = (Success st v, d') \<Longrightarrow> \<not> logged d (n, k, rf, ch) \<and> logged d' (n, k, rf, ch)"
  by (auto simp: postNotification_def Let_def nl_conflict_def logged.simps split: if_splits)

lemma log_notification_spec:
  assumes "log_notification NE now n due ch s = (r, s')"
  shows "nt_outbox s' = nt_outbox s" and "touches {} (nt_db s) (nt_db s')"
    and "r = Inr True \<Longrightarrow> \<not> logged (nt_db s) (n, dn_kind due, dn_ref due, ch) \<and> logged (nt_db s') (n, dn_kind due, dn_ref due, ch)"
proof -
  let ?f = "postNotification now (en_fresh (ne_env NE) (px_calls (nt_sys s))) n (dn_kind due) (Some (dn_ref due)) ch"
  obtain q p where c: "db_call (ne_env NE) ?f (nt_sys s) = (q, p)" by fastforce
  have s': "s' = s\<lparr>nt_sys := p\<rparr>" and r: "r = Inr True \<Longrightarrow> \<exists>v. q = Inr v"
    using assms by (auto simp: log_notification_def on_sys_def db_logNotification_def c split: sum.splits px_exn.splits if_splits)
  show "nt_outbox s' = nt_outbox s" by (simp add: s')
  have "px_db p \<in> {nt_db s, snd (?f (nt_db s))}" using db_call_db [of "ne_env NE" ?f "nt_sys s"] c by simp
  then show "touches {} (nt_db s) (nt_db s')"
    using postNotification_touches touches_refl by (auto simp: s')
  assume "r = Inr True"
  then obtain v where "q = Inr v" using r by blast
  with c obtain st where "?f (nt_db s) = (Success st v, px_db p)" by (auto dest!: db_call_success)
  from postNotification_success [OF this] show "\<not> logged (nt_db s) (n, dn_kind due, dn_ref due, ch) \<and> logged (nt_db s') (n, dn_kind due, dn_ref due, ch)"
    by (simp add: s')
qed

lemma sent_message_simps [simp]:
  "nt_sys (sent_message m s) = nt_sys s" "nt_outbox (sent_message m s) = nt_outbox s @ [m]"
  by (simp_all add: sent_message_def)

lemma dm_send_spec:
  "nt_sys (snd (dm_send fate n due s)) = nt_sys s"
  "nt_outbox (snd (dm_send fate n due s)) \<in> {nt_outbox s, nt_outbox s @ [\<lparr>ms_channel = ''nostr'', ms_npub = n, ms_due = due\<rparr>]}"
  by (auto simp: dm_send_def Let_def split: fault.split)

lemma email_send_spec:
  "nt_sys (snd (email_send NE n due s)) = nt_sys s"
  "nt_outbox (snd (email_send NE n due s)) \<in> {nt_outbox s, nt_outbox s @ [\<lparr>ms_channel = ''email'', ms_npub = n, ms_due = due\<rparr>]}"
  by (auto simp: email_send_def Let_def split: mail_answer.split)

lemma deliver_nostr_spec:
  "touches {} (nt_db s) (nt_db (snd (deliver_nostr NE now n due s))) \<and> delivers s (snd (deliver_nostr NE now n due s))"
proof (cases "ne_dm NE")
  case None
  then show ?thesis by (simp add: deliver_nostr_def touches_refl delivers_silent log_grows_refl)
next
  case (Some fate)
  obtain r s1 where l: "log_notification NE now n due ''nostr'' s = (r, s1)" by fastforce
  note spec = log_notification_spec [OF l]
  show ?thesis
  proof (cases "r = Inr True")
    case True
    obtain q s2 where m: "dm_send fate n due s1 = (q, s2)" by fastforce
    have s2: "snd (deliver_nostr NE now n due s) = s2" using Some True l m by (cases q) (simp_all add: deliver_nostr_def)
    have "nt_sys s2 = nt_sys s1" "nt_outbox s2 \<in> {nt_outbox s, nt_outbox s @ [\<lparr>ms_channel = ''nostr'', ms_npub = n, ms_due = due\<rparr>]}"
      using dm_send_spec [of fate n due s1] m spec(1) by auto
    then show ?thesis
      unfolding s2 using spec(2,3) True by (auto simp: delivers_def touches_log msg_key_def)
  next
    case False
    then have "snd (deliver_nostr NE now n due s) = s1" using Some l by (auto simp: deliver_nostr_def split: sum.splits bool.splits)
    with spec show ?thesis by (simp add: delivers_silent touches_log)
  qed
qed

lemma deliver_email_spec:
  "touches {} (nt_db s) (nt_db (snd (deliver_email NE now n due s))) \<and> delivers s (snd (deliver_email NE now n due s))"
proof -
  obtain r s1 where l: "log_notification NE now n due ''email'' s = (r, s1)" by fastforce
  note spec = log_notification_spec [OF l]
  show ?thesis
  proof (cases "r = Inr True")
    case True
    obtain q s2 where m: "email_send NE n due s1 = (q, s2)" by fastforce
    have s2: "snd (deliver_email NE now n due s) = s2" using True l m by (cases q) (simp_all add: deliver_email_def)
    have "nt_sys s2 = nt_sys s1" "nt_outbox s2 \<in> {nt_outbox s, nt_outbox s @ [\<lparr>ms_channel = ''email'', ms_npub = n, ms_due = due\<rparr>]}"
      using email_send_spec [of NE n due s1] m spec(1) by auto
    then show ?thesis
      unfolding s2 using spec(2,3) True by (auto simp: delivers_def touches_log msg_key_def)
  next
    case False
    then have "snd (deliver_email NE now n due s) = s1" using l by (auto simp: deliver_email_def split: sum.splits bool.splits)
    with spec show ?thesis by (simp add: delivers_silent touches_log)
  qed
qed

lemma deliver_spec:
  "touches {} (nt_db s) (nt_db (snd (deliver NE now n due s))) \<and> delivers s (snd (deliver NE now n due s))"
proof -
  obtain k s1 where a: "deliver_nostr NE now n due s = (k, s1)" by fastforce
  obtain l s2 where b: "deliver_email NE now n due s1 = (l, s2)" by fastforce
  show ?thesis
    using deliver_nostr_spec [of s NE now n due] deliver_email_spec [of s1 NE now n due] a b
    by (auto simp: deliver_def intro: touches_step delivers_trans)
qed

lemma deliverAll_spec:
  "touches {} (nt_db s) (nt_db (snd (deliverAll NE now n due s))) \<and> delivers s (snd (deliverAll NE now n due s))"
proof (induction due arbitrary: s)
  case Nil
  then show ?case by (simp add: touches_refl delivers_silent log_grows_refl)
next
  case (Cons x xs)
  obtain k s1 where a: "deliver NE now n x s = (k, s1)" by fastforce
  show ?case
    using deliver_spec [of s NE now n x] Cons.IH [of s1] a
    by (auto simp: Let_def split: prod.split intro: touches_step delivers_trans)
qed

lemma call_purge_outbox: "nt_outbox (snd (call_purge NE now n s)) = nt_outbox s"
  by (simp add: call_purge_def Let_def split: fault.split px_body.split prod.split)

text \<open>The retention of an account is over: the last window after its expiry has ended.\<close>

definition retention_over :: "LifecycleConfig \<Rightarrow> int \<Rightarrow> User \<Rightarrow> bool" where
  "retention_over config now u =
     (case u_planExpiresAt u of
        None \<Rightarrow> False
      | Some t \<Rightarrow> (case read_end t config of None \<Rightarrow> False | Some e \<Rightarrow> e \<le> now))"

definition purgeable :: "LifecycleConfig \<Rightarrow> int \<Rightarrow> User list \<Rightarrow> npub set" where
  "purgeable config now us = (if purgeEnabled config then u_npub ` {u \<in> set us. retention_over config now u} else {})"

lemma purge_due_retention: "purge_due NE now u (withAccess u (ne_config NE) now) \<Longrightarrow> purgeEnabled (ne_config NE) \<and> retention_over (ne_config NE) now u"
proof (cases "u_planExpiresAt u")
  case None
  moreover assume "purge_due NE now u (withAccess u (ne_config NE) now)"
  ultimately show ?thesis
    by (simp add: purge_due_def withAccess_def user_dates_def deriveAccess_def unpaid_access_def)
next
  case (Some t)
  assume due: "purge_due NE now u (withAccess u (ne_config NE) now)"
  then have "purgeAt (withAccess u (ne_config NE) now) = Some (read_end t (ne_config NE))"
    using Some by (auto simp: purge_due_def withAccess_def user_dates_def deriveAccess_def Let_def active_access_def split: if_splits)
  with due Some show ?thesis
    by (cases "read_end t (ne_config NE)") (auto simp: purge_due_def retention_over_def)
qed

lemma process_user_spec:
  "touches (purgeable (ne_config NE) now [u]) (nt_db s) (nt_db (snd (process_user NE now u s))) \<and> delivers s (snd (process_user NE now u s))"
proof -
  let ?a = "withAccess u (ne_config NE) now"
  obtain k s1 where a: "deliverAll NE now (u_npub u) (dueNotifications u ?a (ne_config NE) now) s = (k, s1)" by fastforce
  have d1: "touches {} (nt_db s) (nt_db s1)" "delivers s s1"
    using deliverAll_spec [of s NE now "u_npub u" "dueNotifications u ?a (ne_config NE) now"] a by simp_all
  show ?thesis
  proof (cases "purge_due NE now u ?a")
    case False
    then show ?thesis
      using d1 touches_mono [of "{}"] a by (simp add: process_user_def Let_def)
  next
    case True
    then have N: "purgeable (ne_config NE) now [u] = {u_npub u}" using purge_due_retention by (auto simp: purgeable_def)
    obtain r s2 where b: "call_purge NE now (u_npub u) s1 = (r, s2)" by fastforce
    have "touches {u_npub u} (nt_db s1) (nt_db s2)" "nt_outbox s2 = nt_outbox s1"
      using touches_call_purge [of "u_npub u" s1 NE now] call_purge_outbox [of NE now "u_npub u" s1] b by simp_all
    then have d2: "touches {u_npub u} (nt_db s) (nt_db s2)" "delivers s s2"
      using touches_trans [OF d1(1)] delivers_trans [OF d1(2)] delivers_silent touches_log by auto
    have d3: "touches {u_npub u} (nt_db s) (nt_db (snd (deliverAll NE now (u_npub u) xs s2)))" "delivers s (snd (deliverAll NE now (u_npub u) xs s2))" for xs
      using touches_trans [OF d2(1)] delivers_trans [OF d2(2)] deliverAll_spec [of s2 NE now "u_npub u" xs] by auto
    show ?thesis
      unfolding N using a b True d2 d3 by (cases r) (simp_all add: process_user_def Let_def del: deliverAll.simps)
  qed
qed

lemma process_users_spec:
  "touches (purgeable (ne_config NE) now us) (nt_db s) (nt_db (snd (process_users NE now us s))) \<and> delivers s (snd (process_users NE now us s))"
proof (induction us arbitrary: s)
  case Nil
  then show ?case by (simp add: touches_refl delivers_silent log_grows_refl)
next
  case (Cons u us)
  obtain k s1 where a: "process_user NE now u s = (k, s1)" by fastforce
  obtain l s2 where b: "process_users NE now us s1 = (l, s2)" by fastforce
  have N: "purgeable (ne_config NE) now (u # us) = purgeable (ne_config NE) now [u] \<union> purgeable (ne_config NE) now us"
    by (auto simp: purgeable_def)
  show ?case
    unfolding N
    using touches_trans [of "purgeable (ne_config NE) now [u]" "nt_db s" "nt_db s1" _ "nt_db s2"] delivers_trans [of s s1 s2]
      process_user_spec [of NE now u s] Cons.IH [of s1] a b by simp
qed

definition attention_count :: "db \<Rightarrow> nat" where
  "attention_count d = length (filter (\<lambda>u. u_planExpiresAt u \<noteq> None) (users d))"

lemma touches_attention: "touches N d d' \<Longrightarrow> attention_count d' = attention_count d"
proof -
  assume "touches N d d'"
  then obtain f where f: "users d' = map f (users d)" "\<forall>u. (f u)\<lparr>u_usedStorage := 0\<rparr> = u\<lparr>u_usedStorage := 0\<rparr>" by (auto simp: touches_def)
  have "u_planExpiresAt (f u) = u_planExpiresAt u" for u using same_but_used [of f u] f(2) by simp
  then show ?thesis by (simp add: attention_count_def f(1) filter_map comp_def)
qed

lemma list_attention_db: "nt_db (snd (on_sys (db_listAttentionUsers E p ps) s)) = nt_db s" "nt_outbox (snd (on_sys (db_listAttentionUsers E p ps) s)) = nt_outbox s"
  using db_call_db [of E "\<lambda>d. (Success 200 (getAttention (page_params (Num (of_nat p)) (Num (of_nat ps))) d), d)" "nt_sys s"]
  by (auto simp: on_sys_def db_listAttentionUsers_def split: prod.split)

lemma list_attention_total:
  "db_listAttentionUsers E p ps s = (Inr res, s1) \<Longrightarrow> total res = attention_count (px_db s)"
  by (auto simp: db_listAttentionUsers_def getAttention_def find_page_def paginated_def attention_count_def Let_def dest!: db_call_success)

text \<open>\<open>runOnce\<close>: the loop over the pages of 100 users. The number of users with an expiry does not change, so it ends.\<close>

function run_pages :: "notifier_env \<Rightarrow> int \<Rightarrow> nat \<Rightarrow> nat \<Rightarrow> nat \<Rightarrow> (nat \<times> nat) nio" where
  "run_pages NE now p evaluated sent s =
     (case on_sys (db_listAttentionUsers (ne_env NE) p 100) s of
        (Inl e, s1) \<Rightarrow> (Inl e, s1)
      | (Inr res, s1) \<Rightarrow>
          (let (k, s2) = process_users NE now (items res) s1; evaluated' = evaluated + length (items res) in
           if length (items res) < 100 \<or> total res \<le> p * 100 then (Inr (evaluated', sent + k), s2)
           else run_pages NE now (p + 1) evaluated' (sent + k) s2))"
  by pat_completeness auto
termination
proof (relation "measure (\<lambda>(NE, now, p, evaluated, sent, s). attention_count (nt_db s) - p)")
  fix NE now p and evaluated sent :: nat and s x s1 res xa k s2 and evaluated' :: nat
  assume l: "(x, s1) = on_sys (db_listAttentionUsers (ne_env NE) p 100) s" "x = Inr res"
    and u: "xa = process_users NE now (items res) s1" "(k, s2) = xa"
    and c: "\<not> (length (items res) < 100 \<or> total res \<le> p * 100)"
  have l': "on_sys (db_listAttentionUsers (ne_env NE) p 100) s = (Inr res, s1)" using l by simp
  have d: "nt_db s1 = nt_db s" using list_attention_db(1) [of "ne_env NE" p 100 s] l' by simp
  have t: "total res = attention_count (nt_db s)"
    using l' list_attention_total by (auto simp: on_sys_def split: prod.splits)
  have "touches (purgeable (ne_config NE) now (items res)) (nt_db s1) (nt_db s2)"
    using process_users_spec [of NE now "items res" s1] u by (metis snd_conv)
  then have "attention_count (nt_db s2) = attention_count (nt_db s)" using touches_attention d by simp
  moreover have "p < attention_count (nt_db s)" using t c by (cases p) auto
  ultimately show "((NE, now, p + 1, evaluated', sent + k, s2), NE, now, p, evaluated, sent, s)
      \<in> measure (\<lambda>(NE, now, p, evaluated, sent, s). attention_count (nt_db s) - p)"
    by (simp add: diff_less_mono2)
qed simp

declare run_pages.simps [simp del]

definition runOnce :: "notifier_env \<Rightarrow> int \<Rightarrow> (nat \<times> nat) nio" where
  "runOnce NE now s = run_pages NE now 1 0 0 s"

end
