(* ===== verification/Notifier_Props.thy ===== *)
theory Notifier_Props
  imports Notifier
begin

text \<open>
  What the passes of the notifier guarantee: no message twice, whatever fails and whatever the other
  services do in between; no blob deleted before the retention of its owner is over; and, when the
  data service answers, every due notification of every user on record after one pass.
\<close>

section \<open>A whole pass\<close>

lemma list_attention_items:
  "on_sys (db_listAttentionUsers E p ps) s = (Inr res, s1) \<Longrightarrow> set (items res) \<subseteq> set (users (nt_db s))"
  by (auto simp: on_sys_def db_listAttentionUsers_def getAttention_def find_page_def paginated_def page_rows_def Let_def
      dest!: db_call_success in_set_takeD in_set_dropD split: prod.splits)

lemma touches_purgeable: "touches N d d' \<Longrightarrow> purgeable config now (users d') = purgeable config now (users d)"
proof -
  assume "touches N d d'"
  then obtain f where f: "users d' = map f (users d)" "\<forall>u. (f u)\<lparr>u_usedStorage := 0\<rparr> = u\<lparr>u_usedStorage := 0\<rparr>" by (auto simp: touches_def)
  have "u_npub (f u) = u_npub u" "retention_over config now (f u) = retention_over config now u" for u
    using same_but_used [of f u] f(2) by (simp_all add: retention_over_def)
  moreover from this have "{u \<in> f ` set (users d). retention_over config now u} = f ` {u \<in> set (users d). retention_over config now u}"
    by auto
  ultimately show ?thesis by (simp add: purgeable_def f(1) image_image)
qed

lemma run_pages_spec:
  "run_pages NE now p ev k s = (r, s') \<Longrightarrow>
     touches (purgeable (ne_config NE) now (users (nt_db s))) (nt_db s) (nt_db s') \<and> delivers s s'"
proof (induction NE now p ev k s rule: run_pages.induct)
  case (1 NE now p ev k s)
  let ?N = "purgeable (ne_config NE) now (users (nt_db s))"
  obtain q s1 where l: "on_sys (db_listAttentionUsers (ne_env NE) p 100) s = (q, s1)" by fastforce
  have s1: "nt_db s1 = nt_db s" "nt_outbox s1 = nt_outbox s"
    using list_attention_db [of "ne_env NE" p 100 s] l by simp_all
  then have d1: "delivers s s1" by (simp add: delivers_silent log_grows_refl)
  show ?case
  proof (cases q)
    case (Inl e)
    with 1(2) l s1 d1 show ?thesis by (simp add: run_pages.simps [of NE now p ev k s] touches_refl)
  next
    case (Inr res)
    obtain j s2 where u: "process_users NE now (items res) s1 = (j, s2)" by fastforce
    have "purgeable (ne_config NE) now (items res) \<subseteq> ?N"
      using list_attention_items [of "ne_env NE" p 100 s res s1] l Inr by (auto simp: purgeable_def)
    then have t2: "touches ?N (nt_db s) (nt_db s2)" and d2: "delivers s s2"
      using process_users_spec [of NE now "items res" s1] u s1 delivers_trans [OF d1] by (auto intro: touches_mono)
    show ?thesis
    proof (cases "length (items res) < 100 \<or> total res \<le> p * 100")
      case True
      with 1(2) l Inr u t2 d2 show ?thesis by (simp add: run_pages.simps [of NE now p ev k s])
    next
      case False
      then have "run_pages NE now (p + 1) (ev + length (items res)) (k + j) s2 = (r, s')"
        using 1(2) l Inr u by (simp add: run_pages.simps [of NE now p ev k s])
      with 1(1) l Inr u False have "touches (purgeable (ne_config NE) now (users (nt_db s2))) (nt_db s2) (nt_db s') \<and> delivers s2 s'"
        by simp
      then show ?thesis using t2 d2 touches_purgeable [OF t2] touches_step delivers_trans by metis
    qed
  qed
qed

section \<open>At most once\<close>

definition outbox_ok :: "notifier \<Rightarrow> bool" where
  "outbox_ok s \<longleftrightarrow> distinct (map msg_key (nt_outbox s)) \<and> (\<forall>m \<in> set (nt_outbox s). logged (nt_db s) (msg_key m))"

text \<open>A pass of the notifier, with any outcome of its calls, or a transaction of any other client of the data service.\<close>

inductive notifier_step :: "notifier \<Rightarrow> notifier \<Rightarrow> bool" where
  step_pass: "notifier_step s (snd (runOnce NE now s))"
| step_other: "db_step (nt_db s) d \<Longrightarrow> notifier_step s (s\<lparr>nt_sys := (nt_sys s)\<lparr>px_db := d\<rparr>\<rparr>)"

lemma delete_rows_logs: "delete_rows rs l d = Inr (l', d') \<Longrightarrow> notificationLogs d' = notificationLogs d"
proof (induction rs arbitrary: l d)
  case (Cons r rs)
  from Cons.prems obtain u where "delete_rows rs u (drop_blob r d) = Inr (l', d')"
    by (elim delete_rows_step) blast
  from Cons.IH [OF this] show ?case by (simp add: drop_blob_def)
qed simp

lemma db_step_log: "db_step d d' \<Longrightarrow> log_grows d d'"
proof (induction rule: db_step.induct)
  case (step_postBlob d now h n sz rs)
  then show ?case by (auto simp: log_grows_def postBlob_def add_blob_def Let_def split: option.split prod.split)
next
  case (step_deleteBlob d h no all)
  obtain r d' where e: "deleteBlob h no all d = (r, d')" by fastforce
  show ?case
  proof (cases r)
    case (Success st v)
    then show ?thesis using deleteBlob_success [of h no all d st v d'] delete_rows_logs e by (auto simp: log_grows_def)
  next
    case (Failure st c)
    then have "d' = d" using e deleteBlob_failure by blast
    then show ?thesis by (simp add: e log_grows_refl)
  qed
next
  case (step_postEntitlement d dp now n body)
  then show ?case
    by (auto simp: log_grows_def postEntitlement_def entitlement_tx_def claim_grant_def set_entitlement_def upsert_user_def Let_def
        split: sum.split option.split prod.split if_splits EntitlementError.split tx_error.split)
next
  case (step_postNotification d now fresh n k rf ch)
  then show ?case by (auto simp: log_grows_def postNotification_def Let_def)
qed (auto simp: log_grows_def deleteUserBlobs_def postModeration_def registerService_def Let_def split: option.split)

lemma delivers_outbox: "delivers s s' \<Longrightarrow> outbox_ok s \<Longrightarrow> outbox_ok s'"
proof -
  assume d: "delivers s s'" and ok: "outbox_ok s"
  obtain new where n: "nt_outbox s' = nt_outbox s @ new" "distinct (map msg_key new)"
    "\<forall>m \<in> set new. \<not> logged (nt_db s) (msg_key m) \<and> logged (nt_db s') (msg_key m)" "log_grows (nt_db s) (nt_db s')"
    using d by (auto simp: delivers_def)
  have "\<forall>m \<in> set (nt_outbox s'). logged (nt_db s') (msg_key m)"
    unfolding n(1) set_append using ok [unfolded outbox_ok_def] n(3) logged_mono [OF _ n(4)] by blast
  moreover have "distinct (map msg_key (nt_outbox s'))"
    using ok n by (force simp: outbox_ok_def)
  ultimately show ?thesis by (simp add: outbox_ok_def)
qed

lemma notifier_step_delivers: "notifier_step s s' \<Longrightarrow> delivers s s'"
proof (induction rule: notifier_step.induct)
  case (step_pass s NE now)
  then show ?case using run_pages_spec [of NE now 1 0 0 s] by (cases "runOnce NE now s") (auto simp: runOnce_def)
next
  case (step_other s d)
  then show ?case using db_step_log by (intro delivers_silent) simp_all
qed

interpretation notifier: invariant_system outbox_ok notifier_step outbox_ok
proof
  show "notifier_step s t \<Longrightarrow> outbox_ok s \<Longrightarrow> outbox_ok t" for s t
    using notifier_step_delivers delivers_outbox by blast
qed simp

text \<open>
  C31. No notification is sent twice on one channel. Over any sequence of passes, whatever calls fail or
  lose their answer, and whatever the other clients of the data service do in between, the messages
  that leave the notifier have pairwise different users, kinds, references and channels. The log is
  written before a message is sent: what is logged is never sent again, also if its sending failed.
\<close>

theorem notices_at_most_once:
  assumes "outbox_ok s" and "notifier_step\<^sup>*\<^sup>* s s'"
  shows "distinct (map msg_key (nt_outbox s'))
    \<and> (\<exists>new. nt_outbox s' = nt_outbox s @ new \<and> (\<forall>m \<in> set new. \<not> logged (nt_db s) (msg_key m)))"
proof -
  have "outbox_ok s'" by (rule notifier.inv_steps [OF assms])
  moreover from assms(2) have "delivers s s'"
  proof (induction rule: rtranclp_induct)
    case base
    show ?case by (simp add: delivers_silent log_grows_refl)
  next
    case (step t u)
    then show ?case using notifier_step_delivers delivers_trans by blast
  qed
  ultimately show ?thesis unfolding outbox_ok_def delivers_def by blast
qed

text \<open>
  C32. A pass deletes data only after the retention window. If the blobs of an account differ after a
  pass, then purging is enabled and the account's row has an expiry whose last window (grace, write
  block and read block) ended by then; everyone's entitlement is as before.
\<close>

theorem purge_only_after_retention:
  assumes "runOnce NE now s = (r, s')" and "filter (\<lambda>b. b_npub b = n) (blobs (nt_db s')) \<noteq> filter (\<lambda>b. b_npub b = n) (blobs (nt_db s))"
  shows "purgeEnabled (ne_config NE)
    \<and> (\<exists>u t e. u \<in> set (users (nt_db s)) \<and> u_npub u = n \<and> u_planExpiresAt u = Some t \<and> read_end t (ne_config NE) = Some e \<and> e \<le> now)
    \<and> map (\<lambda>u. u\<lparr>u_usedStorage := 0\<rparr>) (users (nt_db s')) = map (\<lambda>u. u\<lparr>u_usedStorage := 0\<rparr>) (users (nt_db s))"
proof -
  have t: "touches (purgeable (ne_config NE) now (users (nt_db s))) (nt_db s) (nt_db s')"
    using run_pages_spec assms(1) unfolding runOnce_def by blast
  with assms(2) have "n \<in> purgeable (ne_config NE) now (users (nt_db s))" by (auto simp: touches_def)
  then obtain u where "purgeEnabled (ne_config NE)" "u \<in> set (users (nt_db s))" "u_npub u = n" "retention_over (ne_config NE) now u"
    by (auto simp: purgeable_def split: if_splits)
  moreover from this(4) have "\<exists>t e. u_planExpiresAt u = Some t \<and> read_end t (ne_config NE) = Some e \<and> e \<le> now"
    by (simp add: retention_over_def split: option.splits)
  moreover have "map (\<lambda>u. u\<lparr>u_usedStorage := 0\<rparr>) (users (nt_db s')) = map (\<lambda>u. u\<lparr>u_usedStorage := 0\<rparr>) (users (nt_db s))"
    using t by (auto simp: touches_def)
  ultimately show ?thesis by blast
qed

section \<open>Completeness of a pass\<close>

definition on_record :: "notifier_env \<Rightarrow> npub \<Rightarrow> DueNotification \<Rightarrow> db \<Rightarrow> bool" where
  "on_record NE n x d \<longleftrightarrow> logged d (n, dn_kind x, dn_ref x, ''email'') \<and> (ne_dm NE \<noteq> None \<longrightarrow> logged d (n, dn_kind x, dn_ref x, ''nostr''))"

lemma on_record_mono: "on_record NE n x d \<Longrightarrow> log_grows d d' \<Longrightarrow> on_record NE n x d'"
  using logged_mono by (auto simp: on_record_def)

lemma log_notification_ok:
  assumes "no_faults (ne_env NE)" "n \<noteq> []" "dn_kind x \<noteq> []" "ch \<noteq> []"
  shows "\<exists>b s'. log_notification NE now n x ch s = (Inr b, s') \<and> logged (nt_db s') (n, dn_kind x, dn_ref x, ch)"
  using assms
  by (auto simp: log_notification_def on_sys_def db_logNotification_def db_call_def no_faults_def postNotification_def
      nl_conflict_def logged.simps Let_def split: prod.split)

lemma deliver_records:
  assumes "no_faults (ne_env NE)" "n \<noteq> []" "dn_kind x \<noteq> []"
  shows "on_record NE n x (nt_db (snd (deliver NE now n x s)))"
proof -
  obtain k s1 where a: "deliver_nostr NE now n x s = (k, s1)" by fastforce
  obtain l s2 where b: "deliver_email NE now n x s1 = (l, s2)" by fastforce
  have "ne_dm NE \<noteq> None \<Longrightarrow> logged (nt_db s1) (n, dn_kind x, dn_ref x, ''nostr'')"
    using log_notification_ok [OF assms, of "''nostr''" now s] a dm_send_spec(1)
    by (auto simp: deliver_nostr_def split: bool.splits prod.splits sum.splits) (metis snd_conv)+
  moreover have "logged (nt_db s2) (n, dn_kind x, dn_ref x, ''email'')"
    using log_notification_ok [OF assms, of "''email''" now s1] b email_send_spec(1)
    by (auto simp: deliver_email_def split: bool.splits prod.splits sum.splits) (metis snd_conv)+
  moreover have "log_grows (nt_db s1) (nt_db s2)"
    using deliver_email_spec [of s1 NE now n x] b touches_log by auto
  ultimately show ?thesis using logged_mono by (auto simp: on_record_def deliver_def a b)
qed

abbreviation due_of :: "notifier_env \<Rightarrow> int \<Rightarrow> User \<Rightarrow> DueNotification list" where
  "due_of NE now u \<equiv> dueNotifications u (withAccess u (ne_config NE) now) (ne_config NE) now"

lemma due_kind: "x \<in> set (dueNotifications u access config now) \<Longrightarrow> dn_kind x \<noteq> []"
  by (auto simp: dueNotifications_def expiry_warnings_def quota_warnings_def state_notice_def Let_def
      split: option.splits if_splits UserStatus.splits)

lemma deliverAll_records:
  assumes "no_faults (ne_env NE)" "n \<noteq> []" "\<forall>x \<in> set xs. dn_kind x \<noteq> []" "x \<in> set xs"
  shows "on_record NE n x (nt_db (snd (deliverAll NE now n xs s)))"
  using assms(3,4)
proof (induction xs arbitrary: s)
  case (Cons y ys)
  obtain k s1 where a: "deliver NE now n y s = (k, s1)" by fastforce
  obtain l s2 where b: "deliverAll NE now n ys s1 = (l, s2)" by fastforce
  have g: "log_grows (nt_db s1) (nt_db s2)"
    using deliverAll_spec [of s1 NE now n ys] b touches_log by auto
  show ?case
  proof (cases "x = y")
    case True
    then have "on_record NE n x (nt_db s1)" using deliver_records [OF assms(1,2), of y now s] Cons.prems a by simp
    then show ?thesis using on_record_mono [OF _ g] by (simp add: a b)
  next
    case False
    then show ?thesis using Cons.IH [of s1] Cons.prems by (simp add: a b)
  qed
qed simp

lemma process_user_records:
  assumes "no_faults (ne_env NE)" "u_npub u \<noteq> []" "x \<in> set (due_of NE now u)"
  shows "on_record NE (u_npub u) x (nt_db (snd (process_user NE now u s)))"
proof -
  obtain k s1 where a: "deliverAll NE now (u_npub u) (due_of NE now u) s = (k, s1)" by fastforce
  have r: "on_record NE (u_npub u) x (nt_db s1)"
    using deliverAll_records [OF assms(1,2) _ assms(3), of now s] due_kind a by auto
  obtain q s2 where b: "call_purge NE now (u_npub u) s1 = (q, s2)" by fastforce
  have r2: "on_record NE (u_npub u) x (nt_db s2)"
    using on_record_mono [OF r] touches_log [OF touches_call_purge [of "u_npub u" s1 NE now]] b by simp
  have "on_record NE (u_npub u) x (nt_db (snd (deliverAll NE now (u_npub u) ys s2)))" for ys
    using on_record_mono [OF r2] deliverAll_spec [of s2 NE now "u_npub u" ys] touches_log by blast
  with r r2 show ?thesis by (cases q) (simp_all add: process_user_def Let_def a b del: deliverAll.simps)
qed

lemma process_users_records:
  assumes "no_faults (ne_env NE)" "\<forall>u \<in> set us. u_npub u \<noteq> []" "u \<in> set us" "x \<in> set (due_of NE now u)"
  shows "on_record NE (u_npub u) x (nt_db (snd (process_users NE now us s)))"
  using assms(2,3)
proof (induction us arbitrary: s)
  case (Cons v vs)
  obtain k s1 where a: "process_user NE now v s = (k, s1)" by fastforce
  obtain l s2 where b: "process_users NE now vs s1 = (l, s2)" by fastforce
  have g: "log_grows (nt_db s1) (nt_db s2)"
    using process_users_spec [of NE now vs s1] b touches_log by auto
  show ?case
  proof (cases "u = v")
    case True
    then have "on_record NE (u_npub u) x (nt_db s1)"
      using process_user_records [OF assms(1) _ assms(4), of s] Cons.prems a by simp
    then show ?thesis using on_record_mono [OF _ g] by (simp add: a b)
  next
    case False
    then show ?thesis using Cons.IH [of s1] Cons.prems by (simp add: a b)
  qed
qed simp

text \<open>The users of the attention list in the order of the pages.\<close>

definition attention :: "db \<Rightarrow> User list" where
  "attention d = sort_key (\<lambda>u. the (u_planExpiresAt u)) (filter (\<lambda>u. u_planExpiresAt u \<noteq> None) (users d))"

lemma insort_key_map: "(\<And>x. k (f x) = k x) \<Longrightarrow> insort_key k (f x) (map f xs) = map f (insort_key k x xs)"
  by (induction xs) auto

lemma sort_key_map: "(\<And>x. k (f x) = k x) \<Longrightarrow> sort_key k (map f xs) = map f (sort_key k xs)"
  by (induction xs) (simp_all add: insort_key_map)

lemma touches_attention_rows:
  assumes "touches N d d'"
  shows "\<exists>f. attention d' = map f (attention d) \<and> (\<forall>u. u_npub u \<notin> N \<longrightarrow> f u = u) \<and> map u_npub (users d') = map u_npub (users d)"
proof -
  obtain f where f: "users d' = map f (users d)" "\<forall>u. u_npub u \<notin> N \<longrightarrow> f u = u" "\<forall>u. (f u)\<lparr>u_usedStorage := 0\<rparr> = u\<lparr>u_usedStorage := 0\<rparr>"
    using assms by (auto simp: touches_def)
  have k: "u_npub (f u) = u_npub u" "u_planExpiresAt (f u) = u_planExpiresAt u" for u
    using same_but_used [of f u] f(3) by simp_all
  have "attention d' = map f (attention d)"
    by (simp add: attention_def f(1) filter_map comp_def k sort_key_map)
  moreover have "map u_npub (users d') = map u_npub (users d)" by (simp add: f(1) comp_def k)
  ultimately show ?thesis using f(2) by blast
qed

lemma attention_distinct: "distinct (map u_npub (users d)) \<Longrightarrow> distinct (map u_npub (attention d))"
proof -
  assume "distinct (map u_npub (users d))"
  then have "distinct (map u_npub (filter (\<lambda>u. u_planExpiresAt u \<noteq> None) (users d)))" by (rule distinct_map_filter)
  moreover have "mset (map u_npub (attention d)) = mset (map u_npub (filter (\<lambda>u. u_planExpiresAt u \<noteq> None) (users d)))"
    by (simp add: attention_def mset_map)
  ultimately show ?thesis by (metis mset_eq_imp_distinct_iff)
qed

lemma list_attention_ok:
  assumes "no_faults E" "1 \<le> p" "p < 10 ^ 21"
  shows "\<exists>res s1. on_sys (db_listAttentionUsers E p 100) s = (Inr res, s1) \<and> nt_db s1 = nt_db s
    \<and> items res = take 100 (drop ((p - 1) * 100) (attention (nt_db s))) \<and> total res = length (attention (nt_db s))"
proof -
  have "page_params (Num (of_nat p)) (Num (of_nat 100)) = page_query p 100"
    using assms(3) num_query_nat [of 100] by (intro ext) (simp add: page_params_def page_query_def num_query_nat)
  then have "parsePagination (page_params (Num (of_nat p)) (Num (of_nat 100)))
      = \<lparr>pg_page = p, pg_pageSize = 100, pg_skip = (p - 1) * 100, pg_take = 100\<rparr>"
    using parsePagination_query [of p 100] assms(2) by (simp add: MAX_PAGE_SIZE_def)
  then show ?thesis
    using assms(1) by (simp add: on_sys_def db_listAttentionUsers_def db_call_def no_faults_def getAttention_def find_page_def
        paginated_def page_rows_def attention_def Let_def)
qed

lemma touched_tail:
  assumes "touches N d d'" "distinct (map u_npub (users d))" "N \<subseteq> u_npub ` set (take m (attention d))"
  shows "drop m (attention d') = drop m (attention d)"
proof -
  obtain f where f: "attention d' = map f (attention d)" "\<forall>u. u_npub u \<notin> N \<longrightarrow> f u = u"
    using touches_attention_rows [OF assms(1)] by blast
  have "distinct (map u_npub (take m (attention d) @ drop m (attention d)))"
    using attention_distinct [OF assms(2)] by simp
  then have "u_npub u \<notin> N" if "u \<in> set (drop m (attention d))" for u
    using that assms(3) unfolding map_append distinct_append by (metis IntI emptyE image_eqI list.set_map subsetD)
  then have "map f (drop m (attention d)) = drop m (attention d)" using f(2) by (simp add: map_idI)
  then show ?thesis by (simp add: f(1) drop_map)
qed

lemma run_pages_records:
  assumes nf: "no_faults (ne_env NE)"
  shows "1 \<le> p \<Longrightarrow> p < 10 ^ 21 \<Longrightarrow> distinct (map u_npub (users (nt_db s))) \<Longrightarrow> [] \<notin> u_npub ` set (users (nt_db s))
    \<Longrightarrow> length (attention (nt_db s)) < 10 ^ 21 \<Longrightarrow>
    \<exists>k s'. run_pages NE now p ev st s = (Inr (ev + length (drop ((p - 1) * 100) (attention (nt_db s))), k), s')
      \<and> (\<forall>u \<in> set (drop ((p - 1) * 100) (attention (nt_db s))). \<forall>x \<in> set (due_of NE now u). on_record NE (u_npub u) x (nt_db s'))"
proof (induction "length (attention (nt_db s)) - p" arbitrary: p ev st s rule: less_induct)
  case less
  let ?A = "attention (nt_db s)"
  obtain res s1 where l: "on_sys (db_listAttentionUsers (ne_env NE) p 100) s = (Inr res, s1)" "nt_db s1 = nt_db s"
    and i: "items res = take 100 (drop ((p - 1) * 100) ?A)" "total res = length ?A"
    using list_attention_ok [OF nf less.prems(1,2)] by blast
  obtain j s2 where u: "process_users NE now (items res) s1 = (j, s2)" by fastforce
  have sub: "set (items res) \<subseteq> set (users (nt_db s))" using list_attention_items [OF l(1)] .
  then have "\<forall>u \<in> set (items res). u_npub u \<noteq> []" using less.prems(4) by (metis image_eqI subsetD)
  then have rec: "on_record NE (u_npub v) x (nt_db s2)" if "v \<in> set (items res)" "x \<in> set (due_of NE now v)" for v x
    using process_users_records [OF nf _ that, of s1] u by simp
  have split: "drop ((p - 1) * 100) ?A = items res @ drop (p * 100) ?A"
    using append_take_drop_id [of 100 "drop ((p - 1) * 100) ?A"] less.prems(1) by (cases p) (simp_all add: i add.commute)
  show ?case
  proof (cases "length (items res) < 100 \<or> total res \<le> p * 100")
    case True
    then have "drop (p * 100) ?A = []" using i less.prems(1) by (cases p) auto
    with True l u rec split show ?thesis by (simp add: run_pages.simps [of NE now p ev st s])
  next
    case False
    have t: "touches (purgeable (ne_config NE) now (items res)) (nt_db s) (nt_db s2)"
      using process_users_spec [of NE now "items res" s1] u l by simp
    have "set (items res) \<subseteq> set (take (p * 100) ?A)"
      using less.prems(1) by (cases p) (auto simp: i take_drop add.commute dest: in_set_dropD)
    then have "purgeable (ne_config NE) now (items res) \<subseteq> u_npub ` set (take (p * 100) ?A)"
      by (auto simp: purgeable_def)
    from touched_tail [OF t less.prems(3) this] have tail: "drop (p * 100) (attention (nt_db s2)) = drop (p * 100) ?A" .
    obtain f where f: "attention (nt_db s2) = map f ?A" and keys: "map u_npub (users (nt_db s2)) = map u_npub (users (nt_db s))"
      using touches_attention_rows [OF t] by blast
    have p: "p * 100 < length ?A" "p < length ?A" using False i by simp_all
    have m: "length (attention (nt_db s2)) - (p + 1) < length ?A - p" using f p by simp
    have "[] \<notin> u_npub ` set (users (nt_db s2))" using keys less.prems(4) by (metis list.set_map)
    moreover have "p + 1 < 10 ^ 21" using p(2) less.prems(5) by linarith
    moreover have "length (attention (nt_db s2)) < 10 ^ 21" using f less.prems(5) by simp
    ultimately obtain k s' where rest: "run_pages NE now (p + 1) (ev + length (items res)) (st + j) s2
        = (Inr (ev + length (items res) + length (drop (p * 100) ?A), k), s')"
      and r2: "\<forall>v \<in> set (drop (p * 100) ?A). \<forall>x \<in> set (due_of NE now v). on_record NE (u_npub v) x (nt_db s')"
      using less.hyps [OF m, of "ev + length (items res)" "st + j"] keys less.prems(3) unfolding add_diff_cancel_right' tail
      by (metis le_add2)
    have "log_grows (nt_db s2) (nt_db s')" using run_pages_spec [OF rest] touches_log by blast
    with rec have "on_record NE (u_npub v) x (nt_db s')" if "v \<in> set (items res)" "x \<in> set (due_of NE now v)" for v x
      using that on_record_mono by blast
    with r2 rest show ?thesis
      unfolding split using False l u
      by (intro exI [of _ k] exI [of _ s']) (auto simp: run_pages.simps [of NE now p ev st s] simp del: length_drop)
  qed
qed


section \<open>A sample system\<close>

text \<open>One account with a blob, as the notifier finds it with an expiry long past, or shortly past.\<close>

definition past_db :: "int \<Rightarrow> db" where
  "past_db t = held_db\<lparr>users := [\<lparr>u_npub = ''npub1pk'', u_planExpiresAt = Some t, u_storageBytes = Some 100, u_usedStorage = 3, u_createdAt = 0\<rparr>]\<rparr>"

definition past_state :: "int \<Rightarrow> notifier" where
  "past_state t = \<lparr>nt_sys = held_proxy\<lparr>px_db := past_db t\<rparr>, nt_outbox = [], nt_sends = 0\<rparr>"

definition past_env :: notifier_env where
  "past_env = \<lparr>ne_env = small_env\<lparr>en_prims := sample_prims\<rparr>, ne_config = DEFAULT_LIFECYCLE_CONFIG\<lparr>purgeEnabled := True\<rparr>,
     ne_dm = Some (\<lambda>_. NoFault), ne_backend = True, ne_mail = (\<lambda>_. MailStatus ''sent''),
     ne_purge = Some (\<lambda>_. sample_request98), ne_purgeFault = (\<lambda>_. NoFault)\<rparr>"

lemma past_no_faults: "no_faults (ne_env past_env)"
  by (simp add: past_env_def no_faults_def small_env_def)

lemma past_ok: "db_ok (nt_db (past_state t))" "sizes_ok (nt_db (past_state t))"
  by (simp_all add: past_state_def past_db_def held_db_def db_ok_def used_by_def sizes_ok_def sum_where_def empty_db_def in_int8_def)

theorem notices_at_most_once_witness:
  "distinct (map msg_key (nt_outbox (snd (runOnce past_env 1100000 (snd (runOnce past_env 1000000 (past_state 0)))))))"
proof -
  have "outbox_ok (past_state 0)" by (simp add: outbox_ok_def past_state_def)
  moreover have "notifier_step\<^sup>*\<^sup>* (past_state 0) (snd (runOnce past_env 1100000 (snd (runOnce past_env 1000000 (past_state 0)))))"
    by (meson r_into_rtranclp rtranclp.rtrancl_into_rtrancl step_pass)
  ultimately show ?thesis using notices_at_most_once by blast
qed


lemma past_gate:
  assumes "px_db p = past_db t" "px_seen p = []"
  shows "\<exists>p0. internal_gate (ne_env past_env) 1100000 sample_request98 p = (GateNext ''npub1pk'', p0)"
proof -
  have "getServiceAccount (px_db p) ''npub1pk'' = Success 200 (hd (serviceAccounts held_db))"
    by (simp add: assms getServiceAccount_def past_db_def held_db_def)
  from db_get_ok(1) [OF past_no_faults, of "\<lambda>d. getServiceAccount d ''npub1pk''", OF this]
  have a: "db_get (ne_env past_env) (\<lambda>d. getServiceAccount d ''npub1pk'') p = (Inr (Some (hd (serviceAccounts held_db))), tick p)" .
  show ?thesis
    using sample_accepted a assms(2)
    by (simp add: internal_gate_def internalRoleGate_def Let_def held_db_def past_env_def)
qed

lemma past_purge:
  assumes "nt_db s = past_db t" "px_seen (nt_sys s) = []"
  shows "\<exists>s'. call_purge past_env 1100000 ''npub1pk'' s = (Inr 1, s') \<and> blobs (nt_db s') = []"
proof -
  obtain p0 where g: "internal_gate (ne_env past_env) 1100000 sample_request98 (nt_sys s) = (GateNext ''npub1pk'', p0)"
    using past_gate [OF assms] by blast
  have p0: "px_db p0 = past_db t" using g assms(1) by (auto simp: internal_gate_def Let_def split: prod.splits)
  have "db_ok (px_db p0)" "sizes_ok (px_db p0)" using past_ok [of t] p0 by (simp_all add: past_state_def)
  then obtain p1 where l: "purge_loop (ne_env past_env) ''npub1pk'' 0 p0 = (Inr 1, p1)" "blobs (px_db p1) = []"
    using purge_loop_ok [OF past_no_faults, of "''npub1pk''" p0 0] by (auto simp: p0 past_db_def held_db_def)
  then have "\<exists>p'. purge (ne_env past_env) 1100000 sample_request98 ''npub1pk'' (nt_sys s) = (respond 200 (PurgedBody 1), p') \<and> blobs (px_db p') = []"
    using g by (simp add: purge_def internal_route_def gate_response_def run_handler_def bind_io_at invalidate_io_def modify_io_def return_io_def)
  then obtain p' where "purge (ne_env past_env) 1100000 sample_request98 ''npub1pk'' (nt_sys s) = (respond 200 (PurgedBody 1), p')" "blobs (px_db p') = []"
    by blast
  then show ?thesis by (simp add: call_purge_def past_env_def Let_def respond_def)
qed

theorem purge_only_after_retention_witness:
  "\<exists>u t e. u \<in> set (users (past_db (- 10000000000))) \<and> u_npub u = ''npub1pk'' \<and> u_planExpiresAt u = Some t
     \<and> read_end t (ne_config past_env) = Some e \<and> e \<le> 1100000"
proof -
  let ?s = "past_state (- 10000000000)" and ?u = "hd (users (past_db (- 10000000000)))"
  obtain res s1 where l: "on_sys (db_listAttentionUsers (ne_env past_env) 1 100) ?s = (Inr res, s1)" "nt_db s1 = nt_db ?s"
    and i: "items res = take 100 (drop ((1 - 1) * 100) (attention (nt_db ?s)))"
    using list_attention_ok [OF past_no_faults, of 1 ?s] by auto
  have items: "items res = [?u]" by (simp add: i attention_def past_state_def past_db_def)
  have seen: "px_seen (nt_sys s1) = []"
    using l(1) past_no_faults by (auto simp: on_sys_def db_listAttentionUsers_def db_call_def no_faults_def past_state_def held_proxy_def small_proxy_def Let_def)
  obtain s2 where c: "call_purge past_env 1100000 ''npub1pk'' s1 = (Inr 1, s2)" "blobs (nt_db s2) = []"
    using past_purge [of s1 "- 10000000000"] l(2) seen by (auto simp: past_state_def)
  have a: "status (withAccess ?u (ne_config past_env) 1100000) = CLOSED" "purge_due past_env 1100000 ?u (withAccess ?u (ne_config past_env) 1100000)"
    by code_simp+
  have n: "u_npub ?u = ''npub1pk''" by (simp add: past_db_def)
  let ?x = "purged_notice (purgeAt (withAccess ?u (ne_config past_env) 1100000)) 1"
  have "dueNotifications ?u (withAccess ?u (ne_config past_env) 1100000) (ne_config past_env) 1100000 = []"
    using a(1) by (simp add: dueNotifications_def past_db_def)
  then have "process_user past_env 1100000 ?u s1 = (0, snd (deliverAll past_env 1100000 ''npub1pk'' [?x] s2))"
    using a(2) c(1) n by (simp add: process_user_def Let_def del: deliverAll.simps(2))
  moreover have "filter (\<lambda>b. b_npub b = ''npub1pk'') (blobs (nt_db (snd (deliverAll past_env 1100000 ''npub1pk'' [?x] s2)))) = []"
    using deliverAll_spec [of s2 past_env 1100000 "''npub1pk''" "[?x]"] c(2) unfolding touches_def by auto
  ultimately have "\<exists>r s'. runOnce past_env 1100000 ?s = (r, s') \<and> filter (\<lambda>b. b_npub b = ''npub1pk'') (blobs (nt_db s')) = []"
    unfolding runOnce_def run_pages.simps [of past_env 1100000 1 0 0 ?s] using l items
    by (simp del: deliverAll.simps One_nat_def)
  then obtain r s' where run: "runOnce past_env 1100000 ?s = (r, s')" "filter (\<lambda>b. b_npub b = ''npub1pk'') (blobs (nt_db s')) = []" by blast
  moreover have "filter (\<lambda>b. b_npub b = ''npub1pk'') (blobs (nt_db ?s)) \<noteq> []" by (simp add: past_state_def past_db_def held_db_def)
  ultimately show ?thesis
    using purge_only_after_retention [OF run(1), of "''npub1pk''"] by (simp add: past_state_def)
qed

end
