(* ===== verification/Node_Db.thy ===== *)
theory Node_Db
  imports Tables "HOL-Library.List_Lexorder" "HOL-Library.Char_ord" "HOL-Library.Product_Lexorder"
begin

text \<open>
  The metadata database of a storage node, \<open>storage-client/blossom/src/db/blobs.ts\<close>, with
  the tables of \<open>db/migrations\<close>: primary keys, foreign keys and their cascades as a local
  SQLite database with \<open>foreign_keys=ON\<close> enforces them. The invariant \<open>node_tables_ok\<close> states
  the keys and the references, and every statement that changes the tables keeps it.
\<close>

section \<open>Tables\<close>

type_synonym pubkey = string
type_synonym Nip94Tag = "string list"

text \<open>The \<open>nip94\<close> column holds a JSON text; it stands for the value it parses to.\<close>

record blob_row =
  nr_sha256 :: blob_hash
  nr_size :: nat
  nr_type :: "string option"
  nr_uploaded :: int
  nr_nip94 :: "json option"

record BlobRecord =
  br_sha256 :: blob_hash
  br_size :: nat
  br_type :: "string option"
  br_uploaded :: int
  br_nip94 :: "Nip94Tag list option"

record node_tables =
  nd_blobs :: "blob_row list"
  nd_owners :: "(blob_hash \<times> pubkey) list"
  nd_accessed :: "(blob_hash \<times> int) list"
  nd_derivatives :: "(blob_hash \<times> blob_hash) list"
  nd_thumbnails :: "(blob_hash \<times> blob_hash) list"

section \<open>NIP-94 column\<close>

fun json_string :: "json \<Rightarrow> string option" where
  "json_string (JStr s) = Some s"
| "json_string _ = None"

fun json_tag :: "json \<Rightarrow> Nip94Tag option" where
  "json_tag (JArr vs) =
     (if 2 \<le> length vs \<and> list_all (\<lambda>v. json_string v \<noteq> None) vs
      then Some (map (\<lambda>v. the (json_string v)) vs) else None)"
| "json_tag _ = None"

definition parseNip94 :: "json option \<Rightarrow> Nip94Tag list option" where
  "parseNip94 v =
     (case v of
        Some (JArr tags) \<Rightarrow>
          (let valid = List.map_filter json_tag tags
           in if valid \<noteq> [] then Some valid else None)
      | _ \<Rightarrow> None)"

definition serializeNip94 :: "Nip94Tag list option \<Rightarrow> json option" where
  "serializeNip94 tags =
     (case tags of
        Some (t # ts) \<Rightarrow> Some (JArr (map (\<lambda>t. JArr (map JStr t)) (t # ts)))
      | _ \<Rightarrow> None)"

definition row_record :: "blob_row \<Rightarrow> BlobRecord" where
  "row_record r = \<lparr>br_sha256 = nr_sha256 r, br_size = nr_size r, br_type = nr_type r,
     br_uploaded = nr_uploaded r, br_nip94 = parseNip94 (nr_nip94 r)\<rparr>"

definition record_row :: "BlobRecord \<Rightarrow> blob_row" where
  "record_row b = \<lparr>nr_sha256 = br_sha256 b, nr_size = br_size b, nr_type = br_type b,
     nr_uploaded = br_uploaded b, nr_nip94 = serializeNip94 (br_nip94 b)\<rparr>"

section \<open>Statements\<close>

definition getBlob_node :: "blob_hash \<Rightarrow> node_tables \<Rightarrow> BlobRecord option" where
  "getBlob_node h d = map_option row_record (find_row nr_sha256 h (nd_blobs d))"

definition hasBlob :: "blob_hash \<Rightarrow> node_tables \<Rightarrow> bool" where
  "hasBlob h d \<longleftrightarrow> find_row nr_sha256 h (nd_blobs d) \<noteq> None"

text \<open>\<open>INSERT OR IGNORE\<close> on a key, and \<open>INSERT OR REPLACE\<close>.\<close>

definition insert_or_ignore :: "('r \<Rightarrow> 'k) \<Rightarrow> 'r \<Rightarrow> 'r list \<Rightarrow> 'r list" where
  "insert_or_ignore key r t = (if key r \<in> key ` set t then t else t @ [r])"

definition insert_or_replace :: "('r \<Rightarrow> 'k) \<Rightarrow> 'r \<Rightarrow> 'r list \<Rightarrow> 'r list" where
  "insert_or_replace key r t = delete_row key (key r) t @ [r]"

definition insertBlobRecord :: "BlobRecord \<Rightarrow> node_tables \<Rightarrow> node_tables" where
  "insertBlobRecord b d = d\<lparr>
     nd_blobs := insert_or_ignore nr_sha256 (record_row b) (nd_blobs d),
     nd_accessed := insert_or_replace fst (br_sha256 b, br_uploaded b) (nd_accessed d)\<rparr>"

definition insertBlob :: "BlobRecord \<Rightarrow> pubkey \<Rightarrow> node_tables \<Rightarrow> node_tables" where
  "insertBlob b uploader d = d\<lparr>
     nd_blobs := insert_or_ignore nr_sha256 (record_row b) (nd_blobs d),
     nd_owners := insert_or_ignore id (br_sha256 b, uploader) (nd_owners d),
     nd_accessed := insert_or_replace fst (br_sha256 b, br_uploaded b) (nd_accessed d)\<rparr>"

text \<open>Deleting a blob row cascades to every table that refers to it.\<close>

definition deleteBlob_node :: "blob_hash \<Rightarrow> node_tables \<Rightarrow> bool \<times> node_tables" where
  "deleteBlob_node h d = (hasBlob h d, d\<lparr>
     nd_blobs := delete_row nr_sha256 h (nd_blobs d),
     nd_owners := delete_row fst h (nd_owners d),
     nd_accessed := delete_row fst h (nd_accessed d),
     nd_derivatives := delete_row snd h (nd_derivatives d),
     nd_thumbnails := delete_row fst h (delete_row snd h (nd_thumbnails d))\<rparr>)"

definition isOwner :: "blob_hash \<Rightarrow> pubkey \<Rightarrow> node_tables \<Rightarrow> bool" where
  "isOwner h p d \<longleftrightarrow> (h, p) \<in> set (nd_owners d)"

definition removeOwner :: "blob_hash \<Rightarrow> pubkey \<Rightarrow> node_tables \<Rightarrow> bool \<times> node_tables" where
  "removeOwner h p d = (isOwner h p d, d\<lparr>nd_owners := delete_row id (h, p) (nd_owners d)\<rparr>)"

definition countOwners :: "blob_hash \<Rightarrow> node_tables \<Rightarrow> nat" where
  "countOwners h d = length (filter (\<lambda>r. fst r = h) (nd_owners d))"

text \<open>The statement fails on its foreign key when the blob has no row: \<open>None\<close>.\<close>

definition touchBlob :: "blob_hash \<Rightarrow> int \<Rightarrow> node_tables \<Rightarrow> node_tables option" where
  "touchBlob h t d =
     (if hasBlob h d then Some (d\<lparr>nd_accessed := insert_or_replace fst (h, t) (nd_accessed d)\<rparr>) else None)"

definition getMediaDerivative :: "blob_hash \<Rightarrow> node_tables \<Rightarrow> blob_hash option" where
  "getMediaDerivative h d = map_option snd (find_row fst h (nd_derivatives d))"

definition insertMediaDerivative :: "blob_hash \<Rightarrow> blob_hash \<Rightarrow> node_tables \<Rightarrow> node_tables option" where
  "insertMediaDerivative orig opt d =
     (if getMediaDerivative orig d \<noteq> None then Some d
      else if hasBlob opt d then Some (d\<lparr>nd_derivatives := nd_derivatives d @ [(orig, opt)]\<rparr>) else None)"

definition insertMediaThumbnail :: "blob_hash \<Rightarrow> blob_hash \<Rightarrow> node_tables \<Rightarrow> node_tables option" where
  "insertMediaThumbnail parent thumb d =
     (if hasBlob parent d \<and> hasBlob thumb d
      then Some (d\<lparr>nd_thumbnails := insert_or_replace fst (parent, thumb) (nd_thumbnails d)\<rparr>) else None)"

definition getMediaThumbnailsForParent :: "blob_hash \<Rightarrow> node_tables \<Rightarrow> BlobRecord list" where
  "getMediaThumbnailsForParent p d =
     List.map_filter (\<lambda>mt. getBlob_node (snd mt) d) (filter (\<lambda>mt. fst mt = p) (nd_thumbnails d))"

definition getMediaThumbnail :: "blob_hash \<Rightarrow> node_tables \<Rightarrow> BlobRecord option" where
  "getMediaThumbnail p d =
     (case getMediaThumbnailsForParent p d of [] \<Rightarrow> None | b # _ \<Rightarrow> Some b)"

section \<open>Queries\<close>

text \<open>\<open>LIKE\<close> of SQLite: \<open>%\<close> any text, \<open>_\<close> any character, ASCII letters without case.\<close>

fun sql_like :: "string \<Rightarrow> string \<Rightarrow> bool" where
  "sql_like [] s = (s = [])"
| "sql_like (p # ps) [] = (p = CHR ''%'' \<and> sql_like ps [])"
| "sql_like (p # ps) (c # cs) =
     (if p = CHR ''%'' then sql_like ps (c # cs) \<or> sql_like (p # ps) cs
      else (p = CHR ''_'' \<or> lower_char p = lower_char c) \<and> sql_like ps cs)"

text \<open>A comparison with \<open>NULL\<close> is not true.\<close>

definition type_like :: "string \<Rightarrow> string option \<Rightarrow> bool" where
  "type_like pat t \<longleftrightarrow> (case t of None \<Rightarrow> False | Some m \<Rightarrow> sql_like pat m)"

definition is_thumbnail :: "blob_hash \<Rightarrow> node_tables \<Rightarrow> bool" where
  "is_thumbnail h d \<longleftrightarrow> h \<in> snd ` set (nd_thumbnails d)"

record BlobPruneRecord = BlobRecord +
  bp_accessed :: "int option"

definition prune_record :: "node_tables \<Rightarrow> blob_row \<Rightarrow> BlobPruneRecord" where
  "prune_record d r = BlobRecord.extend (row_record r)
     \<lparr>bp_accessed = map_option snd (find_row fst (nr_sha256 r) (nd_accessed d))\<rparr>"

text \<open>
  The join with \<open>owners\<close> yields a blob once for each listed owner. The rows come in table
  order.
\<close>

definition getBlobsForPrune :: "string \<Rightarrow> pubkey list option \<Rightarrow> node_tables \<Rightarrow> BlobPruneRecord list" where
  "getBlobsForPrune pat pubkeys d =
     (let fits = filter (\<lambda>r. type_like pat (nr_type r) \<and> \<not> is_thumbnail (nr_sha256 r) d) (nd_blobs d)
      in case pubkeys of
           Some (p # ps) \<Rightarrow>
             concat (map (\<lambda>r. map (\<lambda>_. prune_record d r)
               (filter (\<lambda>ow. fst ow = nr_sha256 r \<and> snd ow \<in> set (p # ps)) (nd_owners d))) fits)
         | _ \<Rightarrow> map (prune_record d) fits)"

definition getOwnerlessBlobSha256s :: "node_tables \<Rightarrow> (blob_hash \<times> string option) list" where
  "getOwnerlessBlobSha256s d =
     map (\<lambda>r. (nr_sha256 r, nr_type r))
       (filter (\<lambda>r. nr_sha256 r \<notin> fst ` set (nd_owners d) \<and> \<not> is_thumbnail (nr_sha256 r) d) (nd_blobs d))"

text \<open>\<open>ORDER BY b.uploaded DESC, b.sha256 ASC\<close>.\<close>

definition list_order :: "blob_row \<Rightarrow> int \<times> blob_hash" where
  "list_order r = (- nr_uploaded r, nr_sha256 r)"

definition owned_rows :: "pubkey \<Rightarrow> node_tables \<Rightarrow> blob_row list" where
  "owned_rows p d = filter (\<lambda>r. (nr_sha256 r, p) \<in> set (nd_owners d)) (nd_blobs d)"

record ListOpts =
  lo_limit :: "nat option"
  lo_cursor :: "blob_hash option"
  lo_since :: "int option"
  lo_until :: "int option"

definition after_cursor :: "blob_hash option \<Rightarrow> node_tables \<Rightarrow> blob_row \<Rightarrow> bool" where
  "after_cursor cur d r \<longleftrightarrow>
     (case cur of
        Some (c # cs) \<Rightarrow>
          (case find_row nr_sha256 (c # cs) (nd_blobs d) of
             None \<Rightarrow> True
           | Some cr \<Rightarrow> nr_uploaded r < nr_uploaded cr
               \<or> nr_uploaded r = nr_uploaded cr \<and> nr_sha256 r > c # cs)
      | _ \<Rightarrow> True)"

definition in_window :: "int option \<Rightarrow> int option \<Rightarrow> blob_row \<Rightarrow> bool" where
  "in_window since until r \<longleftrightarrow>
     (case since of None \<Rightarrow> True | Some t \<Rightarrow> t \<le> nr_uploaded r)
     \<and> (case until of None \<Rightarrow> True | Some t \<Rightarrow> nr_uploaded r \<le> t)"

definition listBlobsByPubkey :: "pubkey \<Rightarrow> ListOpts \<Rightarrow> node_tables \<Rightarrow> BlobRecord list" where
  "listBlobsByPubkey p o' d =
     (let limit = min (case lo_limit o' of None \<Rightarrow> 100 | Some n \<Rightarrow> n) 1000;
          rows = filter (\<lambda>r. after_cursor (lo_cursor o') d r \<and> in_window (lo_since o') (lo_until o') r)
                   (owned_rows p d)
      in map row_record (take limit (sort_key list_order rows)))"

definition listBlobsByPubkeyAdmin :: "pubkey \<Rightarrow> nat option \<Rightarrow> nat option \<Rightarrow> node_tables \<Rightarrow> BlobRecord list" where
  "listBlobsByPubkeyAdmin p limit offset d =
     map row_record (page_rows (case offset of None \<Rightarrow> 0 | Some n \<Rightarrow> n) (case limit of None \<Rightarrow> 50 | Some n \<Rightarrow> n)
       (sort_key list_order (owned_rows p d)))"

definition countBlobsByPubkey :: "pubkey \<Rightarrow> node_tables \<Rightarrow> nat" where
  "countBlobsByPubkey p d = length (filter (\<lambda>ow. snd ow = p) (nd_owners d))"

record BlobStats =
  st_blobCount :: nat
  st_totalSize :: nat
  st_dailyUploads :: nat

definition getBlobStats :: "int \<Rightarrow> node_tables \<Rightarrow> BlobStats" where
  "getBlobStats now d = \<lparr>st_blobCount = length (nd_blobs d), st_totalSize = sum_list (map nr_size (nd_blobs d)),
     st_dailyUploads = length (filter (\<lambda>r. nr_uploaded r > now - 86400) (nd_blobs d))\<rparr>"

section \<open>Keys and references\<close>

definition blob_keys :: "node_tables \<Rightarrow> blob_hash set" where
  "blob_keys d = nr_sha256 ` set (nd_blobs d)"

definition node_tables_ok :: "node_tables \<Rightarrow> bool" where
  "node_tables_ok d \<longleftrightarrow>
     distinct (map nr_sha256 (nd_blobs d)) \<and> distinct (nd_owners d)
     \<and> distinct (map fst (nd_accessed d)) \<and> distinct (map fst (nd_derivatives d))
     \<and> distinct (map fst (nd_thumbnails d))
     \<and> fst ` set (nd_owners d) \<subseteq> blob_keys d \<and> fst ` set (nd_accessed d) \<subseteq> blob_keys d
     \<and> snd ` set (nd_derivatives d) \<subseteq> blob_keys d
     \<and> fst ` set (nd_thumbnails d) \<subseteq> blob_keys d \<and> snd ` set (nd_thumbnails d) \<subseteq> blob_keys d"

lemma hasBlob_keys: "hasBlob h d \<longleftrightarrow> h \<in> blob_keys d"
  using find_row_None_iff [of nr_sha256 h "nd_blobs d"] by (auto simp: hasBlob_def blob_keys_def)

lemma nr_sha256_record_row [simp]: "nr_sha256 (record_row b) = br_sha256 b"
  by (simp add: record_row_def)

lemma delete_row_set: "set (delete_row key k t) = {r \<in> set t. key r \<noteq> k}"
  by (auto simp: delete_row_def)

lemma insert_or_ignore_keys [simp]: "key ` set (insert_or_ignore key r t) = insert (key r) (key ` set t)"
  by (auto simp: insert_or_ignore_def)

lemma insert_or_replace_keys [simp]: "key ` set (insert_or_replace key r t) = insert (key r) (key ` set t)"
  by (auto simp: insert_or_replace_def delete_row_def)

lemma insert_or_ignore_distinct: "distinct (map key t) \<Longrightarrow> distinct (map key (insert_or_ignore key r t))"
  by (auto simp: insert_or_ignore_def)

lemma distinct_delete_keys: "distinct (map key t) \<Longrightarrow> distinct (map key (delete_row k x t))"
  by (simp add: delete_row_def distinct_map_filter)

lemma insert_or_replace_distinct: "distinct (map key t) \<Longrightarrow> distinct (map key (insert_or_replace key r t))"
  by (auto simp: insert_or_replace_def distinct_delete_keys delete_row_set)

lemma blob_keys_insert [simp]:
  "blob_keys (insertBlob b p d) = insert (br_sha256 b) (blob_keys d)"
  "blob_keys (insertBlobRecord b d) = insert (br_sha256 b) (blob_keys d)"
  by (simp_all add: blob_keys_def insertBlob_def insertBlobRecord_def)

lemma blob_keys_delete [simp]: "blob_keys (snd (deleteBlob_node h d)) = blob_keys d - {h}"
  by (auto simp: blob_keys_def deleteBlob_node_def delete_row_set)

lemma insertBlob_ok:
  assumes "node_tables_ok d"
  shows "node_tables_ok (insertBlob b p d)"
proof -
  have "distinct (insert_or_ignore id (br_sha256 b, p) (nd_owners d))"
    using assms insert_or_ignore_distinct [of id "nd_owners d" "(br_sha256 b, p)"] by (simp add: node_tables_ok_def)
  moreover have "fst ` set (insert_or_ignore id (br_sha256 b, p) (nd_owners d))
      \<subseteq> insert (br_sha256 b) (fst ` set (nd_owners d))"
    by (auto simp: insert_or_ignore_def intro: rev_image_eqI)
  ultimately show ?thesis
    using assms unfolding node_tables_ok_def blob_keys_insert
    by (auto simp: insertBlob_def insert_or_ignore_distinct insert_or_replace_distinct)
qed

lemma insertBlobRecord_ok: "node_tables_ok d \<Longrightarrow> node_tables_ok (insertBlobRecord b d)"
  unfolding node_tables_ok_def blob_keys_insert
  by (auto simp: insertBlobRecord_def insert_or_ignore_distinct insert_or_replace_distinct)

lemma deleteBlob_node_ok: "node_tables_ok d \<Longrightarrow> node_tables_ok (snd (deleteBlob_node h d))"
  unfolding node_tables_ok_def blob_keys_delete
  by (auto simp: deleteBlob_node_def distinct_delete_keys delete_row_set) (simp add: delete_row_def)

lemma removeOwner_ok: "node_tables_ok d \<Longrightarrow> node_tables_ok (snd (removeOwner h p d))"
  by (auto simp: node_tables_ok_def removeOwner_def blob_keys_def delete_row_set) (simp add: delete_row_def)

lemma touchBlob_ok:
  assumes "node_tables_ok d" and "touchBlob h t d = Some d'"
  shows "node_tables_ok d'"
proof -
  have "d' = d\<lparr>nd_accessed := insert_or_replace fst (h, t) (nd_accessed d)\<rparr>" "h \<in> blob_keys d"
    using assms(2) by (simp_all add: touchBlob_def hasBlob_keys split: if_splits)
  then show ?thesis using assms(1) by (simp add: node_tables_ok_def blob_keys_def insert_or_replace_distinct)
qed

end
