(* ===== verification/Node_Rules.thy ===== *)
theory Node_Rules
  imports Node_Db
begin

text \<open>
  The storage rules of a node, \<open>storage-client/blossom/src/prune/rules.ts\<close>: durations, MIME
  patterns and the upload gate. The lemma \<open>like_matches_rule\<close> relates the SQL pattern that
  pruning sends to the database with the predicate that the upload gate evaluates.
\<close>

section \<open>Durations\<close>

text \<open>
  The lookup \<open>DURATION_UNITS[unit]\<close> in an object literal. The two inherited properties with a
  lower-case name are no numbers, so the product with them is \<open>NaN\<close>.
\<close>

definition DURATION_UNITS :: "string \<Rightarrow> js_number option" where
  "DURATION_UNITS u =
     (if u \<in> set [''second'', ''seconds''] then Some (Num 1)
      else if u \<in> set [''minute'', ''minutes''] then Some (Num 60)
      else if u \<in> set [''hour'', ''hours''] then Some (Num 3600)
      else if u \<in> set [''day'', ''days''] then Some (Num 86400)
      else if u \<in> set [''week'', ''weeks''] then Some (Num 604800)
      else if u \<in> set [''month'', ''months''] then Some (Num 2592000)
      else if u \<in> set [''year'', ''years''] then Some (Num 31536000)
      else if u \<in> set [''constructor'', ''__proto__''] then Some NaN
      else None)"

text \<open>
  \<open>/^(\d+)\s*(\w+)$/\<close> on the trimmed text. The unit takes the last digit of a text of digits
  only, since \<open>\w\<close> matches digits.
\<close>

definition duration_match :: "string \<Rightarrow> (string \<times> string) option" where
  "duration_match t =
     (let ds = takeWhile is_digit t; after = dropWhile is_digit t; u = dropWhile is_space after
      in if ds = [] then None
         else if u \<noteq> [] \<and> list_all is_word_char u then Some (ds, u)
         else if after = [] \<and> 2 \<le> length ds then Some (butlast ds, [last ds])
         else None)"

fun times_count :: "nat \<Rightarrow> js_number \<Rightarrow> js_number" where
  "times_count n (Num r) = Num (of_nat n * r)"
| "times_count n _ = NaN"

text \<open>\<open>None\<close> is the exception.\<close>

definition parseDuration :: "string \<Rightarrow> js_number option" where
  "parseDuration s =
     (case duration_match (trim s) of
        None \<Rightarrow> None
      | Some (ds, u) \<Rightarrow>
          (case DURATION_UNITS (to_lower u) of
             None \<Rightarrow> None
           | Some k \<Rightarrow> Some (times_count (decimal_nat ds) k)))"

section \<open>MIME patterns\<close>

definition mimeMatchesRule :: "string option \<Rightarrow> string \<Rightarrow> bool" where
  "mimeMatchesRule mime ruleType \<longleftrightarrow>
     ruleType = ''*''
     \<or> (case mime of
          None \<Rightarrow> False
        | Some m \<Rightarrow> m \<noteq> [] \<and>
            (m = ruleType
             \<or> ends_with ruleType ''/*'' \<and> starts_with m (take (length ruleType - 2) ruleType @ ''/'')))"

definition mimeToSqlLike :: "string \<Rightarrow> string" where
  "mimeToSqlLike ruleType =
     (if ruleType = ''*'' then ''%''
      else if ends_with ruleType ''/*'' then take (length ruleType - 1) ruleType @ ''%''
      else ruleType)"

section \<open>The upload gate\<close>

record StorageRule =
  sr_type :: string
  sr_expiration :: string
  sr_pubkeys :: "pubkey list option"

datatype gate_rule = Rule StorageRule | ALLOW_ALL

fun scoped :: "pubkey list option \<Rightarrow> pubkey list" where
  "scoped None = []"
| "scoped (Some ps) = ps"

fun first_rule :: "string option \<Rightarrow> pubkey option \<Rightarrow> StorageRule list \<Rightarrow> bool \<Rightarrow> gate_rule option" where
  "first_rule mime pk [] requirePubkeyInRule = None"
| "first_rule mime pk (rule # rules) requirePubkeyInRule =
     (let ps = scoped (sr_pubkeys rule);
          skip = (if ps \<noteq> [] then (case pk of None \<Rightarrow> True | Some p \<Rightarrow> p = [] \<or> p \<notin> set ps)
                  else requirePubkeyInRule)
      in if \<not> skip \<and> mimeMatchesRule mime (sr_type rule) then Some (Rule rule)
         else first_rule mime pk rules requirePubkeyInRule)"

definition getFileRule :: "string option \<Rightarrow> pubkey option \<Rightarrow> StorageRule list \<Rightarrow> bool \<Rightarrow> gate_rule option" where
  "getFileRule mime pk rules requirePubkeyInRule =
     (if rules = [] then (if requirePubkeyInRule then None else Some ALLOW_ALL)
      else first_rule mime pk rules requirePubkeyInRule)"

section \<open>The pattern of the database and the predicate of the gate\<close>

text \<open>A text without wildcards and upper-case letters.\<close>

definition unwild :: "string \<Rightarrow> bool" where
  "unwild s \<longleftrightarrow> list_all (\<lambda>c. c \<noteq> CHR ''%'' \<and> c \<noteq> CHR ''_'' \<and> lower_char c = c) s"

lemma sql_like_any [simp]: "sql_like ''%'' s"
  by (induction s) simp_all

lemma sql_like_prefix:
  "unwild p \<Longrightarrow> unwild s \<Longrightarrow> sql_like (p @ q) s \<longleftrightarrow> (\<exists>t. s = p @ t \<and> sql_like q t)"
proof (induction p arbitrary: s)
  case (Cons c p)
  then show ?case by (cases s) (auto simp: unwild_def)
qed simp

lemma ends_with_iff: "ends_with s p \<longleftrightarrow> (\<exists>t. s = t @ p)"
  unfolding ends_with_def starts_with_iff by (metis rev_append rev_rev_ident)

lemma like_matches_rule:
  assumes "unwild r" and "unwild m" and "m \<noteq> []"
  shows "sql_like (mimeToSqlLike r) m \<longleftrightarrow> mimeMatchesRule (Some m) r"
proof (cases "r = ''*''")
  case False
  show ?thesis
  proof (cases "ends_with r ''/*''")
    case True
    then obtain t where r: "r = t @ ''/*''" by (auto simp: ends_with_iff)
    have "unwild (t @ ''/'')" using assms(1) by (simp add: r unwild_def)
    from sql_like_prefix [OF this assms(2), of "''%''"]
    have "sql_like ((t @ ''/'') @ ''%'') m \<longleftrightarrow> starts_with m (t @ ''/'')"
      by (simp add: starts_with_iff)
    moreover have "starts_with r (t @ ''/'')" by (simp add: r starts_with_iff)
    ultimately show ?thesis using True False assms(3)
      by (auto simp: mimeToSqlLike_def mimeMatchesRule_def r)
  next
    case ends: False
    have "sql_like r m \<longleftrightarrow> m = r" using sql_like_prefix [OF assms(1,2), of "[]"] by auto
    then show ?thesis using False ends assms(3) by (simp add: mimeToSqlLike_def mimeMatchesRule_def)
  qed
qed (simp add: mimeToSqlLike_def mimeMatchesRule_def)

lemma getFileRule_sound:
  assumes "getFileRule mime pk rules req = Some (Rule r)"
  shows "r \<in> set rules \<and> mimeMatchesRule mime (sr_type r)
    \<and> (scoped (sr_pubkeys r) \<noteq> [] \<or> req \<longrightarrow> (\<exists>p \<in> set (scoped (sr_pubkeys r)). pk = Some p))"
proof -
  have "first_rule mime pk rules req = Some (Rule r)"
    using assms by (auto simp: getFileRule_def split: if_splits)
  then show ?thesis
    by (induction rules) (auto simp: Let_def split: if_splits option.splits)
qed

end
