(* ===== verification/Node_Store.thy ===== *)
theory Node_Store
  imports Node_Rules
begin

text \<open>
  The state of a storage node and the calls its handlers make: statements on the metadata
  database, the local file store (\<open>storage/local.ts\<close>) and the upload worker
  (\<open>workers/upload-worker.ts\<close>). Handlers are functions from a state to an exception or a
  result and the next state. Every call to the database or the file system may fail: the
  argument \<open>ne_fails\<close> says which ones do, by the number of calls made so far, so a theorem
  for all \<open>ne_fails\<close> covers a failure at every point. Triples \<open>hoare P m Q X\<close> (before, after
  a result, after an exception) have one rule per combinator, in the collection
  \<open>hoare_rules\<close>.
\<close>

section \<open>State and calls\<close>

text \<open>
  The files of the blob directory and of its \<open>.tmp\<close> directory by name, and the number of
  calls made. Bytes are characters.
\<close>

record node =
  nd_db :: node_tables
  nd_files :: "string \<Rightarrow> string option"
  nd_tmp :: "string \<Rightarrow> string option"
  nd_calls :: nat

text \<open>
  What the node uses and does not define: the hash function, the table of file extensions,
  the reader of picture dimensions, failures, fresh names, free workers and the way a file
  is cut into chunks.
\<close>

record node_env =
  ne_sha256 :: "string \<Rightarrow> blob_hash"
  ne_extension :: "string \<Rightarrow> string option"
  ne_dimensions :: "string \<Rightarrow> string option \<Rightarrow> string option"
  ne_fails :: "nat \<Rightarrow> bool"
  ne_ulid :: "nat \<Rightarrow> string"
  ne_available :: "nat \<Rightarrow> nat"
  ne_chunks :: "string \<Rightarrow> string list"

datatype node_exn = HttpEx nat string | OtherEx

type_synonym 'a nd = "node \<Rightarrow> (node_exn + 'a) \<times> node"

definition return_nd :: "'a \<Rightarrow> 'a nd" where
  "return_nd x s = (Inr x, s)"

definition raise_nd :: "node_exn \<Rightarrow> 'a nd" where
  "raise_nd e s = (Inl e, s)"

definition bind_nd :: "'a nd \<Rightarrow> ('a \<Rightarrow> 'b nd) \<Rightarrow> 'b nd" where
  "bind_nd m f s = (case m s of (Inl e, s') \<Rightarrow> (Inl e, s') | (Inr x, s') \<Rightarrow> f x s')"

text \<open>The outcome of a call inside \<open>try\<close>.\<close>

definition attempt_nd :: "'a nd \<Rightarrow> (node_exn + 'a) nd" where
  "attempt_nd m s = (case m s of (r, s') \<Rightarrow> (Inr r, s'))"

text \<open>A call that may fail; a failing call changes nothing but the count.\<close>

definition call_nd :: "node_env \<Rightarrow> (node \<Rightarrow> 'a \<times> node) \<Rightarrow> 'a nd" where
  "call_nd E f s =
     (let s1 = s\<lparr>nd_calls := Suc (nd_calls s)\<rparr>
      in if ne_fails E (nd_calls s) then (Inl OtherEx, s1) else (case f s1 of (x, s2) \<Rightarrow> (Inr x, s2)))"

definition db_read :: "node_env \<Rightarrow> (node_tables \<Rightarrow> 'a) \<Rightarrow> 'a nd" where
  "db_read E q = call_nd E (\<lambda>s. (q (nd_db s), s))"

definition db_write :: "node_env \<Rightarrow> (node_tables \<Rightarrow> 'a \<times> node_tables) \<Rightarrow> 'a nd" where
  "db_write E q = call_nd E (\<lambda>s. case q (nd_db s) of (x, d) \<Rightarrow> (x, s\<lparr>nd_db := d\<rparr>))"

definition get_calls :: "nat nd" where
  "get_calls s = (Inr (nd_calls s), s)"

lemmas nd_simps = return_nd_def raise_nd_def bind_nd_def attempt_nd_def call_nd_def db_read_def
  db_write_def get_calls_def

section \<open>The file store\<close>

definition mimeToExt :: "node_env \<Rightarrow> string option \<Rightarrow> string" where
  "mimeToExt E mime =
     (case mime of
        None \<Rightarrow> []
      | Some m \<Rightarrow>
          if m = [] \<or> m = ''application/octet-stream'' then []
          else (case ne_extension E m of None \<Rightarrow> [] | Some e \<Rightarrow> e))"

definition blobPath :: "blob_hash \<Rightarrow> string \<Rightarrow> string" where
  "blobPath h ext = (if ext \<noteq> [] then h @ ''.'' @ ext else h)"

text \<open>\<open>has\<close>, \<open>read\<close> and \<open>remove\<close> turn every error into a result.\<close>

definition storage_has :: "node_env \<Rightarrow> blob_hash \<Rightarrow> string \<Rightarrow> bool nd" where
  "storage_has E h ext =
     bind_nd (attempt_nd (call_nd E (\<lambda>s. (nd_files s (blobPath h ext) \<noteq> None, s))))
       (\<lambda>r. return_nd (r = Inr True))"

definition storage_read :: "node_env \<Rightarrow> blob_hash \<Rightarrow> string \<Rightarrow> string option nd" where
  "storage_read E h ext =
     bind_nd (attempt_nd (call_nd E (\<lambda>s. (nd_files s (blobPath h ext), s))))
       (\<lambda>r. return_nd (case r of Inl _ \<Rightarrow> None | Inr c \<Rightarrow> c))"

definition storage_remove :: "node_env \<Rightarrow> blob_hash \<Rightarrow> string \<Rightarrow> bool nd" where
  "storage_remove E h ext =
     bind_nd (attempt_nd (call_nd E (\<lambda>s.
         (nd_files s (blobPath h ext) \<noteq> None, s\<lparr>nd_files := (nd_files s)(blobPath h ext := None)\<rparr>))))
       (\<lambda>r. return_nd (r = Inr True))"

definition storage_beginWrite :: "node_env \<Rightarrow> string nd" where
  "storage_beginWrite E =
     bind_nd get_calls (\<lambda>n. let path = ne_ulid E n in
       call_nd E (\<lambda>s. (path, s\<lparr>nd_tmp := (nd_tmp s)(path := Some [])\<rparr>)))"

definition storage_abortWrite :: "node_env \<Rightarrow> string \<Rightarrow> unit nd" where
  "storage_abortWrite E path =
     bind_nd (attempt_nd (call_nd E (\<lambda>s. ((), s\<lparr>nd_tmp := (nd_tmp s)(path := None)\<rparr>))))
       (\<lambda>_. return_nd ())"

text \<open>
  \<open>Deno.rename\<close>, which raises when the source is missing. The result of \<open>call_nd\<close> tells
  whether there was one.
\<close>

definition rename_tmp :: "node_env \<Rightarrow> string \<Rightarrow> string \<Rightarrow> unit nd" where
  "rename_tmp E path final =
     bind_nd (call_nd E (\<lambda>s.
         case nd_tmp s path of
           None \<Rightarrow> (False, s)
         | Some c \<Rightarrow> (True, s\<lparr>nd_files := (nd_files s)(final := Some c), nd_tmp := (nd_tmp s)(path := None)\<rparr>)))
       (\<lambda>moved. if moved then return_nd () else raise_nd OtherEx)"

definition storage_commitWrite :: "node_env \<Rightarrow> string \<Rightarrow> blob_hash \<Rightarrow> string \<Rightarrow> unit nd" where
  "storage_commitWrite E path h ext =
     bind_nd (storage_has E h ext) (\<lambda>there.
       if there then storage_abortWrite E path else rename_tmp E path (blobPath h ext))"

section \<open>The upload worker\<close>

datatype worker_error = HASH_MISMATCH string | UNKNOWN string

text \<open>
  One job: the body is written to the temporary file and hashed. A body is the bytes of the
  stream, or the error it ends with; a failed job removes the temporary file. The text of a
  write error is the system's and not modelled.
\<close>

definition handleJob :: "node_env \<Rightarrow> unit + string \<Rightarrow> string \<Rightarrow> string option \<Rightarrow> (worker_error + blob_hash \<times> nat) nd" where
  "handleJob E body path xSha256 =
     bind_nd (attempt_nd (call_nd E (\<lambda>s.
         case body of
           Inl _ \<Rightarrow> (None, s)
         | Inr bytes \<Rightarrow> (Some bytes, s\<lparr>nd_tmp := (nd_tmp s)(path := Some bytes)\<rparr>))))
       (\<lambda>r. case r of
          Inr (Some bytes) \<Rightarrow>
            (let hash = ne_sha256 E bytes in
             if xSha256 \<noteq> None \<and> xSha256 \<noteq> Some hash
             then bind_nd (storage_abortWrite E path) (\<lambda>_. return_nd (Inl (HASH_MISMATCH
                    (''Hash mismatch: declared '' @ the xSha256 @ '', computed '' @ hash))))
             else return_nd (Inr (hash, length bytes)))
        | _ \<Rightarrow> bind_nd (storage_abortWrite E path) (\<lambda>_. return_nd (Inl (UNKNOWN ''write failed''))))"

section \<open>Triples\<close>

definition hoare :: "(node \<Rightarrow> bool) \<Rightarrow> 'a nd \<Rightarrow> ('a \<Rightarrow> node \<Rightarrow> bool) \<Rightarrow> (node \<Rightarrow> bool) \<Rightarrow> bool" where
  "hoare P m Q X \<longleftrightarrow> (\<forall>s. P s \<longrightarrow> (case m s of (Inl e, s') \<Rightarrow> X s' | (Inr x, s') \<Rightarrow> Q x s'))"

named_theorems hoare_rules

lemma hoare_return [hoare_rules]: "(\<And>s. P s \<Longrightarrow> Q x s) \<Longrightarrow> hoare P (return_nd x) Q X"
  by (simp add: hoare_def return_nd_def)

lemma hoare_raise [hoare_rules]: "(\<And>s. P s \<Longrightarrow> X s) \<Longrightarrow> hoare P (raise_nd e) Q X"
  by (simp add: hoare_def raise_nd_def)

lemma hoare_bind:
  "hoare P m R X \<Longrightarrow> (\<And>x. hoare (R x) (f x) Q X) \<Longrightarrow> hoare P (bind_nd m f) Q X"
  by (fastforce simp: hoare_def bind_nd_def split: prod.splits sum.splits)

lemma hoare_attempt:
  assumes "hoare P m (\<lambda>x. Q (Inr x)) (\<lambda>s. \<forall>e. Q (Inl e) s)"
  shows "hoare P (attempt_nd m) Q X"
  unfolding hoare_def
proof (intro allI impI)
  fix s assume "P s"
  moreover obtain r s' where "m s = (r, s')" by fastforce
  ultimately show "case attempt_nd m s of (Inl e, s') \<Rightarrow> X s' | (Inr x, s') \<Rightarrow> Q x s'"
    using assms by (cases r) (auto simp: hoare_def attempt_nd_def)
qed

lemma hoare_if [hoare_rules]:
  "(b \<Longrightarrow> hoare P m Q X) \<Longrightarrow> (\<not> b \<Longrightarrow> hoare P n Q X) \<Longrightarrow> hoare P (if b then m else n) Q X"
  by simp

lemma hoare_option [hoare_rules]:
  "(v = None \<Longrightarrow> hoare P m Q X) \<Longrightarrow> (\<And>x. v = Some x \<Longrightarrow> hoare P (f x) Q X)
    \<Longrightarrow> hoare P (case v of None \<Rightarrow> m | Some x \<Rightarrow> f x) Q X"
  by (cases v) simp_all

lemma hoare_sum [hoare_rules]:
  "(\<And>x. v = Inl x \<Longrightarrow> hoare P (f x) Q X) \<Longrightarrow> (\<And>x. v = Inr x \<Longrightarrow> hoare P (g x) Q X)
    \<Longrightarrow> hoare P (case v of Inl x \<Rightarrow> f x | Inr x \<Rightarrow> g x) Q X"
  by (cases v) simp_all

lemma hoare_prod [hoare_rules]:
  "(\<And>x y. v = (x, y) \<Longrightarrow> hoare P (f x y) Q X) \<Longrightarrow> hoare P (case v of (x, y) \<Rightarrow> f x y) Q X"
  by (cases v) simp

lemma hoare_pre: "hoare P m Q X \<Longrightarrow> (\<And>s. P' s \<Longrightarrow> P s) \<Longrightarrow> hoare P' m Q X"
  by (simp add: hoare_def)

lemma hoare_post:
  assumes "hoare P m Q X" and "\<And>x s. Q x s \<Longrightarrow> Q' x s" and "\<And>s. X s \<Longrightarrow> X' s"
  shows "hoare P m Q' X'"
  using assms by (fastforce simp: hoare_def split: prod.splits sum.splits)

lemma hoare_call:
  assumes "\<And>s. P s \<Longrightarrow> X (s\<lparr>nd_calls := Suc (nd_calls s)\<rparr>)"
    and "\<And>s. P s \<Longrightarrow> \<not> ne_fails E (nd_calls s) \<Longrightarrow> (case f (s\<lparr>nd_calls := Suc (nd_calls s)\<rparr>) of (x, s') \<Rightarrow> Q x s')"
  shows "hoare P (call_nd E f) Q X"
  using assms by (fastforce simp: hoare_def call_nd_def Let_def split: prod.splits)

lemma hoareD: "hoare P m Q X \<Longrightarrow> P s \<Longrightarrow> m s = (Inr x, s') \<Longrightarrow> Q x s'"
  by (fastforce simp: hoare_def)

lemma hoareD_exn: "hoare P m Q X \<Longrightarrow> P s \<Longrightarrow> m s = (Inl e, s') \<Longrightarrow> X s'"
  by (fastforce simp: hoare_def)

end
