(* ===== verification/Node_Auth.thy ===== *)
theory Node_Auth
  imports Node_Store Nip98
begin

text \<open>
  Authorization of requests to a storage node, \<open>middleware/auth.ts\<close>, and the addresses of
  blobs, \<open>utils/url.ts\<close> and \<open>utils/nip94.ts\<close>. The decoder of the header, the signature
  check and the host part of a URL are arguments.
\<close>

section \<open>Tokens\<close>

text \<open>
  What the text after \<open>Nostr\<close> decodes to: nothing, a value whose properties cannot be read
  (the access raises a TypeError), a value of another kind, or an event of kind 24242.
\<close>

datatype auth_value = Undecodable | Unreadable | OtherKind | AuthEvent NostrEvent

record auth_prims =
  ap_decode :: "string \<Rightarrow> auth_value"
  ap_verifyEvent :: "NostrEvent \<Rightarrow> bool"
  ap_hostname :: "string \<Rightarrow> string option"

text \<open>\<open>ap_hostname\<close> is \<open>new URL(s).hostname\<close>, \<open>None\<close> when it raises.\<close>

definition extractHostname :: "auth_prims \<Rightarrow> string option \<Rightarrow> string option" where
  "extractHostname P v =
     (case v of
        None \<Rightarrow> None
      | Some s \<Rightarrow>
          (let trimmed = trim s; bare = Some (to_lower (hd (split_on CHR '':'' trimmed))) in
           if trimmed = [] then None
           else if contains_str trimmed ''://''
           then (case ap_hostname P trimmed of Some h \<Rightarrow> Some (to_lower h) | None \<Rightarrow> bare)
           else bare))"

text \<open>\<open>t[1]\<close> of a tag.\<close>

definition tag_value :: "string list \<Rightarrow> string option" where
  "tag_value t = (case t of _ # v # _ \<Rightarrow> Some v | _ \<Rightarrow> None)"

definition tags_named :: "string \<Rightarrow> string list list \<Rightarrow> string list list" where
  "tags_named n tags = filter (\<lambda>t. t \<noteq> [] \<and> hd t = n) tags"

definition server_ok :: "auth_prims \<Rightarrow> string option \<Rightarrow> string list list \<Rightarrow> bool" where
  "server_ok P serverDomain tags \<longleftrightarrow>
     (let servers = tags_named ''server'' tags in
      servers = []
      \<or> serverDomain \<noteq> None \<and> serverDomain \<noteq> Some []
        \<and> list_ex (\<lambda>t. extractHostname P (tag_value t) = serverDomain) servers)"

text \<open>
  A comparison with the \<open>NaN\<close> of an unreadable number is false. The message on a token from
  the future leaves out the number of seconds.
\<close>

definition token_expired :: "int \<Rightarrow> string \<Rightarrow> bool" where
  "token_expired now expiration = (case js_parseInt expiration of None \<Rightarrow> False | Some e \<Rightarrow> e < now)"

definition parseAuthEvent :: "auth_prims \<Rightarrow> int \<Rightarrow> string \<Rightarrow> string option \<Rightarrow> node_exn + NostrEvent" where
  "parseAuthEvent P now raw serverDomain =
     (case ap_decode P raw of
        Undecodable \<Rightarrow> Inl (HttpEx 400 ''Invalid Authorization header encoding'')
      | Unreadable \<Rightarrow> Inl OtherEx
      | OtherKind \<Rightarrow> Inl (HttpEx 400 ''Auth event must be kind 24242'')
      | AuthEvent auth \<Rightarrow>
          (let tags = ev_tags auth; expiration = find_tag ''expiration'' tags; tTag = find_tag ''t'' tags in
           if num_lt (Num (of_int (now + 60))) (ev_created_at auth)
           then Inl (HttpEx 400 ''Auth event created_at is in the future'')
           else if expiration = None \<or> expiration = Some [] then Inl (HttpEx 400 ''Auth event missing expiration tag'')
           else if token_expired now (the expiration) then Inl (HttpEx 401 ''Auth token expired'')
           else if tTag = None \<or> tTag = Some [] then Inl (HttpEx 400 ''Auth event missing t tag'')
           else if \<not> server_ok P serverDomain tags then Inl (HttpEx 401 ''Auth token not valid for this server'')
           else if \<not> ap_verifyEvent P auth then Inl (HttpEx 400 ''Auth event signature invalid'')
           else Inr auth))"

text \<open>The context variables \<open>auth\<close> and \<open>authType\<close>.\<close>

record auth_ctx =
  ax_auth :: NostrEvent
  ax_type :: "string option"

definition authMiddleware ::
  "auth_prims \<Rightarrow> string \<Rightarrow> int \<Rightarrow> string option \<Rightarrow> string option \<Rightarrow> node_exn + auth_ctx option" where
  "authMiddleware P publicDomain now authHeader host =
     (case authHeader of
        None \<Rightarrow> Inr None
      | Some h \<Rightarrow>
          if starts_with h ''Nostr '' then
            (let raw = trim (drop 6 h);
                 domain = (case extractHostname P (Some publicDomain) of
                     Some d \<Rightarrow> Some d
                   | None \<Rightarrow> map_option (\<lambda>v. to_lower (hd (split_on CHR '':'' v))) host)
             in case parseAuthEvent P now raw domain of
                  Inl (HttpEx st msg) \<Rightarrow> Inl (HttpEx st msg)
                | Inl OtherEx \<Rightarrow> Inl (HttpEx 500 ''Internal server error'')
                | Inr auth \<Rightarrow> Inr (Some \<lparr>ax_auth = auth, ax_type = find_tag ''t'' (ev_tags auth)\<rparr>))
          else Inr None)"

definition quoted_type :: "string option \<Rightarrow> string" where
  "quoted_type t = CHR 0x22 # (case t of None \<Rightarrow> ''undefined'' | Some v \<Rightarrow> v) @ [CHR 0x22]"

definition requireAuth :: "auth_ctx option \<Rightarrow> string \<Rightarrow> (nat \<times> string) + NostrEvent" where
  "requireAuth ctx verb =
     (case ctx of
        None \<Rightarrow> Inl (401, ''Authorization required'')
      | Some c \<Rightarrow>
          if ax_type c \<noteq> Some verb
          then Inl (403, ''Auth token type '' @ quoted_type (ax_type c) @ '' does not match required '' @ quoted_type (Some verb))
          else Inr (ax_auth c))"

definition requireXTag :: "NostrEvent \<Rightarrow> blob_hash \<Rightarrow> (nat \<times> string) option" where
  "requireXTag auth h =
     (let xs = tags_named ''x'' (ev_tags auth) in
      if xs \<noteq> [] \<and> \<not> list_ex (\<lambda>t. tag_value t = Some h) xs
      then Some (403, ''Auth token does not authorize operation on blob '' @ h) else None)"

section \<open>Addresses and metadata tags\<close>

record NodeRequest =
  nq_header :: "string \<Rightarrow> string option"
  nq_urlProtocol :: string
  nq_urlHost :: string
  nq_body :: "(unit + string) option"

text \<open>The first match of \<open>/proto\s*=\s*"?([A-Za-z]+)"?/\<close>.\<close>

definition is_letter :: "char \<Rightarrow> bool" where
  "is_letter c \<longleftrightarrow> is_alnum c \<and> \<not> is_digit c"

definition proto_at :: "string \<Rightarrow> string option" where
  "proto_at s =
     (if starts_with s ''proto'' then
        (case dropWhile is_space (drop 5 s) of
           c # t \<Rightarrow>
             if c = CHR ''='' then
               (let u = dropWhile is_space t;
                    v = (case u of q # w \<Rightarrow> if q = CHR 0x22 then w else u | [] \<Rightarrow> u);
                    name = takeWhile is_letter v
                in if name = [] then None else Some name)
             else None
         | [] \<Rightarrow> None)
      else None)"

fun find_proto :: "string \<Rightarrow> string option" where
  "find_proto [] = None"
| "find_proto (c # cs) = (case proto_at (c # cs) of Some p \<Rightarrow> Some p | None \<Rightarrow> find_proto cs)"

definition web_proto :: "string option \<Rightarrow> string option" where
  "web_proto p =
     (case map_option to_lower p of
        None \<Rightarrow> None
      | Some q \<Rightarrow> if q = ''https'' \<or> q = ''http'' then Some (q @ '':'') else None)"

definition getProtocol :: "NodeRequest \<Rightarrow> string" where
  "getProtocol req =
     (let xfp = (case nq_header req ''x-forwarded-proto'' of
            None \<Rightarrow> None
          | Some v \<Rightarrow> if v = [] then None else web_proto (Some (trim (hd (split_on CHR '','' v)))));
          fwd = (case nq_header req ''forwarded'' of
            None \<Rightarrow> None | Some v \<Rightarrow> if v = [] then None else web_proto (find_proto v))
      in case xfp of
           Some p \<Rightarrow> p
         | None \<Rightarrow> (case fwd of Some p \<Rightarrow> p | None \<Rightarrow> nq_urlProtocol req))"

definition strip_slash :: "string \<Rightarrow> string" where
  "strip_slash s = (if s \<noteq> [] \<and> last s = CHR ''/'' then butlast s else s)"

definition getBaseUrl :: "NodeRequest \<Rightarrow> string \<Rightarrow> string" where
  "getBaseUrl req publicDomain =
     getProtocol req @ ''//'' @ (if publicDomain \<noteq> [] then strip_slash publicDomain else nq_urlHost req)"

definition getBlobUrl :: "node_env \<Rightarrow> blob_hash \<Rightarrow> string option \<Rightarrow> string \<Rightarrow> string" where
  "getBlobUrl E h mimeType baseUrl =
     (let ext = mimeToExt E mimeType
      in baseUrl @ ''/'' @ h @ (if ext \<noteq> [] then ''.'' @ ext else []))"

record BlobDescriptor =
  bd_url :: string
  bd_sha256 :: blob_hash
  bd_size :: nat
  bd_type :: string
  bd_uploaded :: int
  bd_nip94 :: "Nip94Tag list"

definition nip94Tags :: "string \<Rightarrow> blob_hash \<Rightarrow> nat \<Rightarrow> string \<Rightarrow> Nip94Tag list option \<Rightarrow> Nip94Tag list" where
  "nip94Tags url h n type tags =
     [[''url'', url], [''m'', to_lower type], [''x'', h], [''size'', show_nat n]]
       @ (case tags of None \<Rightarrow> [] | Some ts \<Rightarrow> ts)"

text \<open>The call of an upload, which gives the dimensions only.\<close>

definition optionalNip94Tags :: "string option \<Rightarrow> Nip94Tag list option" where
  "optionalNip94Tags dims =
     (case dims of None \<Rightarrow> None | Some d \<Rightarrow> if d = [] then None else Some [[''dim'', d]])"

definition node_descriptor :: "node_env \<Rightarrow> string \<Rightarrow> BlobRecord \<Rightarrow> BlobDescriptor" where
  "node_descriptor E baseUrl b =
     (let url = getBlobUrl E (br_sha256 b) (br_type b) baseUrl;
          type = (case br_type b of None \<Rightarrow> ''application/octet-stream'' | Some t \<Rightarrow> t)
      in \<lparr>bd_url = url, bd_sha256 = br_sha256 b, bd_size = br_size b, bd_type = type, bd_uploaded = br_uploaded b,
          bd_nip94 = nip94Tags url (br_sha256 b) (br_size b) type (br_nip94 b)\<rparr>)"

section \<open>Lemmas\<close>

lemma requireAuth_Inr: "requireAuth ctx verb = Inr a \<longleftrightarrow> (\<exists>c. ctx = Some c \<and> ax_type c = Some verb \<and> ax_auth c = a)"
  by (auto simp: requireAuth_def split: option.splits)

lemma parseAuthEvent_sound:
  assumes "parseAuthEvent P now raw domain = Inr a"
  shows "ap_decode P raw = AuthEvent a \<and> ap_verifyEvent P a \<and> server_ok P domain (ev_tags a)
    \<and> (\<exists>x. find_tag ''expiration'' (ev_tags a) = Some x \<and> x \<noteq> [] \<and> \<not> token_expired now x)"
  using assms by (auto simp: parseAuthEvent_def Let_def split: auth_value.splits if_splits)

lemma authMiddleware_sound:
  assumes "authMiddleware P domain now hdr host = Inr (Some c)"
  shows "\<exists>raw d. ap_decode P raw = AuthEvent (ax_auth c) \<and> ap_verifyEvent P (ax_auth c)
    \<and> server_ok P d (ev_tags (ax_auth c)) \<and> ax_type c = find_tag ''t'' (ev_tags (ax_auth c))"
  using assms by (auto simp: authMiddleware_def Let_def split: option.splits if_splits sum.splits node_exn.splits
      dest!: parseAuthEvent_sound)

text \<open>An expiration that is no number never expires.\<close>

lemma unreadable_expiration_accepted: "js_parseInt x = None \<Longrightarrow> \<not> token_expired now x"
  by (simp add: token_expired_def)

end
