(* ===== verification/Node_Range.thy ===== *)
theory Node_Range
  imports JsBase
begin

text \<open>
  Byte ranges of a storage node: the \<open>Range\<close> header (\<open>parseRange\<close>) and the two readers of
  a range, the one that slices the full stream (\<open>readRange\<close> in \<open>routes/blobs.ts\<close>) and the one
  of the local store, which seeks and limits the stream (\<open>LocalStorage.readRange\<close> with
  \<open>byteLimitTransform\<close>). A stream is the list of its chunks; how the bytes are cut into
  chunks is not known to the readers.
\<close>

section \<open>The header\<close>

text \<open>\<open>/^bytes=(\d*)-(\d*)$/\<close>; an empty group is \<open>NaN\<close>, here \<open>None\<close>.\<close>

definition range_number :: "string \<Rightarrow> int option" where
  "range_number ds = (if ds = [] then None else Some (int (decimal_nat ds)))"

definition range_groups :: "string \<Rightarrow> (int option \<times> int option) option" where
  "range_groups h =
     (if starts_with h ''bytes='' then
        (let t = drop 6 h; a = takeWhile is_digit t; rest = dropWhile is_digit t
         in case rest of
              c # b \<Rightarrow> if c = CHR ''-'' \<and> list_all is_digit b then Some (range_number a, range_number b) else None
            | [] \<Rightarrow> None)
      else None)"

definition parseRange :: "string \<Rightarrow> nat \<Rightarrow> (nat \<times> nat) option" where
  "parseRange header totalSize =
     (case range_groups header of
        None \<Rightarrow> None
      | Some (s0, e0) \<Rightarrow>
          (let ends = (case (s0, e0) of
                 (None, None) \<Rightarrow> None
               | (None, Some e) \<Rightarrow> Some (int totalSize - e, int totalSize - 1)
               | (Some s, None) \<Rightarrow> Some (s, int totalSize - 1)
               | (Some s, Some e) \<Rightarrow> Some (s, e))
           in case ends of
                None \<Rightarrow> None
              | Some (start, end') \<Rightarrow>
                  if start < 0 \<or> end' \<ge> int totalSize \<or> start > end' then None
                  else Some (nat start, nat end')))"

section \<open>Readers\<close>

text \<open>
  The loop of \<open>readRange\<close> over the chunks of the full stream: \<open>skipped\<close> and \<open>count\<close> are
  \<open>bytesSkipped\<close> and \<open>bytesRead\<close>. The result lists the enqueued pieces.
\<close>

fun slice_loop :: "nat \<Rightarrow> nat \<Rightarrow> nat \<Rightarrow> nat \<Rightarrow> 'b list list \<Rightarrow> 'b list list" where
  "slice_loop start len skipped count [] = []"
| "slice_loop start len skipped count (chunk # rest) =
     (if skipped < start then
        (let remaining = start - skipped in
         if length chunk \<le> remaining
         then slice_loop start len (skipped + length chunk) count rest
         else (let slice = drop remaining chunk;
                   toRead = min (length slice) (len - count);
                   count' = count + toRead
               in take toRead slice # (if count' \<ge> len then [] else slice_loop start len start count' rest)))
      else (let toRead = min (length chunk) (len - count);
                count' = count + toRead
            in take toRead chunk # (if count' \<ge> len then [] else slice_loop start len skipped count' rest)))"

definition readRange_stream :: "nat \<Rightarrow> nat \<Rightarrow> 'b list list \<Rightarrow> 'b list list" where
  "readRange_stream start end' chunks = slice_loop start (end' - start + 1) 0 0 chunks"

fun byteLimitTransform :: "nat \<Rightarrow> 'b list list \<Rightarrow> 'b list list" where
  "byteLimitTransform remaining [] = []"
| "byteLimitTransform remaining (chunk # rest) =
     (if remaining = 0 then []
      else if length chunk \<le> remaining
      then chunk # (if remaining - length chunk = 0 then [] else byteLimitTransform (remaining - length chunk) rest)
      else [take remaining chunk])"

text \<open>The chunks are those the file yields from the position \<open>start\<close> on.\<close>

definition readRange_local :: "nat \<Rightarrow> nat \<Rightarrow> 'b list list \<Rightarrow> 'b list list" where
  "readRange_local start end' chunks_from = byteLimitTransform (end' - start + 1) chunks_from"

section \<open>Lemmas\<close>

lemma byteLimitTransform_take: "concat (byteLimitTransform n cs) = take n (concat cs)"
  by (induction n cs rule: byteLimitTransform.induct) simp_all

lemma slice_loop_read:
  "skipped = start \<Longrightarrow> count < len \<Longrightarrow>
   concat (slice_loop start len skipped count cs) = take (len - count) (concat cs)"
proof (induction start len skipped count cs rule: slice_loop.induct)
  case (2 start len skipped count chunk rest)
  then show ?case by (cases "length chunk < len - count") (simp_all add: Let_def min_def)
qed simp

lemma slice_loop_skip:
  "skipped < start \<Longrightarrow> 0 < len \<Longrightarrow>
   concat (slice_loop start len skipped 0 cs) = take len (drop (start - skipped) (concat cs))"
proof (induction cs arbitrary: skipped)
  case (Cons chunk rest)
  show ?case
  proof (cases "length chunk \<le> start - skipped")
    case True
    then have "skipped + length chunk < start \<or> skipped + length chunk = start" using Cons.prems by auto
    then show ?thesis using Cons True slice_loop_read [of start start 0 len rest] by auto
  next
    case False
    then show ?thesis using Cons.prems slice_loop_read [of start start "length chunk - (start - skipped)" len rest]
      by (cases "length chunk - (start - skipped) < len") (simp_all add: Let_def min_def)
  qed
qed simp

lemma slice_loop_concat: "0 < len \<Longrightarrow> concat (slice_loop start len 0 0 cs) = take len (drop start (concat cs))"
  using slice_loop_skip [of 0 start len cs] slice_loop_read [of 0 start 0 len cs] by (cases "start = 0") simp_all

lemma parseRange_bounds: "parseRange h n = Some (a, b) \<Longrightarrow> a \<le> b \<and> b < n"
  by (auto simp: parseRange_def Let_def split: option.splits prod.splits if_splits)

text \<open>
  C39. Both range readers of a storage node deliver exactly the requested bytes. For every
  \<open>Range\<close> header that is accepted for a blob, whatever chunks the stream of the blob is cut
  into, slicing the full stream and seeking with a byte limit both give the bytes from
  \<open>start\<close> to \<open>end\<close> of the blob, as many as the \<open>Content-Length\<close> header announces.
\<close>

theorem range_readers_exact:
  assumes "parseRange header (length blob) = Some (start, end')"
    and "concat chunks = blob" and "concat chunks_from = drop start blob"
  shows "concat (readRange_stream start end' chunks) = take (end' - start + 1) (drop start blob)
    \<and> concat (readRange_local start end' chunks_from) = take (end' - start + 1) (drop start blob)
    \<and> length (concat (readRange_stream start end' chunks)) = end' - start + 1"
proof -
  have "start \<le> end'" "end' < length blob" using parseRange_bounds [OF assms(1)] by simp_all
  moreover have "concat (readRange_stream start end' chunks) = take (end' - start + 1) (drop start blob)"
    using assms(2) slice_loop_concat [of "end' - start + 1" start chunks] by (simp add: readRange_stream_def)
  ultimately show ?thesis using assms(3) by (simp add: readRange_local_def byteLimitTransform_take)
qed

theorem range_readers_exact_witness:
  "concat (readRange_stream 2 4 [[10, 11], [12], [13, 14, 15 :: nat]]) = [12, 13, 14]
    \<and> concat (readRange_local 2 4 [[12, 13], [14, 15 :: nat]]) = [12, 13, 14]"
proof -
  have "parseRange ''bytes=2-4'' (length [10, 11, 12, 13, 14, 15 :: nat]) = Some (2, 4)" by code_simp
  from range_readers_exact [OF this, of "[[10, 11], [12], [13, 14, 15]]" "[[12, 13], [14, 15]]"]
  show ?thesis by simp
qed

end
