(* ===== verification/Node_Http.thy ===== *)
theory Node_Http
  imports Node_Auth Node_Range JsDate "HOL-Library.AList"
begin

text \<open>
  The handlers of a storage node: \<open>HEAD /upload\<close> and \<open>PUT /upload\<close> (\<open>routes/upload.ts\<close>),
  \<open>GET\<close> and \<open>HEAD /:sha256\<close> (\<open>routes/blobs.ts\<close>), \<open>DELETE /:sha256\<close> (\<open>routes/delete.ts\<close>) and
  \<open>GET /list/:pubkey\<close> (\<open>routes/list.ts\<close>), with the error handler of the router
  (\<open>routes/blossom-router.ts\<close>). A handler takes the context variables the middleware set and
  the request; its calls are those of \<open>Node_Store\<close>.
\<close>

section \<open>Configuration and responses\<close>

record node_config =
  nc_publicDomain :: string
  nc_rules :: "StorageRule list"
  nc_removeWhenNoOwners :: bool
  nc_uploadEnabled :: bool
  nc_uploadRequireAuth :: bool
  nc_maxSize :: int
  nc_requirePubkeyInRule :: bool
  nc_deleteRequireAuth :: bool
  nc_listEnabled :: bool
  nc_listRequireAuth :: bool
  nc_allowListOthers :: bool

datatype node_body = NbEmpty | NbReason string | NbBlob BlobDescriptor | NbBlobs "BlobDescriptor list" | NbBytes string

record node_response =
  rs_status :: nat
  rs_body :: node_body
  rs_headers :: "(string \<times> string) list"

definition errorResponse :: "nat \<Rightarrow> string \<Rightarrow> node_response" where
  "errorResponse st reason = \<lparr>rs_status = st, rs_body = NbReason reason,
     rs_headers = [(''X-Reason'', reason), (''Content-Type'', ''text/plain'')]\<rparr>"

definition plain_response :: "nat \<Rightarrow> node_body \<Rightarrow> node_response" where
  "plain_response st b = \<lparr>rs_status = st, rs_body = b, rs_headers = []\<rparr>"

text \<open>\<open>onError\<close> of the router.\<close>

fun onError :: "node_exn \<Rightarrow> node_response" where
  "onError (HttpEx st msg) = errorResponse st (if msg = [] then ''An error occurred'' else msg)"
| "onError OtherEx = errorResponse 500 ''Internal server error''"

definition run_node :: "node_response nd \<Rightarrow> node \<Rightarrow> node_response \<times> node" where
  "run_node m s = (case m s of (Inl e, s') \<Rightarrow> (onError e, s') | (Inr r, s') \<Rightarrow> (r, s'))"

section \<open>Upload\<close>

definition too_large :: "node_config \<Rightarrow> node_response" where
  "too_large C = errorResponse 413
     (''File too large. Maximum allowed size is '' @ show_int (nc_maxSize C) @ '' bytes'')"

definition no_rule :: "node_config \<Rightarrow> string \<Rightarrow> node_response" where
  "no_rule C mime =
     (if nc_requirePubkeyInRule C then errorResponse 401 ''Pubkey not authorized by any storage rule''
      else errorResponse 415 (''Server does not accept '' @ mime @ '' blobs''))"

definition head_upload :: "node_env \<Rightarrow> node_config \<Rightarrow> auth_ctx option \<Rightarrow> NodeRequest \<Rightarrow> node_response nd" where
  "head_upload E C ctx req =
     (if \<not> nc_uploadEnabled C then return_nd (errorResponse 403 ''Uploads are disabled on this server'')
      else case (if nc_uploadRequireAuth C then map_sum id Some (requireAuth ctx ''upload'') else Inr None) of
        Inl (st, msg) \<Rightarrow> return_nd (errorResponse st msg)
      | Inr _ \<Rightarrow>
     (let xSha256 = nq_header req ''x-sha-256'';
          xType = (case nq_header req ''x-content-type'' of None \<Rightarrow> ''application/octet-stream'' | Some t \<Rightarrow> t);
          xLen = nq_header req ''x-content-length''
      in if xLen = None \<or> xLen = Some [] then return_nd (errorResponse 411 ''Missing X-Content-Length header'')
         else case js_parseInt (the xLen) of
           None \<Rightarrow> return_nd (errorResponse 400 ''Invalid X-Content-Length header'')
         | Some len \<Rightarrow>
             if len < 0 then return_nd (errorResponse 400 ''Invalid X-Content-Length header'')
             else if len > nc_maxSize C then return_nd (too_large C)
             else if getFileRule (Some xType) (map_option (\<lambda>c. ev_pubkey (ax_auth c)) ctx) (nc_rules C)
                       (nc_requirePubkeyInRule C) = None
             then return_nd (no_rule C xType)
             else bind_nd get_calls (\<lambda>n.
               if ne_available E n = 0 then return_nd (errorResponse 503 ''Server busy, try again later'')
               else if xSha256 \<noteq> None \<and> xSha256 \<noteq> Some []
               then bind_nd (db_read E (hasBlob (the xSha256))) (\<lambda>known.
                 return_nd (if known
                   then \<lparr>rs_status = 200, rs_body = NbEmpty, rs_headers = [(''X-Reason'', ''Blob already exists (dedup)'')]\<rparr>
                   else plain_response 200 NbEmpty))
               else return_nd (plain_response 200 NbEmpty))))"

text \<open>Steps 1 to 5 of \<open>PUT /upload\<close>: what is checked before the database is read.\<close>

record upload_plan =
  up_auth :: "NostrEvent option"
  up_mime :: string
  up_xSha256 :: "string option"

definition given :: "string option \<Rightarrow> bool" where
  "given x \<longleftrightarrow> x \<noteq> None \<and> x \<noteq> Some []"

definition upload_checks :: "node_config \<Rightarrow> auth_ctx option \<Rightarrow> NodeRequest \<Rightarrow> node_response + upload_plan" where
  "upload_checks C ctx req =
     (if \<not> nc_uploadEnabled C then Inl (errorResponse 403 ''Uploads are disabled on this server'')
      else case (if nc_uploadRequireAuth C then map_sum id Some (requireAuth ctx ''upload'') else Inr None) of
        Inl (st, msg) \<Rightarrow> Inl (errorResponse st msg)
      | Inr auth \<Rightarrow>
     (let len = nq_header req ''content-length'' in
      if \<not> given len then Inl (errorResponse 411 ''Content-Length header required'')
      else case js_parseInt (the len) of
        None \<Rightarrow> Inl (errorResponse 400 ''Invalid Content-Length header'')
      | Some contentLength \<Rightarrow>
          if contentLength < 0 then Inl (errorResponse 400 ''Invalid Content-Length header'')
          else if contentLength > nc_maxSize C then Inl (too_large C)
          else
     (let contentType = (case nq_header req ''content-type'' of None \<Rightarrow> ''application/octet-stream'' | Some t \<Rightarrow> t);
          mimeType = trim (hd (split_on CHR '';'' contentType));
          xSha256 = map_option to_lower (nq_header req ''x-sha-256'')
      in if getFileRule (Some mimeType) (map_option ev_pubkey auth) (nc_rules C) (nc_requirePubkeyInRule C) = None
         then Inl (no_rule C mimeType)
         else if given xSha256 \<and> \<not> is_sha256_hex (the xSha256)
         then Inl (errorResponse 400 ''Invalid X-SHA-256 header format'')
         else case (if auth \<noteq> None \<and> given xSha256 then requireXTag (the auth) (the xSha256) else None) of
           Some (st, msg) \<Rightarrow> Inl (errorResponse st msg)
         | None \<Rightarrow> Inr \<lparr>up_auth = auth, up_mime = mimeType, up_xSha256 = xSha256\<rparr>)))"

text \<open>Step 6: a blob with the declared hash is there already.\<close>

definition dedup_upload :: "node_env \<Rightarrow> node_config \<Rightarrow> NodeRequest \<Rightarrow> upload_plan \<Rightarrow> node_response option nd" where
  "dedup_upload E C req p =
     (if \<not> given (up_xSha256 p) then return_nd None
      else let h = the (up_xSha256 p) in
        bind_nd (db_read E (hasBlob h)) (\<lambda>known.
          if \<not> known then return_nd None
          else bind_nd (db_read E (getBlob_node h)) (\<lambda>found.
            case found of
              None \<Rightarrow> return_nd None
            | Some existing \<Rightarrow>
                bind_nd
                  (case up_auth p of
                     None \<Rightarrow> return_nd ()
                   | Some a \<Rightarrow>
                       bind_nd (db_read E (isOwner h (ev_pubkey a))) (\<lambda>owner.
                         if owner then return_nd ()
                         else db_write E (\<lambda>d. ((), insertBlob existing (ev_pubkey a) d))))
                  (\<lambda>_. return_nd (Some (plain_response 200
                     (NbBlob (node_descriptor E (getBaseUrl req (nc_publicDomain C)) existing))))))))"

definition busy :: node_response where
  "busy = errorResponse 503 ''Server busy. All upload workers are occupied. Try again shortly.''"

text \<open>Steps 10 to 13: commit the file, write the metadata, answer.\<close>

definition commit_upload ::
  "node_env \<Rightarrow> node_config \<Rightarrow> int \<Rightarrow> NodeRequest \<Rightarrow> upload_plan \<Rightarrow> string \<Rightarrow> string \<Rightarrow> blob_hash \<Rightarrow> nat \<Rightarrow> node_response nd" where
  "commit_upload E C now req p path bytes h n =
     (let blobType = (if up_mime p \<noteq> ''application/octet-stream'' then Some (up_mime p) else None);
          record' = \<lparr>br_sha256 = h, br_size = n, br_type = blobType, br_uploaded = now,
                     br_nip94 = optionalNip94Tags (ne_dimensions E bytes blobType)\<rparr>
      in bind_nd (attempt_nd (storage_commitWrite E path h (mimeToExt E (Some (up_mime p))))) (\<lambda>r.
           case r of
             Inl e \<Rightarrow> bind_nd (storage_abortWrite E path) (\<lambda>_. raise_nd e)
           | Inr _ \<Rightarrow>
               bind_nd (db_write E (\<lambda>d. ((), insertBlob record'
                   (case up_auth p of None \<Rightarrow> ''anonymous'' | Some a \<Rightarrow> ev_pubkey a) d)))
                 (\<lambda>_. return_nd (plain_response 201
                   (NbBlob (node_descriptor E (getBaseUrl req (nc_publicDomain C)) record'))))))"

text \<open>Steps 7 to 9: a free worker, the temporary file, the job and the deferred check of the hash.\<close>

definition store_upload :: "node_env \<Rightarrow> node_config \<Rightarrow> int \<Rightarrow> NodeRequest \<Rightarrow> upload_plan \<Rightarrow> node_response nd" where
  "store_upload E C now req p =
     (case nq_body req of
        None \<Rightarrow> return_nd (errorResponse 400 ''Request body is empty'')
      | Some body \<Rightarrow>
     bind_nd get_calls (\<lambda>n0.
       if ne_available E n0 = 0 then return_nd busy
       else bind_nd (storage_beginWrite E) (\<lambda>path.
       bind_nd get_calls (\<lambda>n1.
         if ne_available E n1 = 0 then bind_nd (storage_abortWrite E path) (\<lambda>_. return_nd busy)
         else bind_nd (handleJob E body path (up_xSha256 p)) (\<lambda>job.
           case job of
             Inl err \<Rightarrow> bind_nd (storage_abortWrite E path) (\<lambda>_. return_nd
               (case err of HASH_MISMATCH msg \<Rightarrow> errorResponse 409 msg | UNKNOWN msg \<Rightarrow> errorResponse 400 msg))
           | Inr (h, n) \<Rightarrow>
               (case (if up_auth p \<noteq> None \<and> \<not> given (up_xSha256 p) then requireXTag (the (up_auth p)) h else None) of
                  Some (st, msg) \<Rightarrow> bind_nd (storage_abortWrite E path) (\<lambda>_. return_nd (errorResponse st msg))
                | None \<Rightarrow> commit_upload E C now req p path (case body of Inl _ \<Rightarrow> [] | Inr bytes \<Rightarrow> bytes) h n))))))"

definition put_upload :: "node_env \<Rightarrow> node_config \<Rightarrow> int \<Rightarrow> auth_ctx option \<Rightarrow> NodeRequest \<Rightarrow> node_response nd" where
  "put_upload E C now ctx req =
     (case upload_checks C ctx req of
        Inl r \<Rightarrow> return_nd r
      | Inr p \<Rightarrow>
          bind_nd (dedup_upload E C req p) (\<lambda>done'.
            case done' of Some r \<Rightarrow> return_nd r | None \<Rightarrow> store_upload E C now req p))"

section \<open>Download\<close>

text \<open>The first match of \<open>/([0-9a-f]{64})/\<close>.\<close>

fun find_hash :: "string \<Rightarrow> blob_hash option" where
  "find_hash [] = None"
| "find_hash (c # cs) =
     (if is_sha256_hex (take 64 (c # cs)) then Some (take 64 (c # cs)) else find_hash cs)"

text \<open>\<open>replace(/^"(.*)"$/, "$1")\<close>.\<close>

definition unquote_tag :: "string \<Rightarrow> string" where
  "unquote_tag t =
     (if 2 \<le> length t \<and> hd t = CHR 0x22 \<and> last t = CHR 0x22 then butlast (tl t) else t)"

definition none_match :: "blob_hash \<Rightarrow> string option \<Rightarrow> bool" where
  "none_match h v \<longleftrightarrow>
     given v \<and> (let tags = map (\<lambda>t. unquote_tag (trim t)) (split_on CHR '','' (the v))
                in h \<in> set tags \<or> ''*'' \<in> set tags)"

definition blob_headers :: "blob_hash \<Rightarrow> BlobRecord \<Rightarrow> (string \<times> string) list" where
  "blob_headers h b =
     [(''Content-Type'', case br_type b of None \<Rightarrow> ''application/octet-stream'' | Some t \<Rightarrow> t),
      (''Content-Length'', show_nat (br_size b)),
      (''Accept-Ranges'', ''bytes''),
      (''Cache-Control'', ''public, max-age=31536000, immutable''),
      (''ETag'', CHR 0x22 # h @ [CHR 0x22]),
      (''Last-Modified'', toUTCString (br_uploaded b * 1000))]"

definition content_range :: "nat \<Rightarrow> nat \<Rightarrow> nat \<Rightarrow> string" where
  "content_range a b n = ''bytes '' @ show_nat a @ ''-'' @ show_nat b @ ''/'' @ show_nat n"

text \<open>The part after the conditional headers: a range or the whole blob.\<close>

definition send_blob :: "node_env \<Rightarrow> blob_hash \<Rightarrow> BlobRecord \<Rightarrow> string \<Rightarrow> string option \<Rightarrow> node_response nd" where
  "send_blob E h b ext rng =
     (if given rng then
        (case parseRange (the rng) (br_size b) of
           None \<Rightarrow> return_nd \<lparr>rs_status = 416, rs_body = NbEmpty,
                    rs_headers = [(''Content-Range'', ''bytes */'' @ show_nat (br_size b))]\<rparr>
         | Some (start, end') \<Rightarrow>
             bind_nd (storage_read E h ext) (\<lambda>content.
               case content of
                 None \<Rightarrow> return_nd (errorResponse 404 ''Blob not found in storage'')
               | Some c \<Rightarrow> return_nd \<lparr>rs_status = 206,
                   rs_body = NbBytes (concat (readRange_local start end' (ne_chunks E (drop start c)))),
                   rs_headers = AList.update ''Content-Length'' (show_nat (end' - start + 1)) (blob_headers h b)
                     @ [(''Content-Range'', content_range start end' (br_size b))]\<rparr>))
      else bind_nd (storage_read E h ext) (\<lambda>content.
        case content of
          None \<Rightarrow> return_nd (errorResponse 404 ''Blob not found in storage'')
        | Some c \<Rightarrow> return_nd \<lparr>rs_status = 200, rs_body = NbBytes (concat (ne_chunks E c)), rs_headers = blob_headers h b\<rparr>))"

text \<open>
  The access time is written without waiting for the result; a failure is logged only. \<open>None\<close>
  leaves the request to the next handler.
\<close>

definition touch :: "node_env \<Rightarrow> blob_hash \<Rightarrow> int \<Rightarrow> unit nd" where
  "touch E h now =
     bind_nd (attempt_nd (db_write E (\<lambda>d. case touchBlob h now d of None \<Rightarrow> ((), d) | Some d' \<Rightarrow> ((), d'))))
       (\<lambda>_. return_nd ())"

definition get_blob :: "node_env \<Rightarrow> int \<Rightarrow> bool \<Rightarrow> string \<Rightarrow> NodeRequest \<Rightarrow> node_response option nd" where
  "get_blob E now is_head filename req =
     (case find_hash filename of
        None \<Rightarrow> return_nd None
      | Some h \<Rightarrow>
          bind_nd (db_read E (getBlob_node h)) (\<lambda>found.
            case found of
              None \<Rightarrow> return_nd (Some (errorResponse 404 ''Blob not found''))
            | Some b \<Rightarrow>
                (let ext = mimeToExt E (br_type b) in
                 bind_nd (storage_has E h ext) (\<lambda>there.
                   if \<not> there then return_nd (Some (errorResponse 404 ''Blob not found in storage''))
                   else bind_nd (touch E h now) (\<lambda>_.
                     if none_match h (nq_header req ''if-none-match'')
                     then return_nd (Some \<lparr>rs_status = 304, rs_body = NbEmpty,
                       rs_headers = filter (\<lambda>(k, _). k \<in> set [''ETag'', ''Cache-Control'', ''Last-Modified'']) (blob_headers h b)\<rparr>)
                     else if is_head
                     then return_nd (Some \<lparr>rs_status = 200, rs_body = NbEmpty, rs_headers = blob_headers h b\<rparr>)
                     else bind_nd (send_blob E h b ext (nq_header req ''range'')) (\<lambda>r. return_nd (Some r)))))))"

section \<open>Delete\<close>

text \<open>The thumbnails of a deleted blob; here a failing statement is logged and the file goes all the same.\<close>

fun drop_thumbnails :: "node_env \<Rightarrow> BlobRecord list \<Rightarrow> unit nd" where
  "drop_thumbnails E [] = return_nd ()"
| "drop_thumbnails E (t # ts) =
     bind_nd (attempt_nd (db_write E (deleteBlob_node (br_sha256 t)))) (\<lambda>_.
     bind_nd (storage_remove E (br_sha256 t) (mimeToExt E (br_type t))) (\<lambda>_.
     drop_thumbnails E ts))"

definition purge_blob :: "node_env \<Rightarrow> blob_hash \<Rightarrow> string \<Rightarrow> node_response nd" where
  "purge_blob E h ext =
     bind_nd (db_read E (getMediaThumbnailsForParent h)) (\<lambda>thumbs.
     bind_nd (db_write E (deleteBlob_node h)) (\<lambda>_.
     bind_nd (storage_remove E h ext) (\<lambda>_.
     bind_nd (drop_thumbnails E thumbs) (\<lambda>_.
     return_nd (plain_response 204 NbEmpty)))))"

definition delete_check :: "auth_ctx option \<Rightarrow> blob_hash \<Rightarrow> (nat \<times> string) + NostrEvent" where
  "delete_check ctx h =
     (case requireAuth ctx ''delete'' of
        Inl e \<Rightarrow> Inl e
      | Inr a \<Rightarrow> (case requireXTag a h of Some e \<Rightarrow> Inl e | None \<Rightarrow> Inr a))"

definition delete_blob :: "node_env \<Rightarrow> node_config \<Rightarrow> auth_ctx option \<Rightarrow> string \<Rightarrow> node_response nd" where
  "delete_blob E C ctx filename =
     (case find_hash filename of
        None \<Rightarrow> return_nd (errorResponse 400 ''Invalid sha256 hash'')
      | Some h \<Rightarrow>
          bind_nd (db_read E (getBlob_node h)) (\<lambda>found.
            case found of
              None \<Rightarrow> return_nd (errorResponse 404 ''Blob not found'')
            | Some b \<Rightarrow>
                (let ext = mimeToExt E (br_type b) in
                 if \<not> nc_deleteRequireAuth C then purge_blob E h ext
                 else case delete_check ctx h of
                   Inl (st, msg) \<Rightarrow> raise_nd (HttpEx st msg)
                 | Inr a \<Rightarrow>
                     bind_nd (db_read E (isOwner h (ev_pubkey a))) (\<lambda>owner.
                       if \<not> owner then return_nd (errorResponse 403 ''You are not an owner of this blob'')
                       else bind_nd (db_write E (removeOwner h (ev_pubkey a))) (\<lambda>_.
                            bind_nd (db_read E (countOwners h)) (\<lambda>remaining.
                              if remaining > 0 then return_nd (plain_response 204 NbEmpty)
                              else purge_blob E h ext))))))"

section \<open>List\<close>

definition list_descriptor :: "node_env \<Rightarrow> string \<Rightarrow> BlobRecord \<Rightarrow> BlobRecord option \<Rightarrow> BlobDescriptor" where
  "list_descriptor E baseUrl b thumb =
     node_descriptor E baseUrl (b\<lparr>br_nip94 := Some ((case br_nip94 b of None \<Rightarrow> [] | Some ts \<Rightarrow> ts)
       @ (case thumb of None \<Rightarrow> []
          | Some t \<Rightarrow> [[''thumb'', getBlobUrl E (br_sha256 t) (br_type t) baseUrl, br_sha256 t]]))\<rparr>)"

fun list_descriptors :: "node_env \<Rightarrow> string \<Rightarrow> BlobRecord list \<Rightarrow> BlobDescriptor list nd" where
  "list_descriptors E baseUrl [] = return_nd []"
| "list_descriptors E baseUrl (b # bs) =
     bind_nd (db_read E (getMediaThumbnail (br_sha256 b))) (\<lambda>t.
     bind_nd (list_descriptors E baseUrl bs) (\<lambda>ds. return_nd (list_descriptor E baseUrl b t # ds)))"

text \<open>A number of the query: absent, unreadable or a value.\<close>

definition query_int :: "string option \<Rightarrow> unit + int option" where
  "query_int v = (case v of None \<Rightarrow> Inr None
     | Some s \<Rightarrow> (case js_parseInt s of None \<Rightarrow> Inl () | Some n \<Rightarrow> Inr (Some n)))"

definition list_options :: "(string \<Rightarrow> string option) \<Rightarrow> string + ListOpts" where
  "list_options q =
     (case query_int (q ''limit'') of
        Inl _ \<Rightarrow> Inl ''Invalid limit: must be a positive integer''
      | Inr limit \<Rightarrow>
          if limit \<noteq> None \<and> the limit < 1 then Inl ''Invalid limit: must be a positive integer''
          else case query_int (q ''since'') of
            Inl _ \<Rightarrow> Inl ''Invalid since: must be a Unix timestamp''
          | Inr since \<Rightarrow>
              (case query_int (q ''until'') of
                 Inl _ \<Rightarrow> Inl ''Invalid until: must be a Unix timestamp''
               | Inr until \<Rightarrow>
                   if q ''cursor'' \<noteq> None \<and> \<not> is_sha256_hex (the (q ''cursor''))
                   then Inl ''Invalid cursor: must be a 64-character sha256 hex string''
                   else Inr \<lparr>lo_limit = map_option nat limit, lo_cursor = q ''cursor'', lo_since = since, lo_until = until\<rparr>))"

definition list_auth :: "node_config \<Rightarrow> auth_ctx option \<Rightarrow> (nat \<times> string) + NostrEvent option" where
  "list_auth C ctx =
     (if nc_listRequireAuth C then map_sum id Some (requireAuth ctx ''list'')
      else Inr (map_option ax_auth ctx))"

definition list_blobs ::
  "node_env \<Rightarrow> node_config \<Rightarrow> auth_ctx option \<Rightarrow> string \<Rightarrow> (string \<Rightarrow> string option) \<Rightarrow> NodeRequest \<Rightarrow> node_response nd" where
  "list_blobs E C ctx param q req =
     (if \<not> nc_listEnabled C then return_nd (errorResponse 404 ''List endpoint is disabled on this server'')
      else case list_auth C ctx of
        Inl (st, msg) \<Rightarrow> return_nd (errorResponse st msg)
      | Inr auth \<Rightarrow>
          (let pubkey = to_lower param in
           if \<not> is_sha256_hex pubkey
           then return_nd (errorResponse 400 ''Invalid pubkey: must be a 64-character lowercase hex string'')
           else if \<not> nc_allowListOthers C \<and> auth = None
           then return_nd (errorResponse 401 ''Authorization required to list blobs'')
           else if \<not> nc_allowListOthers C \<and> ev_pubkey (the auth) \<noteq> pubkey
           then return_nd (errorResponse 403 ''You may only list your own blobs'')
           else case list_options q of
             Inl msg \<Rightarrow> return_nd (errorResponse 400 msg)
           | Inr opts \<Rightarrow>
               bind_nd (db_read E (listBlobsByPubkey pubkey opts)) (\<lambda>bs.
               bind_nd (list_descriptors E (getBaseUrl req (nc_publicDomain C)) bs) (\<lambda>ds.
               return_nd (plain_response 200 (NbBlobs ds))))))"

end
