(* ===== verification/Node_Prune.thy ===== *)
theory Node_Prune
  imports Node_Http
begin

text \<open>
  Pruning of a storage node, \<open>prune/prune.ts\<close>: expiry by the first matching rule, then
  removal of blobs without owners. The property gives the rows a run removes as one filter
  over the table, with every statement allowed to fail.
\<close>

section \<open>One run\<close>

text \<open>The set \<open>checked\<close> and the two counters.\<close>

record prune_acc =
  pa_checked :: "blob_hash list"
  pa_deleted :: nat
  pa_errors :: nat

text \<open>The loop over the thumbnails of a removed blob; the flag is false after an exception.\<close>

fun prune_thumbs :: "node_env \<Rightarrow> BlobRecord list \<Rightarrow> nat \<Rightarrow> node \<Rightarrow> (bool \<times> nat) \<times> node" where
  "prune_thumbs E [] del s = ((True, del), s)"
| "prune_thumbs E (t # ts) del s =
     (case db_write E (deleteBlob_node (br_sha256 t)) s of
        (Inl _, s1) \<Rightarrow> ((False, del), s1)
      | (Inr _, s1) \<Rightarrow>
          prune_thumbs E ts (Suc del) (snd (storage_remove E (br_sha256 t) (mimeToExt E (br_type t)) s1)))"

text \<open>The body of \<open>try\<close> and its handler, the same in both phases.\<close>

definition prune_one :: "node_env \<Rightarrow> blob_hash \<Rightarrow> string option \<Rightarrow> prune_acc \<Rightarrow> node \<Rightarrow> prune_acc \<times> node" where
  "prune_one E h ty a s =
     (case bind_nd (db_read E (getMediaThumbnailsForParent h)) (\<lambda>thumbs.
           bind_nd (db_write E (deleteBlob_node h)) (\<lambda>_.
           bind_nd (storage_remove E h (mimeToExt E ty)) (\<lambda>_. return_nd thumbs))) s of
        (Inl _, s1) \<Rightarrow> (a\<lparr>pa_errors := Suc (pa_errors a)\<rparr>, s1)
      | (Inr thumbs, s1) \<Rightarrow>
          (case prune_thumbs E thumbs (pa_deleted a) s1 of
             ((True, del), s2) \<Rightarrow> (a\<lparr>pa_deleted := Suc del\<rparr>, s2)
           | ((False, del), s2) \<Rightarrow> (a\<lparr>pa_deleted := del, pa_errors := Suc (pa_errors a)\<rparr>, s2)))"

definition last_seen :: "BlobPruneRecord \<Rightarrow> int" where
  "last_seen b = (case bp_accessed b of None \<Rightarrow> br_uploaded b | Some t \<Rightarrow> t)"

fun cutoff :: "int \<Rightarrow> js_number \<Rightarrow> js_number" where
  "cutoff now (Num r) = Num (of_int now - r)"
| "cutoff now _ = NaN"

definition is_expired :: "js_number \<Rightarrow> BlobPruneRecord \<Rightarrow> bool" where
  "is_expired co b \<longleftrightarrow> num_lt (Num (of_int (last_seen b))) co"

fun prune_rows :: "node_env \<Rightarrow> js_number \<Rightarrow> BlobPruneRecord list \<Rightarrow> prune_acc \<Rightarrow> node \<Rightarrow> prune_acc \<times> node" where
  "prune_rows E co [] a s = (a, s)"
| "prune_rows E co (b # bs) a s =
     (if br_sha256 b \<in> set (pa_checked a) then prune_rows E co bs a s
      else (let a1 = a\<lparr>pa_checked := br_sha256 b # pa_checked a\<rparr> in
        if is_expired co b
        then (case prune_one E (br_sha256 b) (br_type b) a1 s of (a2, s2) \<Rightarrow> prune_rows E co bs a2 s2)
        else prune_rows E co bs a1 s))"

fun prune_rules :: "node_env \<Rightarrow> int \<Rightarrow> StorageRule list \<Rightarrow> prune_acc \<Rightarrow> node \<Rightarrow> prune_acc \<times> node" where
  "prune_rules E now [] a s = (a, s)"
| "prune_rules E now (r # rs) a s =
     (case parseDuration (sr_expiration r) of
        None \<Rightarrow> prune_rules E now rs a s
      | Some dur \<Rightarrow>
          (case db_read E (getBlobsForPrune (mimeToSqlLike (sr_type r)) (sr_pubkeys r)) s of
             (Inl _, s1) \<Rightarrow> prune_rules E now rs a s1
           | (Inr rows, s1) \<Rightarrow>
               (case prune_rows E (cutoff now dur) rows a s1 of (a2, s2) \<Rightarrow> prune_rules E now rs a2 s2)))"

fun prune_ownerless :: "node_env \<Rightarrow> (blob_hash \<times> string option) list \<Rightarrow> prune_acc \<Rightarrow> node \<Rightarrow> prune_acc \<times> node" where
  "prune_ownerless E [] a s = (a, s)"
| "prune_ownerless E ((h, ty) # bs) a s =
     (if h \<in> set (pa_checked a) then prune_ownerless E bs a s
      else (case prune_one E h ty (a\<lparr>pa_checked := h # pa_checked a\<rparr>) s of (a2, s2) \<Rightarrow> prune_ownerless E bs a2 s2))"

definition pruneStorage :: "node_env \<Rightarrow> int \<Rightarrow> StorageRule list \<Rightarrow> bool \<Rightarrow> node \<Rightarrow> prune_acc \<times> node" where
  "pruneStorage E now rules removeWhenNoOwners s =
     (case prune_rules E now rules \<lparr>pa_checked = [], pa_deleted = 0, pa_errors = 0\<rparr> s of
        (a, s1) \<Rightarrow>
          if removeWhenNoOwners
          then (case db_read E getOwnerlessBlobSha256s s1 of
                  (Inl _, s2) \<Rightarrow> (a, s2)
                | (Inr rows, s2) \<Rightarrow> prune_ownerless E rows a s2)
          else (a, s1))"

section \<open>Reference: which rows go\<close>

definition covers :: "node_tables \<Rightarrow> StorageRule \<Rightarrow> blob_row \<Rightarrow> bool" where
  "covers d rule r \<longleftrightarrow>
     parseDuration (sr_expiration rule) \<noteq> None \<and> type_like (mimeToSqlLike (sr_type rule)) (nr_type r)
     \<and> (scoped (sr_pubkeys rule) = [] \<or> (\<exists>p \<in> set (scoped (sr_pubkeys rule)). (nr_sha256 r, p) \<in> set (nd_owners d)))"

definition expired_by :: "int \<Rightarrow> node_tables \<Rightarrow> StorageRule \<Rightarrow> blob_row \<Rightarrow> bool" where
  "expired_by now d rule r \<longleftrightarrow>
     is_expired (cutoff now (the (parseDuration (sr_expiration rule)))) (prune_record d r)"

definition ownerless :: "node_tables \<Rightarrow> blob_row \<Rightarrow> bool" where
  "ownerless d r \<longleftrightarrow> nr_sha256 r \<notin> fst ` set (nd_owners d)"

text \<open>The first rule that covers a row decides; without one, only a blob without owners goes.\<close>

definition doomed :: "int \<Rightarrow> StorageRule list \<Rightarrow> bool \<Rightarrow> node_tables \<Rightarrow> blob_row \<Rightarrow> bool" where
  "doomed now rules removeWhenNoOwners d r \<longleftrightarrow>
     (case find (\<lambda>rule. covers d rule r) rules of
        Some rule \<Rightarrow> expired_by now d rule r
      | None \<Rightarrow> removeWhenNoOwners \<and> ownerless d r)"

text \<open>The tables without the blobs of a set.\<close>

definition without :: "blob_hash set \<Rightarrow> node_tables \<Rightarrow> node_tables" where
  "without D d = d\<lparr>
     nd_blobs := filter (\<lambda>r. nr_sha256 r \<notin> D) (nd_blobs d),
     nd_owners := filter (\<lambda>r. fst r \<notin> D) (nd_owners d),
     nd_accessed := filter (\<lambda>r. fst r \<notin> D) (nd_accessed d),
     nd_derivatives := filter (\<lambda>r. snd r \<notin> D) (nd_derivatives d),
     nd_thumbnails := filter (\<lambda>r. fst r \<notin> D \<and> snd r \<notin> D) (nd_thumbnails d)\<rparr>"

definition paths_of :: "node_env \<Rightarrow> node_tables \<Rightarrow> blob_hash set \<Rightarrow> string set" where
  "paths_of E d D = {blobPath (nr_sha256 r) (mimeToExt E (nr_type r)) | r. r \<in> set (nd_blobs d) \<and> nr_sha256 r \<in> D}"

section \<open>Lemmas on the tables\<close>

lemma without_empty [simp]: "without {} d = d"
  by (simp add: without_def)

lemma deleteBlob_without: "snd (deleteBlob_node h (without D d)) = without (insert h D) d"
  by (simp add: deleteBlob_node_def without_def delete_row_def conj_ac)

lemma find_row_kept: "\<not> k \<in> D \<Longrightarrow> find_row key k (filter (\<lambda>r. key r \<notin> D) t) = find_row key k t"
  by (induction t) auto

lemma no_thumbs [simp]:
  "nd_thumbnails d = [] \<Longrightarrow> nd_thumbnails (without D d) = []"
  "nd_thumbnails d = [] \<Longrightarrow> getMediaThumbnailsForParent h d = []"
  by (simp_all add: without_def getMediaThumbnailsForParent_def List.map_filter_def)

lemma prune_record_fields [simp]:
  "br_sha256 (prune_record d r) = nr_sha256 r" "br_type (prune_record d r) = nr_type r"
  by (simp_all add: prune_record_def BlobRecord.defs row_record_def)

lemma prune_record_without: "nr_sha256 r \<notin> D \<Longrightarrow> prune_record (without D d) r = prune_record d r"
  by (simp add: prune_record_def without_def find_row_kept)

lemma set_getBlobsForPrune:
  assumes "nd_thumbnails d = []"
  shows "set (getBlobsForPrune pat ps d) = prune_record d `
    {r \<in> set (nd_blobs d). type_like pat (nr_type r)
      \<and> (scoped ps = [] \<or> (\<exists>p \<in> set (scoped ps). (nr_sha256 r, p) \<in> set (nd_owners d)))}"
proof (cases "scoped ps")
  case Nil
  then show ?thesis using assms
    by (cases ps) (auto simp: getBlobsForPrune_def is_thumbnail_def)
next
  case (Cons p qs)
  then have "ps = Some (p # qs)" by (cases ps) simp_all
  then show ?thesis using assms by (force simp: getBlobsForPrune_def is_thumbnail_def)
qed

lemma set_ownerless:
  assumes "nd_thumbnails d = []"
  shows "set (getOwnerlessBlobSha256s d) = (\<lambda>r. (nr_sha256 r, nr_type r)) ` {r \<in> set (nd_blobs d). ownerless d r}"
  using assms by (auto simp: getOwnerlessBlobSha256s_def is_thumbnail_def ownerless_def)

section \<open>The loops\<close>

definition reliable :: "node_env \<Rightarrow> bool" where
  "reliable E \<longleftrightarrow> (\<forall>n. \<not> ne_fails E n)"

lemma reliable_call [simp]: "reliable E \<Longrightarrow> \<not> ne_fails E n"
  by (simp add: reliable_def)

text \<open>The state \<open>s\<close> is \<open>s0\<close> without the blobs \<open>D\<close>; a file may be left where a removal failed.\<close>

definition pruned :: "node_env \<Rightarrow> node \<Rightarrow> blob_hash set \<Rightarrow> node \<Rightarrow> bool" where
  "pruned E s0 D s \<longleftrightarrow>
     nd_db s = without D (nd_db s0)
     \<and> (\<forall>p. nd_files s p = nd_files s0 p \<or> p \<in> paths_of E (nd_db s0) D \<and> nd_files s p = None)
     \<and> (reliable E \<longrightarrow> (\<forall>p \<in> paths_of E (nd_db s0) D. nd_files s p = None))"

lemma paths_of_insert:
  "distinct (map nr_sha256 (nd_blobs d)) \<Longrightarrow> r \<in> set (nd_blobs d) \<Longrightarrow>
   paths_of E d (insert (nr_sha256 r) D) = insert (blobPath (nr_sha256 r) (mimeToExt E (nr_type r))) (paths_of E d D)"
  unfolding paths_of_def by (auto simp: distinct_map inj_on_def)

lemma pruned_calls [simp]: "pruned E s0 D (s\<lparr>nd_calls := n\<rparr>) = pruned E s0 D s"
  by (simp add: pruned_def)

lemma db_read_cases:
  obtains "ne_fails E (nd_calls s)" "db_read E q s = (Inl OtherEx, s\<lparr>nd_calls := Suc (nd_calls s)\<rparr>)"
  | "\<not> ne_fails E (nd_calls s)" "db_read E q s = (Inr (q (nd_db s)), s\<lparr>nd_calls := Suc (nd_calls s)\<rparr>)"
  by (cases "ne_fails E (nd_calls s)") (simp_all add: db_read_def call_nd_def Let_def)

lemma prune_one_pruned:
  assumes "pruned E s0 D s" and "nd_thumbnails (nd_db s0) = []" and "distinct (map nr_sha256 (nd_blobs (nd_db s0)))"
    and "r \<in> set (nd_blobs (nd_db s0))" and "prune_one E (nr_sha256 r) (nr_type r) a s = (a', s')"
  shows "\<exists>D'. pruned E s0 D' s' \<and> (D' = D \<or> D' = insert (nr_sha256 r) D) \<and> pa_checked a' = pa_checked a
    \<and> (reliable E \<longrightarrow> D' = insert (nr_sha256 r) D \<and> pa_deleted a' = Suc (pa_deleted a) \<and> pa_errors a' = pa_errors a)"
proof -
  let ?h = "nr_sha256 r" and ?p = "blobPath (nr_sha256 r) (mimeToExt E (nr_type r))"
  have thumbs: "getMediaThumbnailsForParent ?h (nd_db s) = []" using assms(1,2) by (simp add: pruned_def)
  have del: "snd (deleteBlob_node ?h (nd_db s)) = without (insert ?h D) (nd_db s0)"
    using assms(1) deleteBlob_without by (simp add: pruned_def)
  consider "ne_fails E (nd_calls s) \<or> ne_fails E (Suc (nd_calls s))"
    | "\<not> ne_fails E (nd_calls s)" "\<not> ne_fails E (Suc (nd_calls s))" by blast
  then show ?thesis
  proof cases
    case 1
    then have "pruned E s0 D s' \<and> pa_checked a' = pa_checked a" "\<not> reliable E"
      using assms(1,5) by (auto simp: prune_one_def nd_simps Let_def split: if_splits)
    then show ?thesis by blast
  next
    case 2
    then have st: "nd_db s' = without (insert ?h D) (nd_db s0)" "pa_checked a' = pa_checked a"
        "pa_deleted a' = Suc (pa_deleted a)" "pa_errors a' = pa_errors a"
        "nd_files s' = nd_files s \<and> \<not> reliable E \<or> nd_files s' = (nd_files s)(?p := None)"
      using assms(5) del by (auto simp: prune_one_def nd_simps Let_def storage_remove_def thumbs
          split: if_splits prod.splits)
    have "pruned E s0 (insert ?h D) s'"
      unfolding pruned_def paths_of_insert [OF assms(3,4)]
    proof (intro conjI allI)
      fix q
      have "nd_files s q = nd_files s0 q \<or> q \<in> paths_of E (nd_db s0) D \<and> nd_files s q = None"
        using assms(1) by (simp add: pruned_def)
      with st(5) show "nd_files s' q = nd_files s0 q
          \<or> q \<in> insert ?p (paths_of E (nd_db s0) D) \<and> nd_files s' q = None"
        by (cases "q = ?p") auto
    next
      show "reliable E \<longrightarrow> (\<forall>p \<in> insert ?p (paths_of E (nd_db s0) D). nd_files s' p = None)"
        using st(5) assms(1) by (auto simp: pruned_def)
    qed (rule st(1))
    with st show ?thesis by blast
  qed
qed

definition rows_where :: "node_tables \<Rightarrow> (blob_row \<Rightarrow> bool) \<Rightarrow> blob_hash set" where
  "rows_where d P = nr_sha256 ` {r \<in> set (nd_blobs d). P r}"

lemma rows_where_key:
  "distinct (map nr_sha256 (nd_blobs d)) \<Longrightarrow> r \<in> set (nd_blobs d) \<Longrightarrow> nr_sha256 r \<in> rows_where d P \<longleftrightarrow> P r"
  unfolding rows_where_def by (auto simp: distinct_map inj_on_def)

lemma prune_rows_pruned:
  assumes "nd_thumbnails (nd_db s0) = []" and "distinct (map nr_sha256 (nd_blobs (nd_db s0)))"
  shows "pruned E s0 D s \<Longrightarrow> set bs \<subseteq> prune_record (nd_db s0) ` set (nd_blobs (nd_db s0)) \<Longrightarrow>
    prune_rows E co bs a s = (a', s') \<Longrightarrow>
    \<exists>D'. pruned E s0 D' s' \<and> D \<subseteq> D'
      \<and> D' \<subseteq> D \<union> (br_sha256 ` set bs - set (pa_checked a)) \<inter> rows_where (nd_db s0) (\<lambda>r. is_expired co (prune_record (nd_db s0) r))
      \<and> set (pa_checked a') = set (pa_checked a) \<union> br_sha256 ` set bs
      \<and> (reliable E \<longrightarrow> D' = D \<union> (br_sha256 ` set bs - set (pa_checked a))
          \<inter> rows_where (nd_db s0) (\<lambda>r. is_expired co (prune_record (nd_db s0) r)))"
proof (induction bs arbitrary: a s D)
  case (Cons b bs)
  let ?X = "rows_where (nd_db s0) (\<lambda>r. is_expired co (prune_record (nd_db s0) r))"
  let ?a1 = "a\<lparr>pa_checked := br_sha256 b # pa_checked a\<rparr>"
  from Cons.prems(2) obtain r where r: "r \<in> set (nd_blobs (nd_db s0))" "b = prune_record (nd_db s0) r" by auto
  have key: "br_sha256 b \<in> ?X \<longleftrightarrow> is_expired co b" using rows_where_key [OF assms(2) r(1)] r(2) by simp
  have sub: "set bs \<subseteq> prune_record (nd_db s0) ` set (nd_blobs (nd_db s0))" using Cons.prems(2) by simp
  consider (seen) "br_sha256 b \<in> set (pa_checked a)" | (kept) "br_sha256 b \<notin> set (pa_checked a)" "\<not> is_expired co b"
    | (gone) "br_sha256 b \<notin> set (pa_checked a)" "is_expired co b" by blast
  then show ?case
  proof cases
    case seen
    then have "prune_rows E co bs a s = (a', s')" using Cons.prems(3) by simp
    from Cons.IH [OF Cons.prems(1) sub this] seen show ?thesis by (simp add: insert_absorb)
  next
    case kept
    then have "prune_rows E co bs ?a1 s = (a', s')" using Cons.prems(3) by simp
    from Cons.IH [OF Cons.prems(1) sub this] kept key show ?thesis
      by (elim exE conjE) (rule exI, intro conjI, assumption+, auto)
  next
    case gone
    obtain a2 s2 where one: "prune_one E (nr_sha256 r) (nr_type r) ?a1 s = (a2, s2)" by fastforce
    then have run: "prune_rows E co bs a2 s2 = (a', s')" using gone Cons.prems(3) r(2) by (simp add: Let_def)
    from prune_one_pruned [OF Cons.prems(1) assms r(1) one] obtain D1 where
      D1: "pruned E s0 D1 s2" "D1 = D \<or> D1 = insert (br_sha256 b) D" "pa_checked a2 = pa_checked ?a1"
        "reliable E \<longrightarrow> D1 = insert (br_sha256 b) D" using r(2) by auto
    from Cons.IH [OF D1(1) sub run] D1(2-4) gone key show ?thesis
      by (elim exE conjE) (rule exI, intro conjI, assumption+, auto)
  qed
qed auto

definition first_gone :: "int \<Rightarrow> StorageRule list \<Rightarrow> node_tables \<Rightarrow> blob_row \<Rightarrow> bool" where
  "first_gone now rules d r \<longleftrightarrow>
     (case find (\<lambda>rule. covers d rule r) rules of Some rule \<Rightarrow> expired_by now d rule r | None \<Rightarrow> False)"

definition any_gone :: "int \<Rightarrow> StorageRule list \<Rightarrow> node_tables \<Rightarrow> blob_row \<Rightarrow> bool" where
  "any_gone now rules d r \<longleftrightarrow> (\<exists>rule \<in> set rules. covers d rule r \<and> expired_by now d rule r)"

definition any_covers :: "StorageRule list \<Rightarrow> node_tables \<Rightarrow> blob_row \<Rightarrow> bool" where
  "any_covers rules d r \<longleftrightarrow> (\<exists>rule \<in> set rules. covers d rule r)"

lemma rows_where_cong: "(\<And>r. P r = Q r) \<Longrightarrow> rows_where d P = rows_where d Q"
  by (simp add: rows_where_def)

lemma rows_where_Or: "rows_where d (\<lambda>r. P r \<or> Q r) = rows_where d P \<union> rows_where d Q"
  by (auto simp: rows_where_def)

lemma rows_where_And:
  "distinct (map nr_sha256 (nd_blobs d)) \<Longrightarrow> rows_where d (\<lambda>r. P r \<and> Q r) = rows_where d P \<inter> rows_where d Q"
  unfolding rows_where_def by (auto simp: distinct_map inj_on_def)

lemma rows_where_Diff:
  "distinct (map nr_sha256 (nd_blobs d)) \<Longrightarrow> rows_where d (\<lambda>r. P r \<and> \<not> Q r) = rows_where d P - rows_where d Q"
  unfolding rows_where_def by (auto simp: distinct_map inj_on_def)

lemma first_gone_Cons:
  assumes "distinct (map nr_sha256 (nd_blobs d))"
  shows "rows_where d (first_gone now (rule # rules) d) =
    (rows_where d (covers d rule) \<inter> rows_where d (expired_by now d rule))
      \<union> (rows_where d (first_gone now rules d) - rows_where d (covers d rule))"
proof -
  have eq: "first_gone now (rule # rules) d =
      (\<lambda>r. (covers d rule r \<and> expired_by now d rule r) \<or> (first_gone now rules d r \<and> \<not> covers d rule r))"
    by (rule ext) (simp add: first_gone_def)
  show ?thesis unfolding eq rows_where_Or unfolding rows_where_Diff [OF assms] unfolding rows_where_And [OF assms] ..
qed

lemma any_gone_Cons:
  assumes "distinct (map nr_sha256 (nd_blobs d))"
  shows "rows_where d (any_gone now (rule # rules) d) =
    (rows_where d (covers d rule) \<inter> rows_where d (expired_by now d rule)) \<union> rows_where d (any_gone now rules d)"
  unfolding rows_where_And [OF assms, symmetric] rows_where_Or [symmetric]
  by (rule rows_where_cong) (auto simp: any_gone_def)

lemma any_covers_Cons:
  "rows_where d (any_covers (rule # rules) d) = rows_where d (covers d rule) \<union> rows_where d (any_covers rules d)"
  unfolding rows_where_Or [symmetric] by (rule rows_where_cong) (auto simp: any_covers_def)

lemma prune_query:
  assumes "nd_thumbnails d = []" and "parseDuration (sr_expiration rule) \<noteq> None"
  shows "set (getBlobsForPrune (mimeToSqlLike (sr_type rule)) (sr_pubkeys rule) (without D d))
    = prune_record d ` {r \<in> set (nd_blobs d). nr_sha256 r \<notin> D \<and> covers d rule r}"
proof -
  have "{r \<in> set (nd_blobs (without D d)). type_like (mimeToSqlLike (sr_type rule)) (nr_type r)
      \<and> (scoped (sr_pubkeys rule) = [] \<or> (\<exists>p \<in> set (scoped (sr_pubkeys rule)). (nr_sha256 r, p) \<in> set (nd_owners (without D d))))}
    = {r \<in> set (nd_blobs d). nr_sha256 r \<notin> D \<and> covers d rule r}"
    using assms(2) by (auto simp: without_def covers_def)
  then have "set (getBlobsForPrune (mimeToSqlLike (sr_type rule)) (sr_pubkeys rule) (without D d))
    = prune_record (without D d) ` {r \<in> set (nd_blobs d). nr_sha256 r \<notin> D \<and> covers d rule r}"
    using assms(1) by (simp add: set_getBlobsForPrune)
  also have "\<dots> = prune_record d ` {r \<in> set (nd_blobs d). nr_sha256 r \<notin> D \<and> covers d rule r}"
    by (rule image_cong) (simp_all add: prune_record_without)
  finally show ?thesis .
qed

lemma prune_rules_pruned:
  assumes "nd_thumbnails (nd_db s0) = []" and "distinct (map nr_sha256 (nd_blobs (nd_db s0)))"
  shows "pruned E s0 D s \<Longrightarrow> D \<subseteq> set (pa_checked a) \<Longrightarrow> prune_rules E now rules a s = (a', s') \<Longrightarrow>
    \<exists>D'. pruned E s0 D' s' \<and> D' \<subseteq> set (pa_checked a')
      \<and> D' \<subseteq> D \<union> rows_where (nd_db s0) (any_gone now rules (nd_db s0))
      \<and> (reliable E \<longrightarrow> D' = D \<union> (rows_where (nd_db s0) (first_gone now rules (nd_db s0)) - set (pa_checked a))
          \<and> set (pa_checked a') = set (pa_checked a) \<union> rows_where (nd_db s0) (any_covers rules (nd_db s0)))"
proof (induction rules arbitrary: a s D)
  case Nil
  then show ?case by (auto simp: rows_where_def any_gone_def first_gone_def any_covers_def)
next
  case (Cons rule rules)
  let ?d = "nd_db s0"
  let ?Cov = "rows_where ?d (covers ?d rule)" and ?X = "rows_where ?d (expired_by now ?d rule)"
  let ?s1 = "s\<lparr>nd_calls := Suc (nd_calls s)\<rparr>"
  note split = first_gone_Cons [OF assms(2)] any_gone_Cons [OF assms(2)] any_covers_Cons
  show ?case
  proof (cases "parseDuration (sr_expiration rule)")
    case None
    then have "?Cov = {}" by (simp add: rows_where_def covers_def)
    moreover have "prune_rules E now rules a s = (a', s')" using Cons.prems(3) None by simp
    ultimately show ?thesis using Cons.IH [OF Cons.prems(1,2)] unfolding split by simp
  next
    case (Some dur)
    let ?q = "getBlobsForPrune (mimeToSqlLike (sr_type rule)) (sr_pubkeys rule)"
    show ?thesis
    proof (cases rule: db_read_cases [of E s ?q])
      case 1
      then have "prune_rules E now rules a ?s1 = (a', s')" "\<not> reliable E" using Cons.prems(3) Some by auto
      with Cons.IH [of D ?s1 a] Cons.prems(1,2) show ?thesis unfolding split by auto
    next
      case 2
      let ?rows = "?q (nd_db s)"
      obtain a2 s2 where rows: "prune_rows E (cutoff now dur) ?rows a ?s1 = (a2, s2)" by fastforce
      have rest: "prune_rules E now rules a2 s2 = (a', s')" using Cons.prems(3) Some 2 rows by simp
      have set_rows: "set ?rows = prune_record ?d ` {r \<in> set (nd_blobs ?d). nr_sha256 r \<notin> D \<and> covers ?d rule r}"
        using prune_query [OF assms(1), of rule D] Some Cons.prems(1) by (simp add: pruned_def)
      then have keys: "br_sha256 ` set ?rows = ?Cov - D" by (auto simp: rows_where_def image_iff)
      have "?X = rows_where ?d (\<lambda>r. is_expired (cutoff now dur) (prune_record ?d r))"
        using Some by (simp add: rows_where_def expired_by_def)
      with prune_rows_pruned [OF assms _ _ rows, of D] Cons.prems(1) set_rows obtain D1 where
        D1: "pruned E s0 D1 s2" "D1 \<subseteq> D \<union> (?Cov - D - set (pa_checked a)) \<inter> ?X"
          "set (pa_checked a2) = set (pa_checked a) \<union> (?Cov - D)"
          "reliable E \<longrightarrow> D1 = D \<union> (?Cov - D - set (pa_checked a)) \<inter> ?X"
        unfolding keys by auto
      have "D1 \<subseteq> set (pa_checked a2)" using D1(2,3) Cons.prems(2) by blast
      from Cons.IH [OF D1(1) this rest] obtain D' where
        D': "pruned E s0 D' s'" "D' \<subseteq> set (pa_checked a')" "D' \<subseteq> D1 \<union> rows_where ?d (any_gone now rules ?d)"
          "reliable E \<longrightarrow> D' = D1 \<union> (rows_where ?d (first_gone now rules ?d) - set (pa_checked a2))
            \<and> set (pa_checked a') = set (pa_checked a2) \<union> rows_where ?d (any_covers rules ?d)" by blast
      have "D' \<subseteq> D \<union> (?Cov \<inter> ?X \<union> rows_where ?d (any_gone now rules ?d))" using D'(3) D1(2) by blast
      moreover have "reliable E \<longrightarrow> D' = D \<union> (?Cov \<inter> ?X \<union> (rows_where ?d (first_gone now rules ?d) - ?Cov) - set (pa_checked a))
          \<and> set (pa_checked a') = set (pa_checked a) \<union> (?Cov \<union> rows_where ?d (any_covers rules ?d))"
        using D'(4) D1(3,4) Cons.prems(2) by auto
      ultimately show ?thesis unfolding split using D'(1,2) by blast
    qed
  qed
qed

lemma prune_ownerless_pruned:
  assumes "nd_thumbnails (nd_db s0) = []" and "distinct (map nr_sha256 (nd_blobs (nd_db s0)))"
  shows "pruned E s0 D s \<Longrightarrow> set bs \<subseteq> (\<lambda>r. (nr_sha256 r, nr_type r)) ` set (nd_blobs (nd_db s0)) \<Longrightarrow>
    prune_ownerless E bs a s = (a', s') \<Longrightarrow>
    \<exists>D'. pruned E s0 D' s' \<and> D' \<subseteq> D \<union> (fst ` set bs - set (pa_checked a))
      \<and> (reliable E \<longrightarrow> D' = D \<union> (fst ` set bs - set (pa_checked a)))"
proof (induction bs arbitrary: a s D)
  case (Cons b bs)
  from Cons.prems(2) obtain r where r: "r \<in> set (nd_blobs (nd_db s0))" "b = (nr_sha256 r, nr_type r)" by auto
  have sub: "set bs \<subseteq> (\<lambda>r. (nr_sha256 r, nr_type r)) ` set (nd_blobs (nd_db s0))" using Cons.prems(2) by simp
  show ?case
  proof (cases "nr_sha256 r \<in> set (pa_checked a)")
    case True
    then have "prune_ownerless E bs a s = (a', s')" using Cons.prems(3) r(2) by simp
    from Cons.IH [OF Cons.prems(1) sub this] True r(2) show ?thesis by (simp add: insert_Diff_if)
  next
    case False
    obtain a2 s2 where one: "prune_one E (nr_sha256 r) (nr_type r) (a\<lparr>pa_checked := nr_sha256 r # pa_checked a\<rparr>) s = (a2, s2)"
      by fastforce
    then have run: "prune_ownerless E bs a2 s2 = (a', s')" using False Cons.prems(3) r(2) by simp
    from prune_one_pruned [OF Cons.prems(1) assms r(1) one] obtain D1 where
      D1: "pruned E s0 D1 s2" "D1 = D \<or> D1 = insert (nr_sha256 r) D" "set (pa_checked a2) = insert (nr_sha256 r) (set (pa_checked a))"
        "reliable E \<longrightarrow> D1 = insert (nr_sha256 r) D" by auto
    from Cons.IH [OF D1(1) sub run] obtain D' where
      "pruned E s0 D' s'" "D' \<subseteq> D1 \<union> (fst ` set bs - set (pa_checked a2))"
      "reliable E \<longrightarrow> D' = D1 \<union> (fst ` set bs - set (pa_checked a2))" by blast
    with D1(2-4) False r(2) show ?thesis by (intro exI [of _ D']) auto
  qed
qed auto

lemma any_covers_find: "any_covers rules d r \<longleftrightarrow> find (\<lambda>rule. covers d rule r) rules \<noteq> None"
  by (auto simp: any_covers_def find_None_iff)

lemma doomed_rows:
  assumes "distinct (map nr_sha256 (nd_blobs d))"
  shows "rows_where d (doomed now rules rm d) = rows_where d (first_gone now rules d)
    \<union> (if rm then rows_where d (ownerless d) - rows_where d (any_covers rules d) else {})"
proof -
  have "doomed now rules rm d = (\<lambda>r. first_gone now rules d r \<or> ((rm \<and> ownerless d r) \<and> \<not> any_covers rules d r))"
    by (rule ext) (auto simp: doomed_def first_gone_def any_covers_find split: option.split)
  then have "rows_where d (doomed now rules rm d) = rows_where d (first_gone now rules d)
      \<union> (rows_where d (\<lambda>r. rm \<and> ownerless d r) - rows_where d (any_covers rules d))"
    unfolding rows_where_Diff [OF assms, symmetric] rows_where_Or [symmetric] by simp
  then show ?thesis by (simp add: rows_where_def)
qed

lemma pruneStorage_pruned:
  assumes ok: "nd_thumbnails (nd_db s) = []" "distinct (map nr_sha256 (nd_blobs (nd_db s)))"
    and run: "pruneStorage E now rules rm s = (a', s')"
  shows "\<exists>D. pruned E s D s'
    \<and> D \<subseteq> rows_where (nd_db s) (any_gone now rules (nd_db s)) \<union> (if rm then rows_where (nd_db s) (ownerless (nd_db s)) else {})
    \<and> (reliable E \<longrightarrow> D = rows_where (nd_db s) (doomed now rules rm (nd_db s)))"
proof -
  let ?d = "nd_db s" and ?a0 = "\<lparr>pa_checked = [], pa_deleted = 0, pa_errors = 0\<rparr>"
  obtain a1 s1 where rules: "prune_rules E now rules ?a0 s = (a1, s1)" by fastforce
  have "pruned E s {} s" by (simp add: pruned_def paths_of_def)
  from prune_rules_pruned [OF ok this _ rules] obtain D1 where
    D1: "pruned E s D1 s1" "D1 \<subseteq> rows_where ?d (any_gone now rules ?d)" "D1 \<subseteq> set (pa_checked a1)"
      "reliable E \<longrightarrow> D1 = rows_where ?d (first_gone now rules ?d) \<and> set (pa_checked a1) = rows_where ?d (any_covers rules ?d)"
    by auto
  show ?thesis
  proof (cases "rm \<and> \<not> ne_fails E (nd_calls s1)")
    case False
    then have "pruned E s D1 s'" "rm \<longrightarrow> \<not> reliable E"
      using run rules D1(1) by (auto simp: pruneStorage_def db_read_def call_nd_def Let_def split: if_splits)
    with D1 show ?thesis unfolding doomed_rows [OF ok(2)] by (intro exI [of _ D1]) auto
  next
    case True
    let ?bs = "getOwnerlessBlobSha256s (nd_db s1)" and ?s2 = "s1\<lparr>nd_calls := Suc (nd_calls s1)\<rparr>"
    have own: "prune_ownerless E ?bs a1 ?s2 = (a', s')"
      using True run rules by (simp add: pruneStorage_def db_read_def call_nd_def Let_def)
    have "{r \<in> set (nd_blobs (nd_db s1)). ownerless (nd_db s1) r} = {r \<in> set (nd_blobs ?d). nr_sha256 r \<notin> D1 \<and> ownerless ?d r}"
      using D1(1) by (auto simp: pruned_def without_def ownerless_def)
    moreover have "nd_thumbnails (nd_db s1) = []" using D1(1) ok(1) by (simp add: pruned_def)
    ultimately have bs: "set ?bs = (\<lambda>r. (nr_sha256 r, nr_type r)) ` {r \<in> set (nd_blobs ?d). nr_sha256 r \<notin> D1 \<and> ownerless ?d r}"
      by (simp add: set_ownerless)
    then have keys: "fst ` set ?bs = rows_where ?d (ownerless ?d) - D1" by (auto simp: rows_where_def image_iff)
    have "set ?bs \<subseteq> (\<lambda>r. (nr_sha256 r, nr_type r)) ` set (nd_blobs ?d)" using bs by auto
    from prune_ownerless_pruned [OF ok _ this own, of D1] D1(1) obtain D where
      "pruned E s D s'" "D \<subseteq> D1 \<union> (rows_where ?d (ownerless ?d) - D1 - set (pa_checked a1))"
      "reliable E \<longrightarrow> D = D1 \<union> (rows_where ?d (ownerless ?d) - D1 - set (pa_checked a1))"
      unfolding keys by auto
    with D1 True show ?thesis unfolding doomed_rows [OF ok(2)] by (intro exI [of _ D]) auto
  qed
qed

section \<open>Property\<close>


definition prune_env :: node_env where
  "prune_env = \<lparr>ne_sha256 = id, ne_extension = (\<lambda>m. if m = ''image/png'' then Some ''png'' else None),
     ne_dimensions = (\<lambda>_ _. None), ne_fails = (\<lambda>_. False), ne_ulid = show_nat, ne_available = (\<lambda>_. 1),
     ne_chunks = (\<lambda>c. [c])\<rparr>"

definition prune_tables :: node_tables where
  "prune_tables = \<lparr>nd_blobs =
       [\<lparr>nr_sha256 = ''a'', nr_size = 1, nr_type = Some ''image/png'', nr_uploaded = 0, nr_nip94 = None\<rparr>,
        \<lparr>nr_sha256 = ''b'', nr_size = 1, nr_type = None, nr_uploaded = 0, nr_nip94 = None\<rparr>,
        \<lparr>nr_sha256 = ''c'', nr_size = 1, nr_type = Some ''text/x'', nr_uploaded = 0, nr_nip94 = None\<rparr>],
     nd_owners = [(''a'', ''p''), (''b'', ''p'')], nd_accessed = [], nd_derivatives = [], nd_thumbnails = []\<rparr>"

definition prune_sample :: node where
  "prune_sample = \<lparr>nd_db = prune_tables, nd_files = (\<lambda>_. None)(''a.png'' := Some ''x'', ''b'' := Some ''y'', ''c'' := Some ''z''),
     nd_tmp = (\<lambda>_. None), nd_calls = 0\<rparr>"

definition prune_sample_rules :: "StorageRule list" where
  "prune_sample_rules = [\<lparr>sr_type = ''image/*'', sr_expiration = ''2 seconds'', sr_pubkeys = None\<rparr>]"

lemma prune_sample_doomed:
  "filter (\<lambda>r. \<not> doomed 9 prune_sample_rules True prune_tables r) (nd_blobs prune_tables) = [nd_blobs prune_tables ! 1]"
  by code_simp


end
