(* ===== verification/Node_Props.thy ===== *)
theory Node_Props
  imports Node_Prune
begin

text \<open>
  Integrity of a storage node: what the rows of the metadata database say about the files,
  kept by every handler and by pruning, with failing calls at any point, and what a
  download delivers.
\<close>

section \<open>The invariant\<close>

definition row_path :: "node_env \<Rightarrow> blob_row \<Rightarrow> string" where
  "row_path E r = blobPath (nr_sha256 r) (mimeToExt E (nr_type r))"

text \<open>
  \<open>B\<close> is the set of contents the node is given. Every row has its file, with the hash and
  the size of the row, and every file has the hash in its name. Either nothing fails or
  there are no thumbnails, which only the media route makes.
\<close>

definition node_ok :: "node_env \<Rightarrow> string set \<Rightarrow> node \<Rightarrow> bool" where
  "node_ok E B s \<longleftrightarrow>
     node_tables_ok (nd_db s)
     \<and> (\<forall>r \<in> set (nd_blobs (nd_db s)). \<exists>c \<in> B. nd_files s (row_path E r) = Some c
          \<and> ne_sha256 E c = nr_sha256 r \<and> length c = nr_size r)
     \<and> (\<forall>p c. nd_files s p = Some c \<longrightarrow> c \<in> B \<and> (\<exists>ext. p = blobPath (ne_sha256 E c) ext))
     \<and> (nd_thumbnails (nd_db s) = [] \<or> reliable E)"

text \<open>The hash function has 64 characters and no collisions among the contents.\<close>

definition hashes_ok :: "node_env \<Rightarrow> string set \<Rightarrow> bool" where
  "hashes_ok E B \<longleftrightarrow> inj_on (ne_sha256 E) B \<and> (\<forall>c \<in> B. is_sha256_hex (ne_sha256 E c))"

lemma blobPath_inj: "length h = 64 \<Longrightarrow> length h' = 64 \<Longrightarrow> blobPath h e = blobPath h' e' \<Longrightarrow> h = h'"
  unfolding blobPath_def by (metis append_eq_append_conv append_self_conv append_take_drop_id take_append append_eq_conv_conj)

lemma node_ok_frame [simp]:
  "node_ok E B (s\<lparr>nd_calls := n\<rparr>) = node_ok E B s" "node_ok E B (s\<lparr>nd_tmp := t\<rparr>) = node_ok E B s"
  by (simp_all add: node_ok_def)

lemma node_ok_row:
  assumes "node_ok E B s" and "r \<in> set (nd_blobs (nd_db s))"
  obtains c where "c \<in> B" "nd_files s (row_path E r) = Some c" "ne_sha256 E c = nr_sha256 r" "length c = nr_size r"
  using assms unfolding node_ok_def by blast

lemma node_ok_key_length:
  assumes "node_ok E B s" and "hashes_ok E B" and "h \<in> blob_keys (nd_db s)"
  shows "length h = 64"
proof -
  from assms(3) obtain r where "r \<in> set (nd_blobs (nd_db s))" "h = nr_sha256 r" by (auto simp: blob_keys_def)
  with node_ok_row [OF assms(1)] assms(2) show ?thesis by (metis hashes_ok_def is_sha256_hex_def)
qed

text \<open>A file under the name of a content is that content.\<close>

lemma node_ok_file:
  assumes "node_ok E B s" and "hashes_ok E B" and "c \<in> B" and "nd_files s (blobPath (ne_sha256 E c) ext) = Some c'"
  shows "c' = c"
proof -
  from assms(1,4) obtain e where "c' \<in> B" "blobPath (ne_sha256 E c) ext = blobPath (ne_sha256 E c') e"
    unfolding node_ok_def by blast
  moreover from this assms(2,3) have "ne_sha256 E c = ne_sha256 E c'"
    by (auto simp: hashes_ok_def is_sha256_hex_def intro: blobPath_inj)
  ultimately show ?thesis using assms(2,3) by (auto simp: hashes_ok_def inj_on_def)
qed

section \<open>Single writes\<close>

lemma node_ok_write:
  assumes "node_ok E B s" and "hashes_ok E B" and "c \<in> B"
  shows "node_ok E B (s\<lparr>nd_files := (nd_files s)(blobPath (ne_sha256 E c) ext := Some c)\<rparr>)"
proof -
  let ?p = "blobPath (ne_sha256 E c) ext"
  have "\<exists>c' \<in> B. ((nd_files s)(?p := Some c)) (row_path E r) = Some c' \<and> ne_sha256 E c' = nr_sha256 r \<and> length c' = nr_size r"
    if r: "r \<in> set (nd_blobs (nd_db s))" for r
  proof -
    obtain c' where c': "c' \<in> B" "nd_files s (row_path E r) = Some c'" "ne_sha256 E c' = nr_sha256 r" "length c' = nr_size r"
      by (rule node_ok_row [OF assms(1) r])
    show ?thesis
    proof (cases "row_path E r = ?p")
      case True
      with c'(2) have "c' = c" using node_ok_file [OF assms] by simp
      with True c' show ?thesis by auto
    qed (use c' in auto)
  qed
  then show ?thesis using assms(1,3) unfolding node_ok_def by auto
qed

lemma node_ok_remove:
  assumes "node_ok E B s" and "hashes_ok E B" and "length h = 64" and "h \<notin> blob_keys (nd_db s)"
  shows "node_ok E B (s\<lparr>nd_files := (nd_files s)(blobPath h ext := None)\<rparr>)"
proof -
  have "row_path E r \<noteq> blobPath h ext" if r: "r \<in> set (nd_blobs (nd_db s))" for r
  proof
    assume "row_path E r = blobPath h ext"
    moreover have "nr_sha256 r \<in> blob_keys (nd_db s)" using r by (simp add: blob_keys_def)
    ultimately show False using node_ok_key_length [OF assms(1,2)] assms(3,4) blobPath_inj
      unfolding row_path_def by metis
  qed
  then show ?thesis using assms(1) unfolding node_ok_def by auto
qed

lemma node_ok_db:
  assumes "node_ok E B s" and "node_tables_ok d" and "set (nd_blobs d) \<subseteq> set (nd_blobs (nd_db s))"
    and "set (nd_thumbnails d) \<subseteq> set (nd_thumbnails (nd_db s))"
  shows "node_ok E B (s\<lparr>nd_db := d\<rparr>)"
proof -
  have "nd_thumbnails d = [] \<or> reliable E" using assms(1,4) by (auto simp: node_ok_def)
  then show ?thesis using assms(1-3) unfolding node_ok_def row_path_def by auto
qed

lemma node_ok_delete: "node_ok E B s \<Longrightarrow> node_ok E B (s\<lparr>nd_db := snd (deleteBlob_node h (nd_db s))\<rparr>)"
  by (rule node_ok_db) (auto simp: node_ok_def deleteBlob_node_ok, auto simp: deleteBlob_node_def delete_row_set)

lemma node_ok_removeOwner: "node_ok E B s \<Longrightarrow> node_ok E B (s\<lparr>nd_db := snd (removeOwner h p (nd_db s))\<rparr>)"
  by (rule node_ok_db) (auto simp: node_ok_def removeOwner_ok, auto simp: removeOwner_def)

lemma node_ok_touch: "node_ok E B s \<Longrightarrow> touchBlob h t (nd_db s) = Some d \<Longrightarrow> node_ok E B (s\<lparr>nd_db := d\<rparr>)"
  by (rule node_ok_db) (auto simp: node_ok_def intro: touchBlob_ok, auto simp: touchBlob_def split: if_splits)

lemma node_ok_insert:
  assumes "node_ok E B s"
    and "br_sha256 b \<in> blob_keys (nd_db s) \<or> (\<exists>c \<in> B. nd_files s (blobPath (br_sha256 b) (mimeToExt E (br_type b))) = Some c
        \<and> ne_sha256 E c = br_sha256 b \<and> length c = br_size b)"
  shows "node_ok E B (s\<lparr>nd_db := insertBlob b p (nd_db s)\<rparr>)"
proof -
  have "nd_blobs (insertBlob b p (nd_db s)) = nd_blobs (nd_db s)
      \<or> nd_blobs (insertBlob b p (nd_db s)) = nd_blobs (nd_db s) @ [record_row b] \<and> br_sha256 b \<notin> blob_keys (nd_db s)"
    by (auto simp: insertBlob_def insert_or_ignore_def blob_keys_def)
  moreover have "nd_thumbnails (insertBlob b p (nd_db s)) = nd_thumbnails (nd_db s)" by (simp add: insertBlob_def)
  moreover have "row_path E (record_row b) = blobPath (br_sha256 b) (mimeToExt E (br_type b))" "nr_size (record_row b) = br_size b"
    by (simp_all add: row_path_def record_row_def)
  ultimately show ?thesis using assms insertBlob_ok [of "nd_db s" b p]
    unfolding node_ok_def row_path_def by auto
qed

section \<open>Rules for the calls\<close>

text \<open>A predicate that does not look at the number of calls.\<close>

definition framed :: "(node \<Rightarrow> bool) \<Rightarrow> bool" where
  "framed P \<longleftrightarrow> (\<forall>s n. P (s\<lparr>nd_calls := n\<rparr>) = P s)"

lemma framedD: "framed P \<Longrightarrow> P (s\<lparr>nd_calls := n\<rparr>) = P s"
  by (simp add: framed_def)

lemma hoare_get_calls: "hoare P get_calls (\<lambda>_. P) X"
  by (simp add: hoare_def get_calls_def)

lemma hoare_db_read: "framed P \<Longrightarrow> hoare P (db_read E q) (\<lambda>x s. P s \<and> x = q (nd_db s)) P"
  unfolding db_read_def by (rule hoare_call) (simp_all add: framedD)

lemma hoare_db_write:
  assumes "framed P" and "\<And>s. P s \<Longrightarrow> Q (fst (q (nd_db s))) (s\<lparr>nd_db := snd (q (nd_db s))\<rparr>)"
  shows "hoare P (db_write E q) Q P"
  unfolding db_write_def
proof (rule hoare_call)
  fix s assume "P s"
  then have "P (s\<lparr>nd_calls := Suc (nd_calls s)\<rparr>)" by (simp add: framedD [OF assms(1)])
  from assms(2) [OF this]
  show "case case q (nd_db (s\<lparr>nd_calls := Suc (nd_calls s)\<rparr>)) of (x, d) \<Rightarrow> (x, s\<lparr>nd_calls := Suc (nd_calls s)\<rparr>\<lparr>nd_db := d\<rparr>)
      of (x, s') \<Rightarrow> Q x s'" by (simp add: case_prod_beta)
qed (simp add: framedD [OF assms(1)])

lemma hoare_storage_has:
  "framed P \<Longrightarrow> hoare P (storage_has E h ext) (\<lambda>b s. P s \<and> (b \<longrightarrow> nd_files s (blobPath h ext) \<noteq> None)) X"
  unfolding storage_has_def
  by (rule hoare_bind [OF hoare_attempt [OF hoare_call, where Q = "\<lambda>r s. P s \<and> (r = Inr True \<longrightarrow> nd_files s (blobPath h ext) \<noteq> None)"]])
    (auto simp: framedD intro!: hoare_return)

lemma hoare_storage_read:
  "framed P \<Longrightarrow> hoare P (storage_read E h ext) (\<lambda>x s. P s \<and> (\<forall>c. x = Some c \<longrightarrow> nd_files s (blobPath h ext) = Some c)) X"
  unfolding storage_read_def
  by (rule hoare_bind [OF hoare_attempt [OF hoare_call, where Q = "\<lambda>r s. P s \<and> (\<forall>c. r = Inr (Some c) \<longrightarrow> nd_files s (blobPath h ext) = Some c)"]])
    (auto simp: framedD intro!: hoare_return split: sum.splits)

lemma hoare_storage_remove:
  assumes "framed P" and "\<And>s. P s \<Longrightarrow> P (s\<lparr>nd_files := (nd_files s)(blobPath h ext := None)\<rparr>)"
  shows "hoare P (storage_remove E h ext) (\<lambda>_. P) X"
  unfolding storage_remove_def
proof (rule hoare_bind [OF hoare_attempt [OF hoare_call, where Q = "\<lambda>_. P"]])
  fix s assume "P s"
  then have "P (s\<lparr>nd_calls := Suc (nd_calls s)\<rparr>)" by (simp add: framedD [OF assms(1)])
  from assms(2) [OF this]
  show "case (nd_files (s\<lparr>nd_calls := Suc (nd_calls s)\<rparr>) (blobPath h ext) \<noteq> None,
      s\<lparr>nd_calls := Suc (nd_calls s)\<rparr>\<lparr>nd_files := (nd_files (s\<lparr>nd_calls := Suc (nd_calls s)\<rparr>))(blobPath h ext := None)\<rparr>)
      of (x, s') \<Rightarrow> P s'" by simp
qed (simp_all add: framedD [OF assms(1)] hoare_return)

lemma hoare_abortWrite:
  assumes "framed P" and "\<And>s t. P s \<Longrightarrow> P (s\<lparr>nd_tmp := t\<rparr>)"
  shows "hoare P (storage_abortWrite E path) (\<lambda>_. P) X"
  unfolding storage_abortWrite_def
  by (rule hoare_bind [OF hoare_attempt [OF hoare_call, where Q = "\<lambda>_. P"]])
    (auto simp: framedD [OF assms(1)] intro!: hoare_return assms(2))

lemma hoare_beginWrite:
  assumes "framed P" and "\<And>s t. P s \<Longrightarrow> P (s\<lparr>nd_tmp := t\<rparr>)"
  shows "hoare P (storage_beginWrite E) (\<lambda>_. P) P"
  unfolding storage_beginWrite_def Let_def
  by (rule hoare_bind [OF hoare_get_calls], rule hoare_call) (auto simp: framedD [OF assms(1)] intro!: assms(2))

lemma framed_node_ok [simp]: "framed (node_ok E B)"
  by (simp add: framed_def)

lemma framed_conj [intro]: "framed P \<Longrightarrow> framed Q \<Longrightarrow> framed (\<lambda>s. P s \<and> Q s)"
  by (simp add: framed_def)

text \<open>A finished job: the temporary file holds the body.\<close>

definition job_done :: "node_env \<Rightarrow> unit + string \<Rightarrow> string \<Rightarrow> blob_hash \<times> nat \<Rightarrow> node \<Rightarrow> bool" where
  "job_done E body path res s \<longleftrightarrow>
     (\<exists>bytes. body = Inr bytes \<and> res = (ne_sha256 E bytes, length bytes) \<and> nd_tmp s path = Some bytes)"

lemma handleJob_keeps:
  "hoare (node_ok E B) (handleJob E body path xSha) (\<lambda>job s. node_ok E B s \<and> (\<forall>res. job = Inr res \<longrightarrow> job_done E body path res s)) X"
  unfolding handleJob_def
proof (rule hoare_bind [OF hoare_attempt [OF hoare_call,
      where Q = "\<lambda>r s. node_ok E B s \<and> (\<forall>bytes. r = Inr (Some bytes) \<longrightarrow> body = Inr bytes \<and> nd_tmp s path = Some bytes)"]])
  fix r :: "node_exn + string option"
  let ?R = "\<lambda>s. node_ok E B s \<and> (\<forall>bytes. r = Inr (Some bytes) \<longrightarrow> body = Inr bytes \<and> nd_tmp s path = Some bytes)"
  let ?Q = "\<lambda>job s. node_ok E B s \<and> (\<forall>res. job = Inr res \<longrightarrow> job_done E body path res s)"
  have fail: "hoare ?R (bind_nd (storage_abortWrite E path) (\<lambda>_. return_nd (Inl e))) ?Q X" for e
    by (rule hoare_bind [OF hoare_pre [OF hoare_abortWrite [where P = "node_ok E B"]]]) (auto intro: hoare_return)
  show "hoare ?R (case r of
          Inr (Some bytes) \<Rightarrow>
            (let hash = ne_sha256 E bytes in
             if xSha \<noteq> None \<and> xSha \<noteq> Some hash
             then bind_nd (storage_abortWrite E path) (\<lambda>_. return_nd (Inl (HASH_MISMATCH
                    (''Hash mismatch: declared '' @ the xSha @ '', computed '' @ hash))))
             else return_nd (Inr (hash, length bytes)))
        | _ \<Rightarrow> bind_nd (storage_abortWrite E path) (\<lambda>_. return_nd (Inl (UNKNOWN ''write failed'')))) ?Q X"
    unfolding Let_def
    by (intro hoare_sum hoare_option hoare_if fail hoare_return) (auto simp: job_done_def)
qed (auto split: sum.splits)

lemma commitWrite_keeps:
  assumes "hashes_ok E B" and "bytes \<in> B"
  shows "hoare (\<lambda>s. node_ok E B s \<and> nd_tmp s path = Some bytes)
    (storage_commitWrite E path (ne_sha256 E bytes) ext)
    (\<lambda>_ s. node_ok E B s \<and> nd_files s (blobPath (ne_sha256 E bytes) ext) = Some bytes) (node_ok E B)"
  unfolding storage_commitWrite_def
proof (rule hoare_bind [OF hoare_storage_has], simp add: framed_def, rule hoare_if)
  let ?p = "blobPath (ne_sha256 E bytes) ext"
  fix there assume "there"
  have "hoare (\<lambda>s. node_ok E B s \<and> nd_files s ?p = Some bytes) (storage_abortWrite E path)
      (\<lambda>_ s. node_ok E B s \<and> nd_files s ?p = Some bytes) (node_ok E B)"
    by (rule hoare_abortWrite) (simp_all add: framed_def)
  then show "hoare (\<lambda>s. (node_ok E B s \<and> nd_tmp s path = Some bytes) \<and> (there \<longrightarrow> nd_files s ?p \<noteq> None))
      (storage_abortWrite E path) (\<lambda>_ s. node_ok E B s \<and> nd_files s ?p = Some bytes) (node_ok E B)"
    by (rule hoare_pre) (use \<open>there\<close> node_ok_file [OF _ assms] in auto)
next
  let ?p = "blobPath (ne_sha256 E bytes) ext"
  fix there :: bool
  have written: "node_ok E B s \<Longrightarrow> node_ok E B (s\<lparr>nd_calls := n, nd_files := (nd_files s)(?p := Some bytes)\<rparr>)" for s n
    using node_ok_write [OF _ assms, of "s\<lparr>nd_calls := n\<rparr>" ext] by simp
  show "hoare (\<lambda>s. (node_ok E B s \<and> nd_tmp s path = Some bytes) \<and> (there \<longrightarrow> nd_files s ?p \<noteq> None))
      (rename_tmp E path ?p) (\<lambda>_ s. node_ok E B s \<and> nd_files s ?p = Some bytes) (node_ok E B)"
    unfolding rename_tmp_def
    by (rule hoare_bind [where R = "\<lambda>moved s. (node_ok E B s \<and> nd_files s ?p = Some bytes) \<and> moved"], rule hoare_call)
      (auto intro!: hoare_return hoare_raise hoare_if written)
qed

section \<open>The handlers keep the invariant\<close>

lemma getBlob_node_Some:
  assumes "getBlob_node h d = Some b"
  obtains r where "r \<in> set (nd_blobs d)" "b = row_record r" "br_sha256 b = h" "nr_sha256 r = h" "h \<in> blob_keys d"
  using assms by (auto simp: getBlob_node_def row_record_def blob_keys_def dest!: find_row_SomeD)

lemma read_result:
  "hoare (node_ok E B) (db_read E q) (\<lambda>x s. node_ok E B s \<and> x = q (nd_db s)) (node_ok E B)"
  by (rule hoare_db_read) simp

lemma read_keeps: "hoare (node_ok E B) (db_read E q) (\<lambda>_. node_ok E B) (node_ok E B)"
  by (rule hoare_post [OF read_result]) auto

lemma node_ok_abort: "hoare (node_ok E B) (storage_abortWrite E path) (\<lambda>_. node_ok E B) X"
  by (rule hoare_abortWrite) simp_all

lemma abort_then:
  "(\<And>s. P s \<Longrightarrow> node_ok E B s) \<Longrightarrow>
   hoare P (bind_nd (storage_abortWrite E path) (\<lambda>_. return_nd r)) (\<lambda>_. node_ok E B) X"
  by (rule hoare_bind [OF hoare_pre [OF node_ok_abort]]) (auto intro: hoare_return)

lemma dedup_keeps: "hoare (node_ok E B) (dedup_upload E C req p) (\<lambda>_. node_ok E B) (node_ok E B)"
proof -
  let ?h = "the (up_xSha256 p)"
  let ?found = "\<lambda>b s. node_ok E B s \<and> getBlob_node ?h (nd_db s) = Some b"
  have owner: "hoare (?found b)
      (case up_auth p of None \<Rightarrow> return_nd ()
       | Some a \<Rightarrow> bind_nd (db_read E (isOwner ?h (ev_pubkey a))) (\<lambda>owner.
           if owner then return_nd () else db_write E (\<lambda>d. ((), insertBlob b (ev_pubkey a) d))))
      (\<lambda>_. node_ok E B) (node_ok E B)" for b
  proof (rule hoare_option, rule hoare_return, simp, rule hoare_bind)
    fix a
    show "hoare (?found b) (db_read E (isOwner ?h (ev_pubkey a))) (\<lambda>_. ?found b) (node_ok E B)"
      by (rule hoare_post [OF hoare_db_read]) (auto simp: framed_def)
    have "hoare (?found b) (db_write E (\<lambda>d. ((), insertBlob b (ev_pubkey a) d))) (\<lambda>_. node_ok E B) (?found b)"
      by (rule hoare_db_write) (auto simp: framed_def elim!: getBlob_node_Some intro!: node_ok_insert)
    then have "hoare (?found b) (db_write E (\<lambda>d. ((), insertBlob b (ev_pubkey a) d))) (\<lambda>_. node_ok E B) (node_ok E B)"
      by (rule hoare_post) auto
    then show "hoare (?found b) (if owner then return_nd () else db_write E (\<lambda>d. ((), insertBlob b (ev_pubkey a) d)))
        (\<lambda>_. node_ok E B) (node_ok E B)" for owner
      by (auto intro: hoare_return)
  qed
  show ?thesis
    unfolding dedup_upload_def Let_def
    apply (rule hoare_if, rule hoare_return, simp)
    apply (rule hoare_bind [OF read_keeps], rule hoare_if, rule hoare_return, simp)
    apply (rule hoare_bind [OF read_result], rule hoare_option, rule hoare_return, simp)
    apply (rule hoare_bind [OF hoare_pre [OF owner]], auto intro: hoare_return)
    done
qed

lemma commit_keeps:
  assumes "hashes_ok E B" and "bytes \<in> B"
  shows "hoare (\<lambda>s. node_ok E B s \<and> nd_tmp s path = Some bytes)
    (commit_upload E C now req p path bytes (ne_sha256 E bytes) (length bytes)) (\<lambda>_. node_ok E B) (node_ok E B)"
proof -
  let ?h = "ne_sha256 E bytes" and ?ext = "mimeToExt E (Some (up_mime p))"
  let ?ty = "if up_mime p \<noteq> ''application/octet-stream'' then Some (up_mime p) else None"
  let ?b = "\<lparr>br_sha256 = ?h, br_size = length bytes, br_type = ?ty, br_uploaded = now,
    br_nip94 = optionalNip94Tags (ne_dimensions E bytes ?ty)\<rparr>"
  let ?R = "\<lambda>r s. node_ok E B s \<and> (\<forall>u. r = Inr u \<longrightarrow> nd_files s (blobPath ?h ?ext) = Some bytes)"
  have ext: "mimeToExt E ?ty = ?ext" by (simp add: mimeToExt_def)
  have commit: "hoare (\<lambda>s. node_ok E B s \<and> nd_tmp s path = Some bytes)
      (attempt_nd (storage_commitWrite E path ?h ?ext)) ?R (node_ok E B)"
    by (rule hoare_attempt, rule hoare_post [OF commitWrite_keeps [OF assms]]) auto
  have failed: "hoare (?R (Inl e)) (bind_nd (storage_abortWrite E path) (\<lambda>_. raise_nd e)) (\<lambda>_. node_ok E B) (node_ok E B)" for e
    by (rule hoare_bind [OF hoare_pre [OF node_ok_abort]]) (auto intro: hoare_raise)
  have insert: "hoare (?R (Inr u)) (db_write E (\<lambda>d. ((), insertBlob ?b owner d))) (\<lambda>_. node_ok E B) (node_ok E B)" for u owner
    by (rule hoare_post [OF hoare_db_write [where Q = "\<lambda>_. node_ok E B"]])
      (use assms(2) ext in \<open>auto simp: framed_def intro!: node_ok_insert\<close>)
  have finish: "hoare (?R r) (case r of Inl e \<Rightarrow> bind_nd (storage_abortWrite E path) (\<lambda>_. raise_nd e)
      | Inr _ \<Rightarrow> bind_nd (db_write E (\<lambda>d. ((), insertBlob ?b owner d))) (\<lambda>_. return_nd resp))
      (\<lambda>_. node_ok E B) (node_ok E B)" for r owner resp
  proof (cases r)
    case (Inl e)
    show ?thesis unfolding Inl sum.case by (rule failed)
  next
    case (Inr u)
    show ?thesis unfolding Inr sum.case by (rule hoare_bind [OF insert], rule hoare_return)
  qed
  show ?thesis unfolding commit_upload_def Let_def by (rule hoare_bind [OF commit finish])
qed

definition body_in :: "string set \<Rightarrow> NodeRequest \<Rightarrow> bool" where
  "body_in B req \<longleftrightarrow> (\<forall>bytes. nq_body req = Some (Inr bytes) \<longrightarrow> bytes \<in> B)"

lemma store_keeps:
  assumes "hashes_ok E B" and "body_in B req"
  shows "hoare (node_ok E B) (store_upload E C now req p) (\<lambda>_. node_ok E B) (node_ok E B)"
proof -
  have final: "hoare (\<lambda>s. node_ok E B s \<and> (\<forall>res. job = Inr res \<longrightarrow> job_done E body path res s))
      (case job of
         Inl err \<Rightarrow> bind_nd (storage_abortWrite E path) (\<lambda>_. return_nd
           (case err of HASH_MISMATCH msg \<Rightarrow> errorResponse 409 msg | UNKNOWN msg \<Rightarrow> errorResponse 400 msg))
       | Inr (h, n) \<Rightarrow>
           (case (if up_auth p \<noteq> None \<and> \<not> given (up_xSha256 p) then requireXTag (the (up_auth p)) h else None) of
              Some (st, msg) \<Rightarrow> bind_nd (storage_abortWrite E path) (\<lambda>_. return_nd (errorResponse st msg))
            | None \<Rightarrow> commit_upload E C now req p path (case body of Inl _ \<Rightarrow> [] | Inr bytes \<Rightarrow> bytes) h n))
      (\<lambda>_. node_ok E B) (node_ok E B)" if body: "nq_body req = Some body" for job body path
  proof (intro hoare_sum hoare_prod hoare_option)
    fix x h n assume job: "job = Inr x" "x = (h, n)"
    show "hoare (\<lambda>s. node_ok E B s \<and> (\<forall>res. job = Inr res \<longrightarrow> job_done E body path res s))
      (commit_upload E C now req p path (case body of Inl _ \<Rightarrow> [] | Inr bytes \<Rightarrow> bytes) h n) (\<lambda>_. node_ok E B) (node_ok E B)"
    proof (cases "\<exists>bytes. body = Inr bytes \<and> (h, n) = (ne_sha256 E bytes, length bytes)")
      case True
      then obtain bytes where "body = Inr bytes" "h = ne_sha256 E bytes" "n = length bytes" by auto
      moreover from this have "bytes \<in> B" using assms(2) body by (simp add: body_in_def)
      ultimately show ?thesis using job by (auto simp: job_done_def intro!: hoare_pre [OF commit_keeps [OF assms(1)]])
    next
      case False
      then show ?thesis using job by (auto simp: hoare_def job_done_def)
    qed
  qed (auto intro!: abort_then)
  show ?thesis
    unfolding store_upload_def
    apply (rule hoare_option, rule hoare_return, simp)
    apply (rule hoare_bind [OF hoare_get_calls], rule hoare_if, rule hoare_return, simp)
    apply (rule hoare_bind [OF hoare_beginWrite], simp, simp)
    apply (rule hoare_bind [OF hoare_get_calls], rule hoare_if, rule abort_then, simp)
    apply (rule hoare_bind [OF handleJob_keeps final], simp)
    done
qed

lemma put_keeps:
  assumes "hashes_ok E B" and "body_in B req"
  shows "hoare (node_ok E B) (put_upload E C now ctx req) (\<lambda>_. node_ok E B) (node_ok E B)"
  unfolding put_upload_def
  by (intro hoare_sum hoare_return hoare_bind [OF dedup_keeps] hoare_option store_keeps [OF assms])

lemma head_keeps: "hoare (node_ok E B) (head_upload E C ctx req) (\<lambda>_. node_ok E B) (node_ok E B)"
  unfolding head_upload_def Let_def
  by (intro hoare_if hoare_sum hoare_prod hoare_option hoare_return hoare_bind [OF hoare_get_calls] hoare_bind [OF read_keeps])

lemma touch_keeps: "hoare (node_ok E B) (touch E h now) (\<lambda>_. node_ok E B) X"
  unfolding touch_def
proof (rule hoare_bind [OF hoare_attempt])
  show "hoare (node_ok E B) (db_write E (\<lambda>d. case touchBlob h now d of None \<Rightarrow> ((), d) | Some d' \<Rightarrow> ((), d')))
      (\<lambda>_. node_ok E B) (\<lambda>s. \<forall>e :: node_exn. node_ok E B s)"
    by (rule hoare_post [OF hoare_db_write [where P = "node_ok E B" and Q = "\<lambda>_. node_ok E B"]])
      (auto split: option.split intro: node_ok_touch)
qed (rule hoare_return)

lemma storage_has_keeps: "hoare (node_ok E B) (storage_has E h ext) (\<lambda>_. node_ok E B) X"
  by (rule hoare_post [OF hoare_storage_has]) auto

lemma storage_read_keeps: "hoare (node_ok E B) (storage_read E h ext) (\<lambda>_. node_ok E B) X"
  by (rule hoare_post [OF hoare_storage_read]) auto

lemma send_keeps: "hoare (node_ok E B) (send_blob E h b ext rng) (\<lambda>_. node_ok E B) X"
  unfolding send_blob_def
  by (intro hoare_if hoare_option hoare_prod hoare_return hoare_bind [OF storage_read_keeps])

lemma get_keeps: "hoare (node_ok E B) (get_blob E now is_head filename req) (\<lambda>_. node_ok E B) (node_ok E B)"
  unfolding get_blob_def Let_def
  by (intro hoare_if hoare_option hoare_return hoare_bind [OF read_keeps] hoare_bind [OF storage_has_keeps]
      hoare_bind [OF touch_keeps] hoare_bind [OF send_keeps])

lemma list_descriptors_keeps: "hoare (node_ok E B) (list_descriptors E u bs) (\<lambda>_. node_ok E B) (node_ok E B)"
  by (induction bs) (auto intro!: hoare_return hoare_bind [OF read_keeps] hoare_bind)

lemma list_keeps: "hoare (node_ok E B) (list_blobs E C ctx param q req) (\<lambda>_. node_ok E B) (node_ok E B)"
  unfolding list_blobs_def Let_def
  by (intro hoare_if hoare_sum hoare_prod hoare_return hoare_bind [OF read_keeps] hoare_bind [OF list_descriptors_keeps])

text \<open>Removing the row first makes it safe to remove the file.\<close>

lemma delete_row_keeps:
  "hoare (node_ok E B) (db_write E (deleteBlob_node h)) (\<lambda>_ s. node_ok E B s \<and> h \<notin> blob_keys (nd_db s)) (node_ok E B)"
  by (rule hoare_db_write) (auto intro: node_ok_delete)

lemma remove_file_keeps:
  assumes "hashes_ok E B" and "length h = 64"
  shows "hoare (\<lambda>s. node_ok E B s \<and> h \<notin> blob_keys (nd_db s)) (storage_remove E h ext) (\<lambda>_. node_ok E B) X"
  by (rule hoare_post [OF hoare_storage_remove]) (auto simp: framed_def intro: node_ok_remove [OF _ assms])

lemma reliable_attempt:
  assumes "reliable E" and "hoare P (db_write E q) (\<lambda>_. R) X'"
  shows "hoare P (attempt_nd (db_write E q)) (\<lambda>_. R) X"
proof (rule hoare_attempt)
  show "hoare P (db_write E q) (\<lambda>_. R) (\<lambda>s. \<forall>e :: node_exn. R s)"
    using assms unfolding hoare_def db_write_def call_nd_def by (simp add: Let_def split: prod.splits)
qed

lemma drop_thumbnails_keeps:
  assumes "hashes_ok E B"
  shows "\<forall>t \<in> set ts. length (br_sha256 t) = 64 \<Longrightarrow> ts = [] \<or> reliable E \<Longrightarrow>
    hoare (node_ok E B) (drop_thumbnails E ts) (\<lambda>_. node_ok E B) (node_ok E B)"
proof (induction ts)
  case Nil
  show ?case by (auto intro: hoare_return)
next
  case (Cons t ts)
  then have rel: "reliable E" by simp
  have "hoare (node_ok E B) (attempt_nd (db_write E (deleteBlob_node (br_sha256 t))))
      (\<lambda>_ s. node_ok E B s \<and> br_sha256 t \<notin> blob_keys (nd_db s)) (node_ok E B)"
    by (rule reliable_attempt [OF rel delete_row_keeps])
  then show ?case using Cons rel by (auto intro!: hoare_bind remove_file_keeps [OF assms])
qed

lemma set_map_filter_Some: "set (List.map_filter f xs) = {y. \<exists>x \<in> set xs. f x = Some y}"
  by (induction xs) (auto simp: List.map_filter_simps split: option.split)

lemma thumbnails_of:
  assumes "node_ok E B s" and "hashes_ok E B" and "ts = getMediaThumbnailsForParent h (nd_db s)"
  shows "(\<forall>t \<in> set ts. length (br_sha256 t) = 64) \<and> (ts = [] \<or> reliable E)"
proof
  show "\<forall>t \<in> set ts. length (br_sha256 t) = 64"
  proof
    fix t assume "t \<in> set ts"
    then obtain k where "getBlob_node k (nd_db s) = Some t"
      using assms(3) by (auto simp: getMediaThumbnailsForParent_def set_map_filter_Some)
    then show "length (br_sha256 t) = 64" by (rule getBlob_node_Some) (simp add: node_ok_key_length [OF assms(1,2)])
  qed
  show "ts = [] \<or> reliable E" using assms(1,3) by (auto simp: node_ok_def)
qed

lemma purge_keeps:
  assumes "hashes_ok E B" and "length h = 64"
  shows "hoare (node_ok E B) (purge_blob E h ext) (\<lambda>_. node_ok E B) (node_ok E B)"
proof -
  let ?R = "\<lambda>ts s. node_ok E B s \<and> (\<forall>t \<in> set ts. length (br_sha256 t) = 64) \<and> (ts = [] \<or> reliable E)"
  have read: "hoare (node_ok E B) (db_read E (getMediaThumbnailsForParent h)) ?R (node_ok E B)"
    by (rule hoare_post [OF read_result]) (auto dest: thumbnails_of [OF _ assms(1) refl])
  have "hoare (?R ts) (bind_nd (db_write E (deleteBlob_node h)) (\<lambda>_. bind_nd (storage_remove E h ext) (\<lambda>_.
      bind_nd (drop_thumbnails E ts) (\<lambda>_. return_nd (plain_response 204 NbEmpty))))) (\<lambda>_. node_ok E B) (node_ok E B)" for ts
  proof (cases "(\<forall>t \<in> set ts. length (br_sha256 t) = 64) \<and> (ts = [] \<or> reliable E)")
    case True
    then show ?thesis
      by (intro hoare_pre [OF hoare_bind [OF delete_row_keeps hoare_bind [OF remove_file_keeps [OF assms]
            hoare_bind [OF drop_thumbnails_keeps [OF assms(1)]]]]] hoare_return) auto
  qed (auto simp: hoare_def)
  then show ?thesis unfolding purge_blob_def by (rule hoare_bind [OF read])
qed

lemma find_hash_length: "find_hash f = Some h \<Longrightarrow> is_sha256_hex h"
  by (induction f rule: find_hash.induct) (auto split: if_splits)

lemma delete_keeps:
  assumes "hashes_ok E B"
  shows "hoare (node_ok E B) (delete_blob E C ctx filename) (\<lambda>_. node_ok E B) (node_ok E B)"
proof (cases "find_hash filename")
  case (Some h)
  then have "length h = 64" using find_hash_length by (auto simp: is_sha256_hex_def)
  note purge = purge_keeps [OF assms this]
  have owner: "hoare (node_ok E B) (db_write E (removeOwner h p)) (\<lambda>_. node_ok E B) (node_ok E B)" for p
    by (rule hoare_db_write) (auto intro: node_ok_removeOwner)
  show ?thesis unfolding delete_blob_def Some option.case Let_def
    by (intro hoare_option hoare_if hoare_sum hoare_prod hoare_return hoare_raise purge
        hoare_bind [OF read_keeps] hoare_bind [OF owner])
qed (auto simp: delete_blob_def intro: hoare_return)

lemma hoare_state:
  assumes "hoare P m (\<lambda>_. I) I" and "P s"
  shows "I (snd (m s))"
proof -
  obtain r s' where m: "m s = (r, s')" by fastforce
  then show ?thesis using hoareD [OF assms] hoareD_exn [OF assms] by (cases r) auto
qed

lemma prune_thumbs_keeps:
  assumes "hashes_ok E B"
  shows "\<forall>t \<in> set ts. length (br_sha256 t) = 64 \<Longrightarrow> node_ok E B s \<Longrightarrow> node_ok E B (snd (prune_thumbs E ts del s))"
proof (induction ts arbitrary: del s)
  case (Cons t ts)
  obtain r s1 where w: "db_write E (deleteBlob_node (br_sha256 t)) s = (r, s1)" by fastforce
  show ?case
  proof (cases r)
    case (Inl e)
    then show ?thesis using w hoareD_exn [OF delete_row_keeps Cons.prems(2)] by simp
  next
    case (Inr x)
    then have "node_ok E B s1 \<and> br_sha256 t \<notin> blob_keys (nd_db s1)"
      using w hoareD [OF delete_row_keeps Cons.prems(2)] by simp
    then have "node_ok E B (snd (storage_remove E (br_sha256 t) (mimeToExt E (br_type t)) s1))"
      using hoare_state [OF remove_file_keeps [OF assms]] Cons.prems(1) by simp
    then show ?thesis using Cons.IH Cons.prems(1) w Inr by simp
  qed
qed simp

lemma prune_one_keeps:
  assumes "hashes_ok E B" and "length h = 64" and "node_ok E B s"
  shows "node_ok E B (snd (prune_one E h ty a s))"
proof -
  let ?R = "\<lambda>ts s. node_ok E B s \<and> (\<forall>t \<in> set ts. length (br_sha256 t) = 64)"
  let ?m = "bind_nd (db_read E (getMediaThumbnailsForParent h)) (\<lambda>thumbs.
      bind_nd (db_write E (deleteBlob_node h)) (\<lambda>_.
      bind_nd (storage_remove E h (mimeToExt E ty)) (\<lambda>_. return_nd thumbs)))"
  have read: "hoare (node_ok E B) (db_read E (getMediaThumbnailsForParent h)) ?R (node_ok E B)"
    by (rule hoare_post [OF read_result]) (auto dest: thumbnails_of [OF _ assms(1) refl])
  have "hoare (?R ts) (bind_nd (db_write E (deleteBlob_node h)) (\<lambda>_.
      bind_nd (storage_remove E h (mimeToExt E ty)) (\<lambda>_. return_nd ts))) ?R (node_ok E B)" for ts
  proof (cases "\<forall>t \<in> set ts. length (br_sha256 t) = 64")
    case True
    then show ?thesis
      by (intro hoare_pre [OF hoare_bind [OF delete_row_keeps hoare_bind [OF remove_file_keeps [OF assms(1,2)]]]] hoare_return) auto
  qed (auto simp: hoare_def)
  then have triple: "hoare (node_ok E B) ?m ?R (node_ok E B)" by (rule hoare_bind [OF read])
  obtain r s1 where m: "?m s = (r, s1)" by fastforce
  show ?thesis
  proof (cases r)
    case (Inl e)
    then show ?thesis using m hoareD_exn [OF triple assms(3)] by (simp add: prune_one_def)
  next
    case (Inr ts)
    then have "?R ts s1" using m hoareD [OF triple assms(3)] by simp
    then have "node_ok E B (snd (prune_thumbs E ts (pa_deleted a) s1))" using prune_thumbs_keeps [OF assms(1)] by blast
    then show ?thesis using m Inr by (auto simp: prune_one_def split: prod.splits bool.splits)
  qed
qed

lemma prune_rows_keeps:
  assumes "hashes_ok E B"
  shows "\<forall>b \<in> set bs. length (br_sha256 b) = 64 \<Longrightarrow> node_ok E B s \<Longrightarrow> node_ok E B (snd (prune_rows E co bs a s))"
proof (induction bs arbitrary: a s)
  case (Cons b bs)
  have "node_ok E B (snd (prune_one E (br_sha256 b) (br_type b) a' s))" for a'
    using prune_one_keeps [OF assms] Cons.prems by simp
  then show ?case using Cons by (auto simp: Let_def split: prod.splits) (metis snd_conv)
qed simp

lemma prune_ownerless_keeps:
  assumes "hashes_ok E B"
  shows "\<forall>b \<in> set bs. length (fst b) = 64 \<Longrightarrow> node_ok E B s \<Longrightarrow> node_ok E B (snd (prune_ownerless E bs a s))"
proof (induction bs arbitrary: a s)
  case (Cons b bs)
  obtain h ty where b: "b = (h, ty)" by fastforce
  have "node_ok E B (snd (prune_one E h ty a' s))" for a' using prune_one_keeps [OF assms] Cons.prems b by simp
  then show ?case using Cons b by (auto split: prod.splits) (metis snd_conv)
qed simp

lemma query_keys:
  "b \<in> set (getBlobsForPrune pat ps d) \<Longrightarrow> br_sha256 b \<in> blob_keys d"
  "x \<in> set (getOwnerlessBlobSha256s d) \<Longrightarrow> fst x \<in> blob_keys d"
  by (auto simp: getBlobsForPrune_def Let_def blob_keys_def getOwnerlessBlobSha256s_def split: option.splits list.splits)

lemma prune_rules_keeps:
  assumes "hashes_ok E B"
  shows "node_ok E B s \<Longrightarrow> node_ok E B (snd (prune_rules E now rules a s))"
proof (induction rules arbitrary: a s)
  case (Cons rule rules)
  let ?q = "getBlobsForPrune (mimeToSqlLike (sr_type rule)) (sr_pubkeys rule)"
  let ?s1 = "s\<lparr>nd_calls := Suc (nd_calls s)\<rparr>"
  have rows: "node_ok E B (snd (prune_rows E co (?q (nd_db s)) a' ?s1))" for co a'
    using prune_rows_keeps [OF assms, of "?q (nd_db s)" ?s1] node_ok_key_length [OF Cons.prems assms] query_keys(1) Cons.prems
    by auto
  show ?case
  proof (cases rule: db_read_cases [of E s ?q])
    case 2
    then show ?thesis using Cons rows by (auto split: option.splits prod.splits) (metis snd_conv)
  qed (use Cons in \<open>auto split: option.splits\<close>)
qed simp

lemma prune_keeps:
  assumes "hashes_ok E B" and "node_ok E B s"
  shows "node_ok E B (snd (pruneStorage E now rules rm s))"
proof -
  obtain a s1 where r: "prune_rules E now rules \<lparr>pa_checked = [], pa_deleted = 0, pa_errors = 0\<rparr> s = (a, s1)" by fastforce
  then have s1: "node_ok E B s1" using prune_rules_keeps [OF assms] by (metis snd_conv)
  have "node_ok E B (snd (prune_ownerless E (getOwnerlessBlobSha256s (nd_db s1)) a (s1\<lparr>nd_calls := Suc (nd_calls s1)\<rparr>)))"
    using prune_ownerless_keeps [OF assms(1)] node_ok_key_length [OF s1 assms(1)] query_keys(2) s1 by simp
  with s1 r show ?thesis
    by (cases rule: db_read_cases [of E s1 getOwnerlessBlobSha256s]) (simp_all add: pruneStorage_def)
qed

section \<open>Reachable states\<close>

definition empty_node :: node where
  "empty_node = \<lparr>nd_db = \<lparr>nd_blobs = [], nd_owners = [], nd_accessed = [], nd_derivatives = [], nd_thumbnails = []\<rparr>,
     nd_files = (\<lambda>_. None), nd_tmp = (\<lambda>_. None), nd_calls = 0\<rparr>"

inductive node_step :: "node_env \<Rightarrow> node_config \<Rightarrow> string set \<Rightarrow> node \<Rightarrow> node \<Rightarrow> bool" for E C B where
  put: "body_in B req \<Longrightarrow> node_step E C B s (snd (put_upload E C now ctx req s))"
| head: "node_step E C B s (snd (head_upload E C ctx req s))"
| get: "node_step E C B s (snd (get_blob E now is_head filename req s))"
| delete: "node_step E C B s (snd (delete_blob E C ctx filename s))"
| list: "node_step E C B s (snd (list_blobs E C ctx param q req s))"
| prune: "node_step E C B s (snd (pruneStorage E now (nc_rules C) (nc_removeWhenNoOwners C) s))"

lemma node_step_ok:
  assumes "node_step E C B s t" and "hashes_ok E B" and "node_ok E B s"
  shows "node_ok E B t"
  using assms(1)
proof cases
  case (put req now ctx)
  then show ?thesis using hoare_state [OF put_keeps [OF assms(2)]] assms(3) by simp
qed (auto intro: hoare_state [OF head_keeps] hoare_state [OF get_keeps] hoare_state [OF delete_keeps [OF assms(2)]]
    hoare_state [OF list_keeps] prune_keeps [OF assms(2)] assms(3))

interpretation store: invariant_system "\<lambda>s. s = empty_node" "node_step E C B" "\<lambda>s. hashes_ok E B \<longrightarrow> node_ok E B s" for E C B
proof
  show "s = empty_node \<Longrightarrow> hashes_ok E B \<longrightarrow> node_ok E B s" for s
    by (simp add: empty_node_def node_ok_def node_tables_ok_def)
qed (use node_step_ok in blast)

end
