(* ===== verification/Node_Refine.thy ===== *)
theory Node_Refine
  imports Node_Props Placement
begin

text \<open>
  The storage node as the provider the proxy relies on. The placement loop of the proxy is
  verified against the contract \<open>provider_put\<close>: an accepted upload leaves the blob on the
  provider and later uploads keep it. Here the upload handler of the node is shown to meet
  that contract, with every failure of its calls, and a download is shown to return the
  bytes that were uploaded.
\<close>

section \<open>Requests between proxy and node\<close>

text \<open>
  \<open>onError\<close> of the application (\<open>middleware/errors.ts\<close>), which answers what the middleware
  raises; the router answers what its handlers raise.
\<close>

fun app_onError :: "node_exn \<Rightarrow> node_response" where
  "app_onError (HttpEx st msg) = \<lparr>rs_status = st, rs_body = NbReason (if msg = [] then ''An error occurred'' else msg),
     rs_headers = [(''Content-Type'', ''text/plain'')]\<rparr>"
| "app_onError OtherEx = \<lparr>rs_status = 500, rs_body = NbReason ''Internal server error'',
     rs_headers = [(''Content-Type'', ''text/plain'')]\<rparr>"

text \<open>A request through the middleware, as the application runs it.\<close>

definition handle_put ::
  "auth_prims \<Rightarrow> node_env \<Rightarrow> node_config \<Rightarrow> int \<Rightarrow> NodeRequest \<Rightarrow> node \<Rightarrow> node_response \<times> node" where
  "handle_put P E C now req s =
     (case authMiddleware P (nc_publicDomain C) now (nq_header req ''authorization'') (nq_header req ''host'') of
        Inl e \<Rightarrow> (app_onError e, s)
      | Inr ctx \<Rightarrow> run_node (put_upload E C now ctx req) s)"

text \<open>The headers of \<open>axios.put\<close> in the upload loop, and its success.\<close>

definition proxy_put_request :: "string \<Rightarrow> blob_hash \<Rightarrow> string \<Rightarrow> string \<Rightarrow> NodeRequest" where
  "proxy_put_request authHeader h bytes host = \<lparr>
     nq_header = (\<lambda>_. None)(''authorization'' := Some authHeader, ''content-type'' := Some ''application/octet-stream'',
       ''x-sha-256'' := Some h, ''content-length'' := Some (show_nat (length bytes)), ''host'' := Some host),
     nq_urlProtocol = ''http:'', nq_urlHost = host, nq_body = Some (Inr bytes)\<rparr>"

definition axios_ok :: "node_response \<Rightarrow> bool" where
  "axios_ok r \<longleftrightarrow> 200 \<le> rs_status r \<and> rs_status r < 300"

text \<open>The providers by their URL; each has its own configuration and its own failures.\<close>

definition put_on_node ::
  "auth_prims \<Rightarrow> (string \<Rightarrow> node_env) \<Rightarrow> (string \<Rightarrow> node_config) \<Rightarrow> int \<Rightarrow> string \<Rightarrow> blob_hash \<Rightarrow> string
    \<Rightarrow> ServerCandidate \<Rightarrow> (string \<Rightarrow> node) \<Rightarrow> bool \<times> (string \<Rightarrow> node)" where
  "put_on_node P E C now authHeader h bytes c nodes =
     (let url = sc_url c;
          (r, s') = handle_put P (E url) (C url) now (proxy_put_request authHeader h bytes url) (nodes url)
      in (axios_ok r, nodes(url := s')))"

section \<open>An accepted upload leaves a row\<close>

lemma to_lower_hex: "is_sha256_hex h \<Longrightarrow> to_lower h = h"
proof -
  have "is_lower_hex c \<Longrightarrow> lower_char c = c" for c
    by (auto simp: is_lower_hex_def lower_char_def Let_def is_digit_def)
  then show "is_sha256_hex h \<Longrightarrow> to_lower h = h"
    by (auto simp: is_sha256_hex_def to_lower_def list_all_iff intro: map_idI)
qed

lemma checks_refuse: "upload_checks C ctx req = Inl r \<Longrightarrow> \<not> axios_ok r"
  by (auto simp: upload_checks_def Let_def errorResponse_def too_large_def no_rule_def axios_ok_def requireAuth_def
      requireXTag_def split: if_splits option.splits sum.splits prod.splits)

lemma checks_plan: "upload_checks C ctx req = Inr p \<Longrightarrow> up_xSha256 p = map_option to_lower (nq_header req ''x-sha-256'')"
  by (auto simp: upload_checks_def Let_def split: if_splits option.splits sum.splits prod.splits)

text \<open>Keys are never lost by an upload.\<close>

abbreviation has_key :: "blob_hash \<Rightarrow> node \<Rightarrow> bool" where
  "has_key k s \<equiv> k \<in> blob_keys (nd_db s)"

lemma framed_key [simp]: "framed (has_key k)"
  by (simp add: framed_def)

lemma key_read: "hoare (has_key k) (db_read E q) (\<lambda>_. has_key k) (has_key k)"
  by (rule hoare_post [OF hoare_db_read]) auto

lemma key_insert: "hoare (has_key k) (db_write E (\<lambda>d. ((), insertBlob b p d))) (\<lambda>_. has_key k) (has_key k)"
  by (rule hoare_db_write) auto

lemma key_abort: "hoare (has_key k) (storage_abortWrite E path) (\<lambda>_. has_key k) X"
  by (rule hoare_abortWrite) auto

lemma key_begin: "hoare (has_key k) (storage_beginWrite E) (\<lambda>_. has_key k) (has_key k)"
  by (rule hoare_beginWrite) auto

lemma key_commit: "hoare (has_key k) (storage_commitWrite E path h ext) (\<lambda>_. has_key k) (has_key k)"
proof -
  have has: "hoare (has_key k) (storage_has E h ext) (\<lambda>_. has_key k) (has_key k)"
    by (rule hoare_post [OF hoare_storage_has]) auto
  have moved: "hoare (has_key k) (call_nd E (\<lambda>s. case nd_tmp s path of None \<Rightarrow> (False, s)
      | Some c \<Rightarrow> (True, s\<lparr>nd_files := (nd_files s)(final := Some c), nd_tmp := (nd_tmp s)(path := None)\<rparr>)))
      (\<lambda>_. has_key k) (has_key k)" for final
    by (rule hoare_call) (auto split: option.split)
  show ?thesis unfolding storage_commitWrite_def rename_tmp_def
    by (intro hoare_bind [OF has] hoare_if key_abort hoare_bind [OF moved] hoare_return hoare_raise)
qed

lemma key_job: "hoare (has_key k) (handleJob E body path x) (\<lambda>_. has_key k) (has_key k)"
proof -
  have run: "hoare (has_key k) (attempt_nd (call_nd E (\<lambda>s. case body of Inl _ \<Rightarrow> (None, s)
      | Inr bytes \<Rightarrow> (Some bytes, s\<lparr>nd_tmp := (nd_tmp s)(path := Some bytes)\<rparr>)))) (\<lambda>_. has_key k) (has_key k)"
    by (rule hoare_attempt, rule hoare_call) (auto split: sum.split)
  show ?thesis unfolding handleJob_def Let_def
    by (intro hoare_bind [OF run] hoare_sum hoare_option hoare_if hoare_bind [OF key_abort] hoare_return)
qed

lemma key_dedup: "hoare (has_key k) (dedup_upload E C req p) (\<lambda>_. has_key k) (has_key k)"
proof -
  have "hoare (has_key k) (case up_auth p of None \<Rightarrow> return_nd ()
       | Some a \<Rightarrow> bind_nd (db_read E (isOwner h (ev_pubkey a))) (\<lambda>owner.
           if owner then return_nd () else db_write E (\<lambda>d. ((), insertBlob b (ev_pubkey a) d))))
      (\<lambda>_. has_key k) (has_key k)" for h b
    by (intro hoare_option hoare_return hoare_bind [OF key_read] hoare_if key_insert)
  note owner = this
  show ?thesis unfolding dedup_upload_def Let_def
    by (intro hoare_if hoare_return hoare_bind [OF key_read] hoare_option hoare_bind [OF owner])
qed

lemma key_store: "hoare (has_key k) (store_upload E C now req p) (\<lambda>_. has_key k) (has_key k)"
proof -
  have commit: "hoare (has_key k) (commit_upload E C now req p path bytes h n) (\<lambda>_. has_key k) (has_key k)" for path bytes h n
  proof -
    have "hoare (has_key k) (attempt_nd (storage_commitWrite E path h ext)) (\<lambda>_. has_key k) (has_key k)" for ext
      by (rule hoare_attempt, rule hoare_post [OF key_commit]) auto
    note committed = this
    show ?thesis unfolding commit_upload_def Let_def
      by (intro hoare_bind [OF committed] hoare_sum hoare_bind [OF key_abort] hoare_raise hoare_bind [OF key_insert] hoare_return)
  qed
  show ?thesis unfolding store_upload_def
    by (intro hoare_option hoare_return hoare_bind [OF hoare_get_calls] hoare_if hoare_bind [OF key_begin]
        hoare_bind [OF key_abort] hoare_bind [OF key_job] hoare_sum hoare_prod commit)
qed

lemma key_put: "hoare (has_key k) (put_upload E C now ctx req) (\<lambda>_. has_key k) (has_key k)"
  unfolding put_upload_def
  by (intro hoare_sum hoare_return hoare_bind [OF key_dedup] hoare_option key_store)

text \<open>What the answer of an upload says about the declared hash.\<close>

lemma dedup_has_key:
  assumes "up_xSha256 p = Some h" and "h \<noteq> []"
  shows "hoare (\<lambda>_. True) (dedup_upload E C req p) (\<lambda>r s. r \<noteq> None \<longrightarrow> has_key h s) (\<lambda>_. True)"
proof -
  let ?rest = "\<lambda>known. if \<not> known then return_nd None
    else bind_nd (db_read E (getBlob_node h)) (\<lambda>found. case found of None \<Rightarrow> return_nd None
      | Some existing \<Rightarrow> bind_nd (case up_auth p of None \<Rightarrow> return_nd ()
          | Some a \<Rightarrow> bind_nd (db_read E (isOwner h (ev_pubkey a))) (\<lambda>owner.
              if owner then return_nd () else db_write E (\<lambda>d. ((), insertBlob existing (ev_pubkey a) d))))
          (\<lambda>_. return_nd (Some (plain_response 200 (NbBlob (node_descriptor E (getBaseUrl req (nc_publicDomain C)) existing))))))"
  have owner: "hoare (has_key h) (case up_auth p of None \<Rightarrow> return_nd ()
       | Some a \<Rightarrow> bind_nd (db_read E (isOwner h (ev_pubkey a))) (\<lambda>owner.
           if owner then return_nd () else db_write E (\<lambda>d. ((), insertBlob b (ev_pubkey a) d))))
      (\<lambda>_. has_key h) (has_key h)" for b
    by (intro hoare_option hoare_return hoare_bind [OF key_read] hoare_if key_insert)
  have "hoare (has_key h) (?rest True) (\<lambda>_. has_key h) (has_key h)"
    unfolding if_not_P [OF not_not [THEN iffD2, OF TrueI]]
    by (intro hoare_bind [OF key_read] hoare_option hoare_return hoare_bind [OF owner])
  then have rest: "hoare (\<lambda>s. known = hasBlob h (nd_db s)) (?rest known) (\<lambda>r s. r \<noteq> None \<longrightarrow> has_key h s) (\<lambda>_. True)" for known
    by (cases known) (auto simp: hasBlob_keys intro: hoare_return elim!: hoare_pre [OF hoare_post])
  have read: "hoare (\<lambda>_. True) (db_read E (hasBlob h)) (\<lambda>known s. known = hasBlob h (nd_db s)) (\<lambda>_. True)"
    by (rule hoare_post [OF hoare_db_read]) (auto simp: framed_def)
  have "given (Some h)" using assms(2) by (simp add: given_def)
  then have "dedup_upload E C req p = bind_nd (db_read E (hasBlob h)) ?rest"
    by (simp only: dedup_upload_def Let_def assms(1) option.sel not_True_eq_False if_False)
  then show ?thesis using hoare_bind [OF read rest] by simp
qed

lemma job_hash:
  "hoare (\<lambda>_. True) (handleJob E body path (Some h)) (\<lambda>job _. \<forall>h' n. job = Inr (h', n) \<longrightarrow> h' = h) (\<lambda>_. True)"
proof -
  have abort: "hoare (\<lambda>_. True) (storage_abortWrite E path) (\<lambda>_ _. True) (\<lambda>_. True)"
    by (rule hoare_abortWrite) (auto simp: framed_def)
  have run: "hoare (\<lambda>_. True) (attempt_nd m) (\<lambda>_ _. True) (\<lambda>_. True)" for m :: "'a nd"
    by (auto simp: hoare_def attempt_nd_def split: prod.splits)
  show ?thesis unfolding handleJob_def Let_def
    by (intro hoare_bind [OF run] hoare_sum hoare_option hoare_if hoare_bind [OF abort] hoare_return) auto
qed

lemma commit_has_key:
  "hoare (\<lambda>_. True) (commit_upload E C now req p path bytes h n) (\<lambda>_. has_key h) (\<lambda>_. True)"
proof -
  have run: "hoare (\<lambda>_. True) (attempt_nd m) (\<lambda>_ _. True) (\<lambda>_. True)" for m :: "'a nd"
    by (auto simp: hoare_def attempt_nd_def split: prod.splits)
  have abort: "hoare (\<lambda>_. True) (storage_abortWrite E path) (\<lambda>_ _. True) (\<lambda>_. True)"
    by (rule hoare_abortWrite) (auto simp: framed_def)
  have insert: "hoare (\<lambda>_. True) (db_write E (\<lambda>d. ((), insertBlob b owner d))) (\<lambda>_. has_key h) (\<lambda>_. True)"
    if "br_sha256 b = h" for b owner
    by (rule hoare_db_write) (auto simp: framed_def that)
  show ?thesis unfolding commit_upload_def Let_def
    by (intro hoare_bind [OF run] hoare_sum hoare_bind [OF abort] hoare_raise hoare_bind [OF insert] hoare_return) simp_all
qed

lemma store_has_key:
  assumes "up_xSha256 p = Some h" and "h \<noteq> []"
  shows "hoare (\<lambda>_. True) (store_upload E C now req p) (\<lambda>r s. axios_ok r \<longrightarrow> has_key h s) (\<lambda>_. True)"
proof -
  have abort: "hoare (\<lambda>_. True) (storage_abortWrite E path) (\<lambda>_ _. True) (\<lambda>_. True)" for path
    by (rule hoare_abortWrite) (auto simp: framed_def)
  have begin': "hoare (\<lambda>_. True) (storage_beginWrite E) (\<lambda>_ _. True) (\<lambda>_. True)"
    by (rule hoare_beginWrite) (auto simp: framed_def)
  have commit: "hoare (\<lambda>_. \<forall>h' n. Inr (h0, n0) = Inr (h', n) \<longrightarrow> h' = h) (commit_upload E C now req p path bytes h0 n0)
      (\<lambda>r s. axios_ok r \<longrightarrow> has_key h s) (\<lambda>_. True)" for path bytes h0 n0
    by (cases "h0 = h") (auto intro: hoare_post [OF hoare_pre [OF commit_has_key]] simp: hoare_def [of "\<lambda>_. False"])
  have no_check: "\<not> (up_auth p \<noteq> None \<and> \<not> given (Some h))" using assms by (simp add: given_def)
  show ?thesis unfolding store_upload_def assms(1) if_not_P [OF no_check] option.case
    apply (rule hoare_option, rule hoare_return, simp add: axios_ok_def errorResponse_def)
    apply (rule hoare_bind [OF hoare_get_calls], rule hoare_if, rule hoare_return, simp add: axios_ok_def errorResponse_def busy_def)
    apply (rule hoare_bind [OF begin'], rule hoare_bind [OF hoare_get_calls], rule hoare_if)
     apply (rule hoare_bind [OF abort], rule hoare_return, simp add: axios_ok_def errorResponse_def busy_def)
    apply (rule hoare_bind [OF job_hash], rule hoare_sum)
     apply (rule hoare_bind [OF hoare_pre [OF abort]], simp, rule hoare_return)
     apply (simp add: axios_ok_def errorResponse_def split: worker_error.split)
    apply (rule hoare_prod, rule hoare_pre [OF commit], simp)
    done
qed

lemma put_has_key:
  assumes "nq_header req ''x-sha-256'' = Some h" and "is_sha256_hex h"
  shows "hoare (\<lambda>_. True) (put_upload E C now ctx req) (\<lambda>r s. axios_ok r \<longrightarrow> has_key h s) (\<lambda>_. True)"
  unfolding put_upload_def
proof (rule hoare_sum)
  fix r assume "upload_checks C ctx req = Inl r"
  then show "hoare (\<lambda>_. True) (return_nd r) (\<lambda>r s. axios_ok r \<longrightarrow> has_key h s) (\<lambda>_. True)"
    using checks_refuse by (auto intro: hoare_return)
next
  fix p assume "upload_checks C ctx req = Inr p"
  then have p: "up_xSha256 p = Some h" "h \<noteq> []"
    using checks_plan assms to_lower_hex by (auto simp: is_sha256_hex_def)
  show "hoare (\<lambda>_. True) (bind_nd (dedup_upload E C req p)
      (\<lambda>done'. case done' of Some r \<Rightarrow> return_nd r | None \<Rightarrow> store_upload E C now req p))
      (\<lambda>r s. axios_ok r \<longrightarrow> has_key h s) (\<lambda>_. True)"
    by (rule hoare_bind [OF dedup_has_key [OF p]], rule hoare_option)
      (auto intro: hoare_return hoare_pre [OF store_has_key [OF p]])
qed

section \<open>Exceptions\<close>

definition other_exn :: "'a nd \<Rightarrow> bool" where
  "other_exn m \<longleftrightarrow> (\<forall>s e s'. m s = (Inl e, s') \<longrightarrow> e = OtherEx)"

named_theorems exn_rules

lemma other_return [exn_rules]: "other_exn (return_nd x)"
  by (simp add: other_exn_def return_nd_def)

lemma other_raise [exn_rules]: "other_exn (raise_nd OtherEx)"
  by (simp add: other_exn_def raise_nd_def)

lemma other_get [exn_rules]: "other_exn get_calls"
  by (simp add: other_exn_def get_calls_def)

lemma other_call [exn_rules]: "other_exn (call_nd E f)"
  by (auto simp: other_exn_def call_nd_def Let_def split: if_splits prod.splits)

lemma other_attempt [exn_rules]: "other_exn (attempt_nd m)"
  by (simp add: other_exn_def attempt_nd_def split: prod.splits)

lemma other_bind [exn_rules]: "other_exn m \<Longrightarrow> (\<And>x. other_exn (f x)) \<Longrightarrow> other_exn (bind_nd m f)"
  by (auto simp: other_exn_def bind_nd_def split: prod.splits sum.splits)

lemma other_if [exn_rules]: "(b \<Longrightarrow> other_exn m) \<Longrightarrow> (\<not> b \<Longrightarrow> other_exn n) \<Longrightarrow> other_exn (if b then m else n)"
  by simp

lemma other_option [exn_rules]:
  "(v = None \<Longrightarrow> other_exn m) \<Longrightarrow> (\<And>x. v = Some x \<Longrightarrow> other_exn (f x)) \<Longrightarrow> other_exn (case v of None \<Rightarrow> m | Some x \<Rightarrow> f x)"
  by (cases v) simp_all

lemma other_sum [exn_rules]:
  "(\<And>x. v = Inl x \<Longrightarrow> other_exn (f x)) \<Longrightarrow> (\<And>x. v = Inr x \<Longrightarrow> other_exn (g x)) \<Longrightarrow> other_exn (case v of Inl x \<Rightarrow> f x | Inr x \<Rightarrow> g x)"
  by (cases v) simp_all

lemma other_prod [exn_rules]: "(\<And>x y. v = (x, y) \<Longrightarrow> other_exn (f x y)) \<Longrightarrow> other_exn (case v of (x, y) \<Rightarrow> f x y)"
  by (cases v) simp

lemma other_catch:
  assumes "other_exn m" and "\<And>x. other_exn (f (Inr x))" and "other_exn (f (Inl OtherEx))"
  shows "other_exn (bind_nd (attempt_nd m) f)"
  unfolding other_exn_def
proof (intro allI impI)
  fix s e s' assume run: "bind_nd (attempt_nd m) f s = (Inl e, s')"
  obtain r s1 where m: "m s = (r, s1)" by fastforce
  show "e = OtherEx"
  proof (cases r)
    case (Inl e1)
    then have "e1 = OtherEx" using assms(1) m by (auto simp: other_exn_def)
    with Inl m run assms(3) show ?thesis by (auto simp: bind_nd_def attempt_nd_def other_exn_def)
  next
    case (Inr x)
    with m run assms(2) show ?thesis by (auto simp: bind_nd_def attempt_nd_def other_exn_def)
  qed
qed

lemma other_ops [exn_rules]:
  "other_exn (db_read E q)" "other_exn (db_write E w)" "other_exn (storage_abortWrite E path)"
  "other_exn (storage_beginWrite E)" "other_exn (handleJob E body path x)"
  unfolding db_read_def db_write_def storage_abortWrite_def storage_beginWrite_def handleJob_def Let_def
  by (intro exn_rules)+

lemma other_commitWrite: "other_exn (storage_commitWrite E path h ext)"
  unfolding storage_commitWrite_def storage_has_def rename_tmp_def by (intro exn_rules)

lemma other_commit [exn_rules]: "other_exn (commit_upload E C now req p path bytes h n)"
  unfolding commit_upload_def Let_def
  by (rule other_catch [OF other_commitWrite]; simp only: sum.case; intro exn_rules)

lemma put_exn: "other_exn (put_upload E C now ctx req)"
  unfolding put_upload_def dedup_upload_def store_upload_def Let_def by (intro exn_rules)

lemma middleware_refuses: "authMiddleware P pd now hdr host = Inl e \<Longrightarrow> \<not> axios_ok (app_onError e)"
  by (auto simp: authMiddleware_def parseAuthEvent_def Let_def axios_ok_def errorResponse_def
      split: option.splits if_splits sum.splits node_exn.splits auth_value.splits)

lemma handle_put_key:
  assumes "handle_put P E C now req s = (r, s')" and "nq_header req ''x-sha-256'' = Some h" and "is_sha256_hex h" and "axios_ok r"
  shows "has_key h s'"
proof -
  from assms(1,4) obtain ctx where run: "run_node (put_upload E C now ctx req) s = (r, s')"
    by (auto simp: handle_put_def split: sum.splits dest: middleware_refuses)
  obtain x s1 where p: "put_upload E C now ctx req s = (x, s1)" by fastforce
  show ?thesis
  proof (cases x)
    case (Inl e)
    then have "e = OtherEx" using put_exn [of E C now ctx req, unfolded other_exn_def] p by blast
    then show ?thesis using run p Inl assms(4) by (auto simp: run_node_def axios_ok_def errorResponse_def)
  next
    case (Inr resp)
    then show ?thesis using hoareD [OF put_has_key [OF assms(2,3)] TrueI] p run assms(4) by (auto simp: run_node_def)
  qed
qed

lemma handle_put_state: "snd (handle_put P E C now req s) = s \<or> (\<exists>ctx. snd (handle_put P E C now req s) = snd (put_upload E C now ctx req s))"
  by (auto simp: handle_put_def run_node_def split: sum.split prod.split) (metis snd_conv)+

lemma put_on_node_snd:
  "snd (put_on_node P E C now hdr h bytes c nodes) = nodes(sc_url c :=
     snd (handle_put P (E (sc_url c)) (C (sc_url c)) now (proxy_put_request hdr h bytes (sc_url c)) (nodes (sc_url c))))"
  by (simp add: put_on_node_def Let_def split: prod.split)

lemma put_request_hash [simp]: "nq_header (proxy_put_request hdr h bytes host) ''x-sha-256'' = Some h"
  by (simp add: proxy_put_request_def)

interpretation provider: provider_put "put_on_node P E C now hdr h bytes"
  "\<lambda>nodes c. is_sha256_hex h \<longrightarrow> has_key h (nodes (sc_url c))" for P E C now hdr h bytes
proof
  fix c nodes nodes'
  assume "put_on_node P E C now hdr h bytes c nodes = (True, nodes')"
  then show "is_sha256_hex h \<longrightarrow> has_key h (nodes' (sc_url c))"
    by (auto simp: put_on_node_def Let_def split: prod.splits intro: handle_put_key)
next
  fix nodes c c'
  assume "is_sha256_hex h \<longrightarrow> has_key h (nodes (sc_url c))"
  then show "is_sha256_hex h \<longrightarrow> has_key h (snd (put_on_node P E C now hdr h bytes c' nodes) (sc_url c))"
    using handle_put_state hoare_state [OF key_put] by (auto simp: put_on_node_snd) metis
qed

lemma upload_loop_inv:
  assumes "\<And>c nodes. I nodes \<Longrightarrow> I (snd (put c nodes))"
  shows "I nodes \<Longrightarrow> I (snd (snd (upload_loop put n now k remaining stored tried nodes)))"
proof (induction "length remaining" arbitrary: remaining stored tried nodes rule: less_induct)
  case less
  show ?case
  proof (cases "remaining = [] \<or> \<not> length stored < k")
    case True
    then show ?thesis using less.prems by (auto simp: upload_loop.simps)
  next
    case False
    then obtain c where c: "selectOwner n remaining now = Some c" by (auto simp: selectOwner_def Let_def)
    obtain ok m where p: "put c nodes = (ok, m)" by fastforce
    have "I m" using assms [OF less.prems, of c] p by simp
    with less.hyps [OF remove1_shorter [OF selectOwner_in [OF c]]] show ?thesis
      using False c p by (cases ok) (simp_all add: upload_loop.simps [of put n now k remaining])
  qed
qed

lemma uploadBlob_inv:
  assumes "\<And>c nodes. I nodes \<Longrightarrow> I (snd (put c nodes))" and "I nodes"
    and "uploadBlob put n now k cs nodes = (r, nodes')"
  shows "I nodes'"
proof -
  obtain st tr nodes1 where loop: "upload_loop put n now k cs [] [] nodes = (st, tr, nodes1)" by (metis prod_cases3)
  then have "I nodes1" using upload_loop_inv [of I put nodes n now k cs "[]" "[]", OF assms(1,2)] by simp
  with assms(2,3) loop show ?thesis by (simp add: uploadBlob_def split: if_splits)
qed

lemma handle_put_ok:
  assumes "node_ok E B s" and "hashes_ok E B" and "body_in B req"
  shows "node_ok E B (snd (handle_put P E C now req s))"
  using handle_put_state [of P E C now req s]
proof
  assume "\<exists>ctx. snd (handle_put P E C now req s) = snd (put_upload E C now ctx req s)"
  then show ?thesis using hoare_state [OF put_keeps [OF assms(2,3)] assms(1)] by auto
qed (simp add: assms(1))

section \<open>Downloads\<close>

lemma get_serves:
  assumes "node_ok E B s" and "hashes_ok E B" and "reliable E" and "\<And>c. concat (ne_chunks E c) = c"
    and "has_key h s" and "find_hash filename = Some h"
    and "\<not> given (nq_header req ''if-none-match'')" and "\<not> given (nq_header req ''range'')"
  shows "\<exists>c \<in> B. ne_sha256 E c = h \<and> (\<exists>r s'. get_blob E now False filename req s = (Inr (Some r), s')
    \<and> rs_status r = 200 \<and> rs_body r = NbBytes c)"
proof -
  from assms(5) obtain r where r: "r \<in> set (nd_blobs (nd_db s))" "nr_sha256 r = h" by (auto simp: blob_keys_def)
  obtain c where c: "c \<in> B" "nd_files s (row_path E r) = Some c" "ne_sha256 E c = nr_sha256 r"
    by (rule node_ok_row [OF assms(1) r(1)])
  have "distinct (map nr_sha256 (nd_blobs (nd_db s)))" using assms(1) by (simp add: node_ok_def node_tables_ok_def)
  with r have row: "getBlob_node h (nd_db s) = Some (row_record r)"
    using find_row_unique [of nr_sha256 "nd_blobs (nd_db s)" r] by (simp add: getBlob_node_def)
  have path: "blobPath h (mimeToExt E (br_type (row_record r))) = row_path E r"
    using r(2) by (simp add: row_path_def row_record_def)
  have touched: "\<exists>s'. touch E h now t = (Inr (), s') \<and> nd_files s' = nd_files t" for t
    by (simp add: touch_def nd_simps Let_def case_prod_beta assms(3) split: option.split)
  show ?thesis
    using c r(2) touched [of "s\<lparr>nd_calls := Suc (Suc (nd_calls s))\<rparr>"] assms(3,4,7,8) row path
    by (auto simp: get_blob_def assms(6) nd_simps Let_def storage_has_def send_blob_def storage_read_def none_match_def
        intro!: bexI [of _ c])
qed

lemma find_hash_self: "is_sha256_hex h \<Longrightarrow> find_hash h = Some h"
  by (cases h) (auto simp: is_sha256_hex_def)

text \<open>The request of \<open>axios.get\<close> in \<open>openBlobStream\<close>: no conditional headers and no range.\<close>

definition proxy_get_request :: "string \<Rightarrow> NodeRequest" where
  "proxy_get_request host = \<lparr>nq_header = (\<lambda>_. None)(''host'' := Some host), nq_urlProtocol = ''http:'', nq_urlHost = host, nq_body = None\<rparr>"

section \<open>Property\<close>

text \<open>
  C36. Uploading through the placement loop of the proxy to real storage nodes. Let every node
  be in a state its handlers can reach, with its own configuration, and let any call of any
  node fail during the upload. If the loop reports replicas, there is at least one, and every
  provider it names then answers a download of the hash, when that runs without failures, with
  status 200 and exactly the uploaded bytes. So the nodes implement the providers the proxy is
  verified with, which only have a set of hashes.
\<close>

theorem replicas_serve_upload:
  assumes "is_sha256_hex h" and "bytes \<in> B" and "\<And>url. hashes_ok (E url) B" and "\<And>url. ne_sha256 (E url) bytes = h"
    and "\<And>url c. concat (ne_chunks (E url) c) = c" and "\<And>url. node_ok (E url) B (nodes url)"
    and "uploadBlob (put_on_node P E C now authHeader h bytes) n slot k cs nodes = (Inr replicas, nodes')"
  shows "replicas \<noteq> [] \<and> (\<forall>i \<in> set replicas. \<exists>c \<in> set cs. sc_id c = i
    \<and> (\<exists>r s'. get_blob ((E (sc_url c))\<lparr>ne_fails := (\<lambda>_. False)\<rparr>) later False h (proxy_get_request (sc_url c)) (nodes' (sc_url c))
          = (Inr (Some r), s') \<and> rs_status r = 200 \<and> rs_body r = NbBytes bytes))"
proof -
  let ?I = "\<lambda>nodes. \<forall>url. node_ok (E url) B (nodes url)"
  have "body_in B (proxy_put_request authHeader h bytes url)" for url
    using assms(2) by (simp add: body_in_def proxy_put_request_def)
  then have "?I (snd (put_on_node P E C now authHeader h bytes c nodes))" if "?I nodes" for c nodes
    using that assms(3) by (simp add: put_on_node_snd handle_put_ok)
  from uploadBlob_inv [of ?I, OF this _ assms(7)] assms(6) have ok: "?I nodes'" by blast
  have served: "\<exists>r s'. get_blob ((E url)\<lparr>ne_fails := (\<lambda>_. False)\<rparr>) later False h (proxy_get_request url) (nodes' url)
      = (Inr (Some r), s') \<and> rs_status r = 200 \<and> rs_body r = NbBytes bytes" if "has_key h (nodes' url)" for url
  proof -
    let ?E = "(E url)\<lparr>ne_fails := (\<lambda>_. False)\<rparr>"
    have "reliable ?E" "hashes_ok ?E B" using assms(3) [of url] by (simp_all add: reliable_def hashes_ok_def)
    have paths: "row_path ?E r = row_path (E url) r" for r
      by (cases "nr_type r") (simp_all add: row_path_def mimeToExt_def)
    have "node_ok (E url) B (nodes' url)" using ok by blast
    then have "node_ok ?E B (nodes' url)" unfolding node_ok_def paths using \<open>reliable ?E\<close> by simp
    have "\<not> given (nq_header (proxy_get_request url) ''if-none-match'')" "\<not> given (nq_header (proxy_get_request url) ''range'')"
      by (simp_all add: proxy_get_request_def given_def)
    from get_serves [where now = later, OF \<open>node_ok ?E B (nodes' url)\<close> \<open>hashes_ok ?E B\<close> \<open>reliable ?E\<close> _ that find_hash_self [OF assms(1)] this]
    obtain c where c: "c \<in> B" "ne_sha256 ?E c = h" "\<exists>r s'. get_blob ?E later False h (proxy_get_request url) (nodes' url)
        = (Inr (Some r), s') \<and> rs_status r = 200 \<and> rs_body r = NbBytes c"
      using assms(5) by auto
    then have "c = bytes" using assms(2,3,4) by (auto simp: hashes_ok_def inj_on_def)
    with c show ?thesis by blast
  qed
  from provider.uploadBlob_holds [OF assms(7)] assms(1) served show ?thesis by blast
qed

definition one_hash :: blob_hash where
  "one_hash = replicate 64 (CHR ''0'')"

definition one_env :: node_env where
  "one_env = prune_env\<lparr>ne_sha256 := (\<lambda>_. one_hash)\<rparr>"

definition one_config :: node_config where
  "one_config = \<lparr>nc_publicDomain = [], nc_rules = [], nc_removeWhenNoOwners = True, nc_uploadEnabled = True,
     nc_uploadRequireAuth = False, nc_maxSize = 9, nc_requirePubkeyInRule = False, nc_deleteRequireAuth = False,
     nc_listEnabled = False, nc_listRequireAuth = False, nc_allowListOthers = True\<rparr>"

definition one_prims :: auth_prims where
  "one_prims = \<lparr>ap_decode = (\<lambda>_. Undecodable), ap_verifyEvent = (\<lambda>_. False), ap_hostname = (\<lambda>_. None)\<rparr>"

definition one_roster :: "ServerCandidate list" where
  "one_roster = [\<lparr>sc_id = ''a'', sc_url = ''u''\<rparr>]"

lemma one_upload:
  "fst (uploadBlob (put_on_node one_prims (\<lambda>_. one_env) (\<lambda>_. one_config) 5 [] one_hash ''x'') ''n'' 5 2 one_roster (\<lambda>_. empty_node))
    = Inr [''a'']"
  by code_simp

theorem replicas_serve_upload_witness:
  "\<exists>nodes' r s'. fst (uploadBlob (put_on_node one_prims (\<lambda>_. one_env) (\<lambda>_. one_config) 5 [] one_hash ''x'') ''n'' 5 2 one_roster (\<lambda>_. empty_node))
      = Inr [''a'']
    \<and> get_blob (one_env\<lparr>ne_fails := (\<lambda>_. False)\<rparr>) 7 False one_hash (proxy_get_request ''u'') (nodes' ''u'') = (Inr (Some r), s')
    \<and> rs_status r = 200 \<and> rs_body r = NbBytes ''x''"
proof -
  obtain nodes' where run: "uploadBlob (put_on_node one_prims (\<lambda>_. one_env) (\<lambda>_. one_config) 5 [] one_hash ''x'') ''n'' 5 2
      one_roster (\<lambda>_. empty_node) = (Inr [''a''], nodes')" using one_upload by (metis prod.collapse)
  have hex: "is_sha256_hex one_hash" by code_simp
  then have "hashes_ok one_env {''x''}" by (simp add: hashes_ok_def one_env_def)
  moreover have "node_ok one_env {''x''} empty_node" by (simp add: node_ok_def empty_node_def node_tables_ok_def)
  moreover have "ne_sha256 one_env ''x'' = one_hash" "\<And>c. concat (ne_chunks one_env c) = c"
    by (simp_all add: one_env_def prune_env_def)
  ultimately have "\<exists>r s'. get_blob (one_env\<lparr>ne_fails := (\<lambda>_. False)\<rparr>) 7 False one_hash (proxy_get_request ''u'') (nodes' ''u'')
      = (Inr (Some r), s') \<and> rs_status r = 200 \<and> rs_body r = NbBytes ''x''"
    using replicas_serve_upload [OF hex, of "''x''" "{''x''}" "\<lambda>_. one_env", OF _ _ _ _ _ run, of 7] by (simp add: one_roster_def)
  with one_upload show ?thesis by blast
qed

text \<open>
  C37. Integrity of a storage node. Starting from an empty node, after any sequence of uploads,
  preflights, downloads, deletions, listings and pruning runs, and whatever calls to the database
  or the file system fail in them, every row of the metadata has its file, whose content has the
  hash and the size of the row; every file is named by the hash of its content; and every owner
  and access time belongs to a row. The contents uploaded have no hash collisions.
\<close>

theorem node_integrity:
  assumes "hashes_ok E B" and "(node_step E C B)\<^sup>*\<^sup>* empty_node s"
  shows "(\<forall>r \<in> set (nd_blobs (nd_db s)). \<exists>c \<in> B. nd_files s (row_path E r) = Some c
      \<and> ne_sha256 E c = nr_sha256 r \<and> length c = nr_size r)
    \<and> (\<forall>p c. nd_files s p = Some c \<longrightarrow> (\<exists>ext. p = blobPath (ne_sha256 E c) ext))
    \<and> fst ` set (nd_owners (nd_db s)) \<union> fst ` set (nd_accessed (nd_db s)) \<subseteq> nr_sha256 ` set (nd_blobs (nd_db s))"
proof -
  have "node_ok E B s" using store.reachable_inv [OF refl assms(2)] assms(1) by simp
  then have ok: "node_tables_ok (nd_db s)"
    "\<forall>r \<in> set (nd_blobs (nd_db s)). \<exists>c \<in> B. nd_files s (row_path E r) = Some c \<and> ne_sha256 E c = nr_sha256 r \<and> length c = nr_size r"
    "\<forall>p c. nd_files s p = Some c \<longrightarrow> c \<in> B \<and> (\<exists>ext. p = blobPath (ne_sha256 E c) ext)"
    unfolding node_ok_def by simp_all
  from ok(1) have "fst ` set (nd_owners (nd_db s)) \<union> fst ` set (nd_accessed (nd_db s)) \<subseteq> nr_sha256 ` set (nd_blobs (nd_db s))"
    by (simp add: node_tables_ok_def blob_keys_def)
  with ok(2,3) show ?thesis by (intro conjI) simp_all
qed

definition one_request :: NodeRequest where
  "one_request = proxy_put_request [] one_hash ''x'' ''u''"

lemma one_put_rows: "map nr_sha256 (nd_blobs (nd_db (snd (put_upload one_env one_config 5 None one_request empty_node)))) = [one_hash]"
  by code_simp

lemma one_put_types: "map nr_type (nd_blobs (nd_db (snd (put_upload one_env one_config 5 None one_request empty_node)))) = [None]"
  by code_simp

theorem node_integrity_witness:
  "nd_files (snd (put_upload one_env one_config 5 None one_request empty_node)) one_hash = Some ''x''"
proof -
  let ?s = "snd (put_upload one_env one_config 5 None one_request empty_node)"
  have "is_sha256_hex one_hash" by code_simp
  then have ok: "hashes_ok one_env {''x''}" by (simp add: hashes_ok_def one_env_def)
  have "body_in {''x''} one_request" by (simp add: body_in_def one_request_def proxy_put_request_def)
  then have "(node_step one_env one_config {''x''})\<^sup>*\<^sup>* empty_node ?s" by (intro r_into_rtranclp node_step.put)
  from node_integrity [OF ok this]
  have rows: "\<forall>r \<in> set (nd_blobs (nd_db ?s)). \<exists>c \<in> {''x''}. nd_files ?s (row_path one_env r) = Some c" by blast
  obtain r where r: "nd_blobs (nd_db ?s) = [r]" "nr_sha256 r = one_hash" "nr_type r = None"
    using one_put_rows one_put_types by (cases "nd_blobs (nd_db ?s)") auto
  then have "row_path one_env r = one_hash" by (simp add: row_path_def mimeToExt_def blobPath_def)
  with rows r(1) show ?thesis by auto
qed

end
