(* ===== verification/Mesh_Agent.thy ===== *)
theory Mesh_Agent
  imports Placement Tables
begin

text \<open>
  The Postgres agent of a storage provider, \<open>storage-client/pg-agent\<close>: the batches of row
  operations it applies (\<open>src/apply.ts\<close>), the migrations it replays (\<open>src/schema.ts\<close>) and
  the statements it accepts as queries (\<open>src/query.ts\<close>). The Postgres server is an argument:
  a function that runs a statement on a database of an arbitrary type. A log of events with
  a replay function says what such a database has been through.
\<close>

section \<open>Statements and the server\<close>

text \<open>A value sent to Postgres, and the statements the agent sends.\<close>

datatype pg_value = PgJson json | PgBytes "nat list"

datatype pg_stmt =
    Unsafe "json option" "pg_value list"
  | DeleteById string string
  | Upsert string "(string \<times> pg_value) list" "json list"
  | InsertIgnore string "(string \<times> pg_value) list"

text \<open>
  What the agent uses and does not define: execution of a statement with its error text, the
  catalog queries \<open>columnTypeMap\<close> and \<open>uniqueIndexCovers\<close>, the quoting of identifiers,
  \<open>JSON.parse\<close> and the clock. \<open>pg_strip\<close> is \<open>stripServerGenerators\<close>, whose text
  substitutions are not modelled.
\<close>

record 'p pg_server =
  pg_exec :: "pg_stmt \<Rightarrow> 'p \<Rightarrow> string + 'p"
  pg_types :: "'p \<Rightarrow> string \<Rightarrow> string \<Rightarrow> string option"
  pg_covers :: "'p \<Rightarrow> string \<Rightarrow> json list \<Rightarrow> bool"
  pg_ident :: "json \<Rightarrow> string"
  pg_parse :: "string \<Rightarrow> json option"
  pg_strip :: "string \<Rightarrow> string"
  pg_now :: string

text \<open>
  The bookkeeping tables and the rest of the database, which the statements are about:
  \<open>_mesh_pg_meta\<close> with the keys of operations, its row \<open>schema_version\<close>, a number written
  with \<open>String\<close> and read with \<open>Number\<close>, and \<open>_mesh_pg_migrations\<close>.
\<close>

record 'p agent =
  ag_meta :: "(string \<times> string) list"
  ag_version :: "int option"
  ag_migrations :: "(string \<times> int) list"
  ag_db :: 'p

section \<open>Operations\<close>

datatype op_kind = INSERT | UPDATE | DELETE | RAW

record pg_op =
  op_id :: string
  op_table :: string
  op_kind :: op_kind
  op_rowId :: string
  op_row :: "json option"
  op_conflict :: "string list option"

fun kind_of :: "string \<Rightarrow> op_kind option" where
  "kind_of s =
     (if s = ''INSERT'' then Some INSERT else if s = ''UPDATE'' then Some UPDATE
      else if s = ''DELETE'' then Some DELETE else if s = ''RAW'' then Some RAW else None)"

text \<open>\<open>/^[a-zA-Z_][a-zA-Z0-9_]*$/\<close> or the empty text.\<close>

definition table_name_ok :: "string \<Rightarrow> bool" where
  "table_name_ok t \<longleftrightarrow> (case t of [] \<Rightarrow> True | c # cs \<Rightarrow> is_word_char c \<and> \<not> is_digit c \<and> list_all is_word_char cs)"

fun string_list :: "json list \<Rightarrow> string list option" where
  "string_list [] = Some []"
| "string_list (JStr s # js) = map_option ((#) s) (string_list js)"
| "string_list (_ # _) = None"

text \<open>One element of the body by \<open>OpSchema\<close>.\<close>

definition parse_op :: "json \<Rightarrow> pg_op option" where
  "parse_op j =
     (case (jprop ''id'' j, jprop ''table'' j, jprop ''op'' j, jprop ''rowId'' j) of
        (Some (JStr i), Some (JStr t), Some (JStr k), Some (JStr r)) \<Rightarrow>
          (let row_ok = (case jprop ''row'' j of None \<Rightarrow> True | Some JNull \<Rightarrow> True | Some (JObj _) \<Rightarrow> True | _ \<Rightarrow> False);
               conflict = (case jprop ''conflictColumns'' j of
                   None \<Rightarrow> Some None
                 | Some (JArr js) \<Rightarrow> map_option Some (string_list js)
                 | _ \<Rightarrow> None)
           in case (kind_of k, conflict) of
                (Some kind, Some cc) \<Rightarrow>
                  if i \<noteq> [] \<and> table_name_ok t \<and> row_ok
                  then Some \<lparr>op_id = i, op_table = t, op_kind = kind, op_rowId = r, op_row = jprop ''row'' j, op_conflict = cc\<rparr>
                  else None
              | _ \<Rightarrow> None)
      | _ \<Rightarrow> None)"

fun parse_ops :: "json list \<Rightarrow> pg_op list option" where
  "parse_ops [] = Some []"
| "parse_ops (j # js) =
     (case parse_op j of None \<Rightarrow> None | Some op \<Rightarrow> map_option ((#) op) (parse_ops js))"

definition ApplySchema :: "json option \<Rightarrow> pg_op list option" where
  "ApplySchema body =
     (case body of
        None \<Rightarrow> None
      | Some b \<Rightarrow>
          (case jprop ''ops'' b of
             Some (JArr js) \<Rightarrow> if length js \<le> 500 then parse_ops js else None
           | _ \<Rightarrow> None))"

section \<open>Values\<close>

fun hex_bytes :: "string \<Rightarrow> nat list" where
  "hex_bytes (a # b # cs) = (16 * the (hex_value a) + the (hex_value b)) # hex_bytes cs"
| "hex_bytes _ = []"

definition is_hex_text :: "string \<Rightarrow> bool" where
  "is_hex_text s \<longleftrightarrow> list_all (\<lambda>c. hex_value c \<noteq> None) s \<and> even (length s)"

definition decodeValue :: "'p pg_server \<Rightarrow> json \<Rightarrow> string option \<Rightarrow> pg_value" where
  "decodeValue S v ty =
     (case v of
        JStr s \<Rightarrow>
          (let hex = (if starts_with s [CHR 0x5C, CHR ''x''] then drop 2 s else s) in
           if ty = Some ''bytea'' \<and> is_hex_text hex then PgBytes (hex_bytes hex)
           else if ty = Some ''jsonb'' \<or> ty = Some ''json''
           then PgJson (case pg_parse S s of None \<Rightarrow> v | Some j \<Rightarrow> j)
           else PgJson v)
      | _ \<Rightarrow> PgJson v)"

section \<open>Batches\<close>

text \<open>\<open>(op.row as { sql?: string })?.sql\<close>.\<close>

definition row_sql :: "pg_op \<Rightarrow> json option" where
  "row_sql op = (case op_row op of None \<Rightarrow> None | Some j \<Rightarrow> jprop ''sql'' j)"

fun join_comma :: "string list \<Rightarrow> string" where
  "join_comma [] = []"
| "join_comma [s] = s"
| "join_comma (s # ss) = s @ '', '' @ join_comma ss"

text \<open>\<open>/^where\b/i\<close>.\<close>

definition is_where :: "string \<Rightarrow> bool" where
  "is_where p \<longleftrightarrow> starts_with (to_lower p) ''where'' \<and> (case drop 5 p of [] \<Rightarrow> True | c # _ \<Rightarrow> \<not> is_word_char c)"

definition partial_upsert_sql :: "'p pg_server \<Rightarrow> string \<Rightarrow> string list \<Rightarrow> json list \<Rightarrow> string \<Rightarrow> string" where
  "partial_upsert_sql S table columns conflict predicate =
     (let ident = (\<lambda>c. pg_ident S (JStr c)) in
      ''INSERT INTO '' @ ident table @ '' ('' @ join_comma (map ident columns) @ '') VALUES (''
      @ join_comma (map (\<lambda>i. ''$'' @ show_nat (i + 1)) [0..<length columns])
      @ '') ON CONFLICT ('' @ join_comma (map (pg_ident S) conflict) @ '') '' @ predicate
      @ '' DO UPDATE SET '' @ join_comma (map (\<lambda>c. ident c @ '' = EXCLUDED.'' @ ident c) columns))"

definition insert_stmt :: "'p pg_server \<Rightarrow> 'p \<Rightarrow> pg_op \<Rightarrow> string + pg_stmt" where
  "insert_stmt S db op =
     (let raw = (case op_row op of Some (JObj kvs) \<Rightarrow> kvs | _ \<Rightarrow> []);
          declared = (case map_of raw ''_conflictColumns'' of
              Some (JArr js) \<Rightarrow> Some js
            | _ \<Rightarrow> map_option (map JStr) (op_conflict op));
          predicate = (case map_of raw ''_conflictPredicate'' of Some (JStr p) \<Rightarrow> Some p | _ \<Rightarrow> None);
          row = filter (\<lambda>(c, _). c \<noteq> ''_conflictColumns'' \<and> c \<noteq> ''_conflictPredicate'') raw;
          conflict = (case declared of None \<Rightarrow> [] | Some js \<Rightarrow> js)
      in if predicate \<noteq> None \<and> \<not> is_where (the predicate) then Inl ''invalid conflict predicate''
         else if row = [] then Inl ''empty insert row''
         else
     (let row2 = map (\<lambda>(c, v). (c, decodeValue S v (pg_types S db (to_lower (op_table op)) (to_lower c)))) row
      in if conflict \<noteq> [] \<and> predicate \<noteq> None
         then Inr (Unsafe (Some (JStr (partial_upsert_sql S (op_table op) (map fst row) conflict (the predicate)))) (map snd row2))
         else if conflict \<noteq> [] \<and> pg_covers S db (op_table op) conflict
         then Inr (Upsert (op_table op) row2 conflict)
         else Inr (InsertIgnore (op_table op) row2)))"

text \<open>The statement of an operation. \<open>updateSqlSafe\<close> accepts every text, also a missing one.\<close>

definition op_stmt :: "'p pg_server \<Rightarrow> 'p \<Rightarrow> pg_op \<Rightarrow> string + pg_stmt" where
  "op_stmt S db op =
     (case op_kind op of
        RAW \<Rightarrow> (case row_sql op of
            None \<Rightarrow> Inl ''missing raw sql''
          | Some q \<Rightarrow> if truthy q then Inr (Unsafe (Some q) []) else Inl ''missing raw sql'')
      | DELETE \<Rightarrow> Inr (DeleteById (op_table op) (op_rowId op))
      | UPDATE \<Rightarrow> Inr (Unsafe (row_sql op) [])
      | INSERT \<Rightarrow> insert_stmt S db op)"

text \<open>
  One round of the loop of \<open>POST /apply\<close>: the key of the operation is claimed, and an
  operation whose key was there is skipped.
\<close>

definition op_key :: "string \<Rightarrow> string" where
  "op_key i = ''op:'' @ i"

definition apply_op :: "'p pg_server \<Rightarrow> pg_op \<Rightarrow> 'p agent \<Rightarrow> string + 'p agent" where
  "apply_op S op a =
     (if find_row fst (op_key (op_id op)) (ag_meta a) \<noteq> None then Inr a
      else case op_stmt S (ag_db a) op of
        Inl e \<Rightarrow> Inl e
      | Inr st \<Rightarrow>
          (case pg_exec S st (ag_db a) of
             Inl e \<Rightarrow> Inl e
           | Inr db \<Rightarrow> Inr (a\<lparr>ag_meta := ag_meta a @ [(op_key (op_id op), pg_now S)], ag_db := db\<rparr>)))"

fun apply_ops :: "'p pg_server \<Rightarrow> pg_op list \<Rightarrow> 'p agent \<Rightarrow> string + 'p agent" where
  "apply_ops S [] a = Inr a"
| "apply_ops S (op # ops) a = (case apply_op S op a of Inl e \<Rightarrow> Inl e | Inr a1 \<Rightarrow> apply_ops S ops a1)"

datatype agent_reply = AgApplied nat | AgVersion int | AgError nat string

text \<open>\<open>POST /apply\<close>; a raised error rolls the transaction back.\<close>

definition post_apply :: "'p pg_server \<Rightarrow> json option \<Rightarrow> 'p agent \<Rightarrow> agent_reply \<times> 'p agent" where
  "post_apply S body a =
     (case ApplySchema body of
        None \<Rightarrow> (AgError 400 ''invalid_ops'', a)
      | Some ops \<Rightarrow>
          (case apply_ops S ops a of
             Inl e \<Rightarrow> (AgError 500 e, a)
           | Inr a1 \<Rightarrow> (AgApplied (length ops), a1)))"

section \<open>Migrations\<close>

record migration =
  mg_id :: string
  mg_version :: int
  mg_ddl :: string

text \<open>\<open>ALREADY_EXISTS\<close> and \<open>DOES_NOT_EXIST\<close>.\<close>

definition mentions :: "string list \<Rightarrow> string \<Rightarrow> bool" where
  "mentions ws msg \<longleftrightarrow> list_ex (\<lambda>w. contains_str (to_lower msg) (to_lower w)) ws"

definition ALREADY_EXISTS :: "string list" where
  "ALREADY_EXISTS = [''42P07'', ''42710'', ''42723'', ''42701'', ''42P06'', ''42P04'', ''already exists'']"

definition DOES_NOT_EXIST :: "string list" where
  "DOES_NOT_EXIST = [''42P01'', ''42703'', ''42P02'', ''42704'', ''42602'', ''42883'', ''does not exist'']"

text \<open>
  The loop of \<open>POST /schema\<close>. Every migration is committed on its own, so those before a
  failing one stay. A migration that is known is skipped and does not raise the version.
\<close>

definition record_migration :: "migration \<Rightarrow> 'p \<Rightarrow> 'p agent \<Rightarrow> 'p agent" where
  "record_migration m db a = a\<lparr>ag_migrations := ag_migrations a @ [(mg_id m, mg_version m)], ag_db := db\<rparr>"

definition ddl_stmt :: "'p pg_server \<Rightarrow> string \<Rightarrow> pg_stmt" where
  "ddl_stmt S ddl = Unsafe (Some (JStr (pg_strip S ddl))) []"

fun run_migrations :: "'p pg_server \<Rightarrow> migration list \<Rightarrow> int \<Rightarrow> 'p agent \<Rightarrow> (string + int) \<times> 'p agent" where
  "run_migrations S [] version a = (Inr version, a)"
| "run_migrations S (m # ms) version a =
     (if find_row fst (mg_id m) (ag_migrations a) \<noteq> None then run_migrations S ms version a
      else case pg_exec S (ddl_stmt S (mg_ddl m)) (ag_db a) of
        Inr db \<Rightarrow> run_migrations S ms (max version (mg_version m)) (record_migration m db a)
      | Inl msg \<Rightarrow>
          if mentions ALREADY_EXISTS msg \<or> mentions DOES_NOT_EXIST msg
          then run_migrations S ms (max version (mg_version m)) (record_migration m (ag_db a) a)
          else (Inl msg, a))"

definition currentVersion :: "'p agent \<Rightarrow> int" where
  "currentVersion a = (case ag_version a of None \<Rightarrow> 0 | Some v \<Rightarrow> v)"

definition migration_ok :: "migration \<Rightarrow> bool" where
  "migration_ok m \<longleftrightarrow> mg_id m \<noteq> [] \<and> 0 < mg_version m \<and> mg_ddl m \<noteq> []"

text \<open>\<open>POST /schema\<close> on a body of migrations, with the bounds of \<open>BodySchema\<close>.\<close>

definition post_schema :: "'p pg_server \<Rightarrow> migration list \<Rightarrow> 'p agent \<Rightarrow> agent_reply \<times> 'p agent" where
  "post_schema S ms a =
     (if \<not> (length ms \<le> 200 \<and> list_all migration_ok ms) then (AgError 400 ''invalid_migrations'', a)
      else case run_migrations S ms (currentVersion a) a of
        (Inl e, a1) \<Rightarrow> (AgError 500 e, a1)
      | (Inr v, a1) \<Rightarrow> (AgVersion v, a1\<lparr>ag_version := Some v\<rparr>))"

section \<open>Access\<close>

text \<open>The check of the bearer token in \<open>main.ts\<close>; \<open>None\<close> lets the request through.\<close>

definition strip_bearer :: "string \<Rightarrow> string" where
  "strip_bearer h =
     (if starts_with (to_lower h) ''bearer'' \<and> (case drop 6 h of [] \<Rightarrow> False | c # _ \<Rightarrow> is_space c)
      then dropWhile is_space (drop 6 h) else h)"

definition agent_auth :: "string option \<Rightarrow> string \<Rightarrow> string option \<Rightarrow> agent_reply option" where
  "agent_auth token path authHeader =
     (if path = ''/pg/health'' then None
      else if token \<noteq> None \<and> token \<noteq> Some [] \<and> map_option strip_bearer authHeader \<noteq> token
      then Some (AgError 401 ''invalid_token'') else None)"

text \<open>The statements \<open>POST /query\<close> passes on: \<open>/^(select|with)\b/i\<close> and no \<open>/;\s*\S/\<close>.\<close>

definition strip_semicolon :: "string \<Rightarrow> string" where
  "strip_semicolon q = (let r = trim_right q in if r \<noteq> [] \<and> last r = CHR '';'' then butlast r else q)"

definition begins_word :: "string \<Rightarrow> string \<Rightarrow> bool" where
  "begins_word w s \<longleftrightarrow>
     starts_with (to_lower s) w \<and> (case drop (length w) s of [] \<Rightarrow> True | c # _ \<Rightarrow> \<not> is_word_char c)"

fun second_statement :: "string \<Rightarrow> bool" where
  "second_statement [] = False"
| "second_statement (c # cs) = (c = CHR '';'' \<and> dropWhile is_space cs \<noteq> [] \<or> second_statement cs)"

definition query_allowed :: "string \<Rightarrow> string option" where
  "query_allowed q =
     (let text = strip_semicolon (trim q) in
      if (begins_word ''select'' text \<or> begins_word ''with'' text) \<and> \<not> second_statement text then Some text else None)"

section \<open>What a database has been through\<close>

text \<open>The statements that took effect, as events, and their execution without any bookkeeping.\<close>

datatype agent_event = EvOp pg_op | EvDdl string

fun event_exec :: "'p pg_server \<Rightarrow> agent_event \<Rightarrow> 'p \<Rightarrow> string + 'p" where
  "event_exec S (EvOp op) db = (case op_stmt S db op of Inl e \<Rightarrow> Inl e | Inr st \<Rightarrow> pg_exec S st db)"
| "event_exec S (EvDdl ddl) db = pg_exec S (ddl_stmt S ddl) db"

fun replay :: "'p pg_server \<Rightarrow> agent_event list \<Rightarrow> 'p \<Rightarrow> 'p option" where
  "replay S [] db = Some db"
| "replay S (e # es) db = (case event_exec S e db of Inl _ \<Rightarrow> None | Inr db' \<Rightarrow> replay S es db')"

definition ops_in :: "agent_event list \<Rightarrow> pg_op list" where
  "ops_in L = List.map_filter (\<lambda>e. case e of EvOp op \<Rightarrow> Some op | EvDdl _ \<Rightarrow> None) L"

text \<open>
  \<open>L\<close> is a history of the agent from the database \<open>db0\<close>: replayed it gives the database, no
  operation is in it twice, and the keys on record are those of its operations.
\<close>

definition history :: "'p pg_server \<Rightarrow> 'p \<Rightarrow> agent_event list \<Rightarrow> 'p agent \<Rightarrow> bool" where
  "history S db0 L a \<longleftrightarrow> replay S L db0 = Some (ag_db a) \<and> distinct (map op_id (ops_in L))
     \<and> fst ` set (ag_meta a) = op_key ` op_id ` set (ops_in L)"

definition applied :: "'p agent \<Rightarrow> string \<Rightarrow> bool" where
  "applied a i \<longleftrightarrow> op_key i \<in> fst ` set (ag_meta a)"

lemma op_key_inj [simp]: "op_key i = op_key j \<longleftrightarrow> i = j"
  by (simp add: op_key_def)

lemma ops_in_simps [simp]:
  "ops_in [] = []" "ops_in (L @ L') = ops_in L @ ops_in L'" "ops_in (EvOp op # L) = op # ops_in L" "ops_in (EvDdl d # L) = ops_in L"
  by (simp_all add: ops_in_def List.map_filter_def)

lemma replay_append: "replay S (L @ L') db = Option.bind (replay S L db) (replay S L')"
  by (induction S L db rule: replay.induct) (auto split: sum.split)

lemma history_applied: "history S db0 L a \<Longrightarrow> applied a i \<longleftrightarrow> i \<in> op_id ` set (ops_in L)"
  by (auto simp: history_def applied_def)

text \<open>A batch extends the history by those of its operations that were not applied before.\<close>

lemma apply_op_history:
  assumes "history S db0 L a" and "apply_op S op a = Inr a'"
  shows "history S db0 (L @ (if applied a (op_id op) then [] else [EvOp op])) a'"
proof (cases "applied a (op_id op)")
  case True
  then have "find_row fst (op_key (op_id op)) (ag_meta a) \<noteq> None"
    by (simp add: applied_def find_row_None_iff)
  with assms True show ?thesis by (simp add: apply_op_def)
next
  case False
  then have new: "find_row fst (op_key (op_id op)) (ag_meta a) = None"
    by (simp add: applied_def find_row_None_iff)
  with assms(2) obtain st db where st: "op_stmt S (ag_db a) op = Inr st" "pg_exec S st (ag_db a) = Inr db"
    "a' = a\<lparr>ag_meta := ag_meta a @ [(op_key (op_id op), pg_now S)], ag_db := db\<rparr>"
    by (auto simp: apply_op_def split: sum.splits)
  have "op_id op \<notin> op_id ` set (ops_in L)" using False history_applied [OF assms(1)] by simp
  with assms(1) st False show ?thesis by (auto simp: history_def replay_append)
qed

lemma apply_ops_history:
  assumes "history S db0 L a" and "apply_ops S ops a = Inr a'"
  shows "\<exists>L'. history S db0 (L @ L') a' \<and> set (ops_in L') \<subseteq> set ops \<and> (\<forall>op \<in> set ops. applied a' (op_id op))"
  using assms
proof (induction ops arbitrary: L a)
  case Nil
  then show ?case by (intro exI [of _ "[]"]) simp
next
  case (Cons op ops)
  from Cons.prems(2) obtain a1 where a1: "apply_op S op a = Inr a1" "apply_ops S ops a1 = Inr a'"
    by (auto split: sum.splits)
  let ?E = "if applied a (op_id op) then [] else [EvOp op]"
  have h1: "history S db0 (L @ ?E) a1" by (rule apply_op_history [OF Cons.prems(1) a1(1)])
  from Cons.IH [OF h1 a1(2)] obtain L' where L': "history S db0 ((L @ ?E) @ L') a'"
    "set (ops_in L') \<subseteq> set ops" "\<forall>op \<in> set ops. applied a' (op_id op)" by blast
  have "op_id op \<in> op_id ` set (ops_in (L @ ?E))"
    using history_applied [OF Cons.prems(1), of "op_id op"] by auto
  then have "applied a' (op_id op)" using history_applied [OF L'(1)] by auto
  with L' show ?case by (intro exI [of _ "?E @ L'"]) auto
qed

lemma run_migrations_history:
  assumes "history S db0 L a" and "run_migrations S ms v a = (r, a')"
  shows "\<exists>L'. history S db0 (L @ L') a' \<and> ops_in L' = []"
  using assms
proof (induction S ms v a arbitrary: L rule: run_migrations.induct)
  case (1 S version a)
  then show ?case by (intro exI [of _ "[]"]) simp
next
  case (2 S m ms version a)
  let ?x = "pg_exec S (ddl_stmt S (mg_ddl m)) (ag_db a)"
  consider (known) "find_row fst (mg_id m) (ag_migrations a) \<noteq> None"
    | (ran) db where "find_row fst (mg_id m) (ag_migrations a) = None" "?x = Inr db"
    | (there) msg where "find_row fst (mg_id m) (ag_migrations a) = None" "?x = Inl msg"
        "mentions ALREADY_EXISTS msg \<or> mentions DOES_NOT_EXIST msg"
    | (bad) msg where "find_row fst (mg_id m) (ag_migrations a) = None" "?x = Inl msg"
        "\<not> (mentions ALREADY_EXISTS msg \<or> mentions DOES_NOT_EXIST msg)"
    by (cases "find_row fst (mg_id m) (ag_migrations a) = None"; cases ?x) blast+
  then show ?case
  proof cases
    case known
    with 2 show ?thesis by simp
  next
    case ran
    have "history S db0 (L @ [EvDdl (mg_ddl m)]) (record_migration m db a)"
      using 2(4) ran by (simp add: history_def replay_append record_migration_def)
    with 2(3) [OF _ ran(2) this] 2(5) ran obtain L' where
      "history S db0 ((L @ [EvDdl (mg_ddl m)]) @ L') a'" "ops_in L' = []" by auto
    then show ?thesis by (intro exI [of _ "[EvDdl (mg_ddl m)] @ L'"]) simp
  next
    case there
    have "history S db0 L (record_migration m (ag_db a) a)"
      using 2(4) by (simp add: history_def record_migration_def)
    with 2(2) [OF _ there(2) there(3) this] 2(5) there show ?thesis by auto
  next
    case bad
    with 2 show ?thesis by (intro exI [of _ "[]"]) simp
  qed
qed

lemma record_migration_ids [simp]:
  "fst ` set (ag_migrations (record_migration m db a)) = insert (mg_id m) (fst ` set (ag_migrations a))"
  by (simp add: record_migration_def)

text \<open>What the migration loop records.\<close>

lemma run_migrations_known:
  assumes "run_migrations S ms v a = (Inr v', a')"
  shows "mg_id ` set ms \<subseteq> fst ` set (ag_migrations a') \<and> fst ` set (ag_migrations a) \<subseteq> fst ` set (ag_migrations a')"
  using assms
proof (induction S ms v a rule: run_migrations.induct)
  case (2 S m ms version a)
  show ?case
  proof (cases "find_row fst (mg_id m) (ag_migrations a) = None")
    case False
    then have "mg_id m \<in> fst ` set (ag_migrations a)" by (simp add: find_row_None_iff)
    with 2(1) [OF False] 2(4) False show ?thesis by auto
  next
    case True
    then show ?thesis using 2(2,3,4) by (simp split: sum.splits if_splits)
  qed
qed simp

lemma run_migrations_mono:
  assumes "run_migrations S ms v a = (r, a')"
  shows "fst ` set (ag_migrations a) \<subseteq> fst ` set (ag_migrations a')"
  using assms
proof (induction S ms v a rule: run_migrations.induct)
  case (2 S m ms version a)
  show ?case using 2 by (cases "find_row fst (mg_id m) (ag_migrations a) = None") (auto split: sum.splits if_splits)
qed simp

end
