(* ===== verification/Mesh_Gateway.thy ===== *)
theory Mesh_Gateway
  imports Mesh_Agent "HOL-Library.Product_Lexorder"
begin

text \<open>
  The Postgres gateway, \<open>pg-gateway/src\<close>: the central tables with the write buffer, the
  placement index and the migrations (\<open>central.rs\<close>), the choice of the node that owns a row
  (\<open>registry.rs\<close>), the write path (\<open>pgwirehandler.rs\<close>), the dispatcher that drains the buffer
  (\<open>dispatcher.rs\<close>) and the schema manager (\<open>schema.rs\<close>). The agents are those of
  \<open>Mesh_Agent\<close>, by the URL they are reached at. Every statement on the central database and
  every request to an agent is a call with a fate: it is answered, it does not reach the
  other side, or it takes effect and the answer is lost. The analysis of SQL text
  (\<open>sqlanalyze.rs\<close> over a parser library) is not modelled; its result is an argument.
\<close>

section \<open>Central tables\<close>

record MeshTable =
  mt_name :: string
  mt_columns :: json
  mt_version :: int
  mt_replicaN :: int

record WriteOp =
  wo_id :: string
  wo_table :: string
  wo_op :: string
  wo_rowId :: string
  wo_payload :: "json option"

record write_row = WriteOp +
  wr_createdAt :: int
  wr_retryCount :: nat
  wr_error :: "string option"

record pg_migration = migration +
  pm_applied :: bool

record ActivePgStorage =
  ap_npub :: string
  ap_url :: string

text \<open>The tables of \<open>CENTRAL_SCHEMA_SQL\<close>; timestamps other than \<open>createdAt\<close> are left out.\<close>

record central =
  ce_tables :: "MeshTable list"
  ce_migrations :: "pg_migration list"
  ce_acked :: "(string \<times> int) list"
  ce_writes :: "write_row list"
  ce_placements :: "((string \<times> string) \<times> string list \<times> string) list"

definition get_table :: "string \<Rightarrow> central \<Rightarrow> MeshTable option" where
  "get_table name c = find_row mt_name name (ce_tables c)"

definition next_version :: "central \<Rightarrow> int" where
  "next_version c = foldl max 0 (map mg_version (ce_migrations c)) + 1"

definition new_migration :: "string \<Rightarrow> string \<Rightarrow> central \<Rightarrow> pg_migration" where
  "new_migration i ddl c = \<lparr>mg_id = i, mg_version = next_version c, mg_ddl = ddl, pm_applied = False\<rparr>"

definition add_migration :: "string \<Rightarrow> string \<Rightarrow> central \<Rightarrow> central" where
  "add_migration i ddl c = c\<lparr>ce_migrations := ce_migrations c @ [new_migration i ddl c]\<rparr>"

definition create_table :: "string \<Rightarrow> json \<Rightarrow> int \<Rightarrow> string \<Rightarrow> string \<Rightarrow> central \<Rightarrow> central" where
  "create_table name columns n ddl i c =
     (let v = next_version c;
          c1 = (if get_table name c = None
            then c\<lparr>ce_tables := ce_tables c @ [\<lparr>mt_name = name, mt_columns = columns, mt_version = v, mt_replicaN = n\<rparr>]\<rparr>
            else c\<lparr>ce_tables := update_row mt_name name (\<lambda>t. t\<lparr>mt_columns := columns, mt_version := v\<rparr>) (ce_tables c)\<rparr>)
      in add_migration i ddl c1)"

text \<open>\<open>pending_migrations\<close> and \<open>migrations_since\<close>; versions are handed out once, so the second sort key is not needed.\<close>

definition pending_migrations :: "central \<Rightarrow> migration list" where
  "pending_migrations c = map migration.truncate (sort_key mg_version (filter (\<lambda>m. \<not> pm_applied m) (ce_migrations c)))"

definition migrations_since :: "int \<Rightarrow> central \<Rightarrow> migration list" where
  "migrations_since v c = map migration.truncate (sort_key mg_version (filter (\<lambda>m. v < mg_version m) (ce_migrations c)))"

definition mark_migration_applied :: "string \<Rightarrow> central \<Rightarrow> central" where
  "mark_migration_applied i c = c\<lparr>ce_migrations := update_row mg_id i (\<lambda>m. m\<lparr>pm_applied := True\<rparr>) (ce_migrations c)\<rparr>"

definition record_migration_state :: "string \<Rightarrow> int \<Rightarrow> central \<Rightarrow> central" where
  "record_migration_state n v c = (if (n, v) \<in> set (ce_acked c) then c else c\<lparr>ce_acked := ce_acked c @ [(n, v)]\<rparr>)"

definition provider_schema_version :: "string \<Rightarrow> central \<Rightarrow> int" where
  "provider_schema_version n c = foldl max 0 (map snd (filter (\<lambda>(m, _). m = n) (ce_acked c)))"

definition enqueue_write_op :: "WriteOp \<Rightarrow> int \<Rightarrow> central \<Rightarrow> central option" where
  "enqueue_write_op op now c =
     (if find_row wo_id (wo_id op) (ce_writes c) \<noteq> None then None
      else Some (c\<lparr>ce_writes := ce_writes c @
        [WriteOp.extend op \<lparr>wr_createdAt = now, wr_retryCount = 0, wr_error = None\<rparr>]\<rparr>))"

definition take_write_ops :: "nat \<Rightarrow> central \<Rightarrow> WriteOp list" where
  "take_write_ops n c = map WriteOp.truncate (take n (sort_key (\<lambda>r. (wr_createdAt r, wo_id r)) (ce_writes c)))"

definition record_write_failure :: "string \<Rightarrow> string \<Rightarrow> central \<Rightarrow> central" where
  "record_write_failure i msg c = c\<lparr>ce_writes := update_row wo_id i
     (\<lambda>r. r\<lparr>wr_retryCount := Suc (wr_retryCount r), wr_error := Some msg\<rparr>) (ce_writes c)\<rparr>"

definition delete_write_ops :: "string list \<Rightarrow> central \<Rightarrow> central" where
  "delete_write_ops ids c = c\<lparr>ce_writes := filter (\<lambda>r. wo_id r \<notin> set ids) (ce_writes c)\<rparr>"

definition upsert_placement :: "string \<Rightarrow> string \<Rightarrow> string list \<Rightarrow> string \<Rightarrow> central \<Rightarrow> central" where
  "upsert_placement table row replicas st c = c\<lparr>ce_placements := AList.update (table, row) (replicas, st) (ce_placements c)\<rparr>"

definition get_placement :: "string \<Rightarrow> string \<Rightarrow> central \<Rightarrow> (string list \<times> string) option" where
  "get_placement table row c = map_of (ce_placements c) (table, row)"

section \<open>The owner of a row\<close>

text \<open>The hash is that of the blob placement, on 64-bit words.\<close>

definition select_owner :: "string \<Rightarrow> ActivePgStorage list \<Rightarrow> string list \<Rightarrow> string option" where
  "select_owner row_id providers existing =
     (case find (\<lambda>n. list_ex (\<lambda>p. ap_npub p = n) providers) existing of
        Some owner \<Rightarrow> Some owner
      | None \<Rightarrow>
          if providers = [] then None
          else (let npubs = sort (map ap_npub providers)
                in Some (npubs ! (unat (fnv1a_word row_id) mod length npubs))))"

definition url_of :: "ActivePgStorage list \<Rightarrow> string \<Rightarrow> string" where
  "url_of providers n = (case find (\<lambda>p. ap_npub p = n) providers of None \<Rightarrow> [] | Some p \<Rightarrow> ap_url p)"

section \<open>Calls\<close>

datatype call_fate = Answered | NotReached | AnswerLost

datatype GatewayError = UnsupportedSql string | UnknownTable string | WriteRequiresPk | Central | Provider | NoProviders

text \<open>
  The central tables, the mesh tables the gateway itself keeps, the roster, the agents and
  the number of calls made.
\<close>

record 'p mesh_state =
  me_central :: central
  me_data :: 'p
  me_roster :: "ActivePgStorage list"
  me_agents :: "string \<Rightarrow> 'p agent"
  me_calls :: nat

text \<open>
  \<open>mv_capture\<close> is a statement run on the gateway's own mesh tables, with the rows it returns,
  every value a text or null; \<open>None\<close> is an error, which changes nothing.
\<close>

record 'p mesh_env =
  mv_server :: "'p pg_server"
  mv_fate :: "nat \<Rightarrow> call_fate"
  mv_capture :: "string \<Rightarrow> 'p \<Rightarrow> ((string \<times> string option) list list \<times> 'p) option"
  mv_token :: "string option"
  mv_agentToken :: "string \<Rightarrow> string option"
  mv_broadWrites :: bool

type_synonym ('p, 'a) gw = "'p mesh_state \<Rightarrow> (GatewayError + 'a) \<times> 'p mesh_state"

definition return_gw :: "'a \<Rightarrow> ('p, 'a) gw" where
  "return_gw x w = (Inr x, w)"

definition raise_gw :: "GatewayError \<Rightarrow> ('p, 'a) gw" where
  "raise_gw e w = (Inl e, w)"

definition bind_gw :: "('p, 'a) gw \<Rightarrow> ('a \<Rightarrow> ('p, 'b) gw) \<Rightarrow> ('p, 'b) gw" where
  "bind_gw m f w = (case m w of (Inl e, w') \<Rightarrow> (Inl e, w') | (Inr x, w') \<Rightarrow> f x w')"

definition attempt_gw :: "('p, 'a) gw \<Rightarrow> ('p, GatewayError + 'a) gw" where
  "attempt_gw m w = (case m w of (r, w') \<Rightarrow> (Inr r, w'))"

definition call_gw :: "'p mesh_env \<Rightarrow> GatewayError \<Rightarrow> ('p, 'a) gw \<Rightarrow> ('p, 'a) gw" where
  "call_gw E err f w =
     (let w1 = w\<lparr>me_calls := Suc (me_calls w)\<rparr> in
      case mv_fate E (me_calls w) of
        Answered \<Rightarrow> f w1
      | NotReached \<Rightarrow> (Inl err, w1)
      | AnswerLost \<Rightarrow> (Inl err, snd (f w1)))"

definition ce_read :: "'p mesh_env \<Rightarrow> (central \<Rightarrow> 'a) \<Rightarrow> ('p, 'a) gw" where
  "ce_read E q = call_gw E Central (\<lambda>w. (Inr (q (me_central w)), w))"

definition ce_write :: "'p mesh_env \<Rightarrow> (central \<Rightarrow> central) \<Rightarrow> ('p, unit) gw" where
  "ce_write E q = call_gw E Central (\<lambda>w. (Inr (), w\<lparr>me_central := q (me_central w)\<rparr>))"

definition get_roster :: "('p, ActivePgStorage list) gw" where
  "get_roster w = (Inr (me_roster w), w)"

lemmas gw_simps = return_gw_def raise_gw_def bind_gw_def attempt_gw_def call_gw_def ce_read_def ce_write_def get_roster_def

text \<open>\<open>ProviderClient\<close>: requests to an agent, through the check of its token.\<close>

definition guarded :: "'p mesh_env \<Rightarrow> string \<Rightarrow> string \<Rightarrow> ('p agent \<Rightarrow> agent_reply \<times> 'p agent) \<Rightarrow> 'p agent \<Rightarrow> agent_reply \<times> 'p agent" where
  "guarded E url path f a =
     (case agent_auth (mv_agentToken E url) path (map_option (\<lambda>t. ''Bearer '' @ t) (mv_token E)) of
        Some r \<Rightarrow> (r, a)
      | None \<Rightarrow> f a)"

definition op_json :: "WriteOp \<Rightarrow> json" where
  "op_json op = JObj
     [(''id'', JStr (wo_id op)), (''table'', JStr (wo_table op)), (''op'', JStr (wo_op op)), (''rowId'', JStr (wo_rowId op)),
      (''row'', case wo_payload op of None \<Rightarrow> JNull | Some j \<Rightarrow> j)]"

definition provider_apply :: "'p mesh_env \<Rightarrow> string \<Rightarrow> WriteOp list \<Rightarrow> ('p, unit) gw" where
  "provider_apply E url ops = call_gw E Provider (\<lambda>w.
     case guarded E url ''/pg/apply'' (post_apply (mv_server E) (Some (JObj [(''ops'', JArr (map op_json ops))]))) (me_agents w url) of
       (reply, a) \<Rightarrow> (case reply of AgApplied _ \<Rightarrow> Inr () | _ \<Rightarrow> Inl Provider, w\<lparr>me_agents := (me_agents w)(url := a)\<rparr>))"

definition provider_schema :: "'p mesh_env \<Rightarrow> string \<Rightarrow> migration list \<Rightarrow> ('p, int) gw" where
  "provider_schema E url ms = call_gw E Provider (\<lambda>w.
     case guarded E url ''/pg/schema'' (post_schema (mv_server E) ms) (me_agents w url) of
       (reply, a) \<Rightarrow> (case reply of AgVersion v \<Rightarrow> Inr v | _ \<Rightarrow> Inl Provider, w\<lparr>me_agents := (me_agents w)(url := a)\<rparr>))"

section \<open>The dispatcher\<close>

text \<open>
  The tables of a batch; an operation on an unknown table is dropped. The result is the
  names that were found.
\<close>

fun load_tables :: "'p mesh_env \<Rightarrow> WriteOp list \<Rightarrow> string list \<Rightarrow> ('p, string list) gw" where
  "load_tables E [] known = return_gw known"
| "load_tables E (op # ops) known =
     (if wo_table op \<in> set known then load_tables E ops known
      else bind_gw (ce_read E (get_table (wo_table op))) (\<lambda>t.
        case t of
          Some _ \<Rightarrow> load_tables E ops (wo_table op # known)
        | None \<Rightarrow> bind_gw (ce_write E (delete_write_ops [wo_id op])) (\<lambda>_. load_tables E ops known)))"

text \<open>The loop over the targets, up to the first failure.\<close>

fun apply_targets :: "'p mesh_env \<Rightarrow> ActivePgStorage list \<Rightarrow> WriteOp \<Rightarrow> string list \<Rightarrow> ('p, string list) gw" where
  "apply_targets E providers op [] = return_gw []"
| "apply_targets E providers op (t # ts) =
     bind_gw (attempt_gw (provider_apply E (url_of providers t) [op])) (\<lambda>r.
       case r of
         Inl _ \<Rightarrow> return_gw []
       | Inr _ \<Rightarrow> bind_gw (apply_targets E providers op ts) (\<lambda>acked. return_gw (t # acked)))"

definition dispatch_op :: "'p mesh_env \<Rightarrow> ActivePgStorage list \<Rightarrow> WriteOp \<Rightarrow> ('p, unit) gw" where
  "dispatch_op E providers op =
     bind_gw (ce_read E (get_placement (wo_table op) (wo_rowId op))) (\<lambda>placed.
       case select_owner (wo_rowId op) providers (case placed of None \<Rightarrow> [] | Some (replicas, _) \<Rightarrow> replicas) of
         None \<Rightarrow> ce_write E (record_write_failure (wo_id op) ''no active mesh-PG providers'')
       | Some owner \<Rightarrow>
           bind_gw (apply_targets E providers op [owner]) (\<lambda>acked.
             if 1 \<le> length acked
             then bind_gw (ce_write E (upsert_placement (wo_table op) (wo_rowId op) acked ''ACTIVE'')) (\<lambda>_.
               ce_write E (delete_write_ops [wo_id op]))
             else ce_write E (record_write_failure (wo_id op) ''provider apply incomplete'')))"

fun dispatch_ops :: "'p mesh_env \<Rightarrow> ActivePgStorage list \<Rightarrow> string list \<Rightarrow> WriteOp list \<Rightarrow> ('p, unit) gw" where
  "dispatch_ops E providers known [] = return_gw ()"
| "dispatch_ops E providers known (op # ops) =
     (if wo_table op \<in> set known
      then bind_gw (dispatch_op E providers op) (\<lambda>_. dispatch_ops E providers known ops)
      else dispatch_ops E providers known ops)"

text \<open>One tick. The count it returns is always zero.\<close>

definition tick_dispatcher :: "'p mesh_env \<Rightarrow> nat \<Rightarrow> ('p, nat) gw" where
  "tick_dispatcher E batch_size =
     bind_gw get_roster (\<lambda>providers.
       if providers = [] then return_gw 0
       else bind_gw (ce_read E (take_write_ops batch_size)) (\<lambda>ops.
         if ops = [] then return_gw 0
         else bind_gw (load_tables E ops []) (\<lambda>known.
           bind_gw (dispatch_ops E providers known ops) (\<lambda>_. return_gw 0))))"

end
