(* ===== verification/Mesh_Write.thy ===== *)
theory Mesh_Write
  imports Mesh_Gateway
begin

text \<open>
  What clients of the gateway do to the mesh: the write path and the statements applied to
  every provider (\<open>pgwirehandler.rs\<close>), and the propagation of migrations (\<open>schema.rs\<close>).
\<close>

section \<open>The write path\<close>

text \<open>
  \<open>AnalyzedStatement::Write\<close>. \<open>ws_capture\<close> is the result of \<open>insert_capture_sql\<close> on its text,
  \<open>ws_placeholder\<close> says that the row id is a parameter.
\<close>

record write_stmt =
  ws_kind :: op_kind
  ws_table :: string
  ws_rowId :: string
  ws_sql :: string
  ws_placeholder :: bool
  ws_generate :: bool
  ws_broad :: bool
  ws_conflict :: "string list option"
  ws_predicate :: "string option"
  ws_capture :: "GatewayError + string"

definition pk_column_of :: "MeshTable \<Rightarrow> string" where
  "pk_column_of t =
     (case mt_columns t of
        JArr cs \<Rightarrow>
          (case find (\<lambda>c. jprop ''primaryKey'' c = Some (JBool True)) cs of
             None \<Rightarrow> ''id''
           | Some c \<Rightarrow> (case jprop ''name'' c of Some (JStr n) \<Rightarrow> n | _ \<Rightarrow> ''id''))
      | _ \<Rightarrow> ''id'')"

definition execute_capture :: "'p mesh_env \<Rightarrow> string \<Rightarrow> ('p, (string \<times> string option) list list) gw" where
  "execute_capture E q = call_gw E Central (\<lambda>w.
     case mv_capture E q (me_data w) of
       None \<Rightarrow> (Inl Central, w)
     | Some (rows, d) \<Rightarrow> (Inr rows, w\<lparr>me_data := d\<rparr>))"

definition enqueue :: "'p mesh_env \<Rightarrow> WriteOp \<Rightarrow> int \<Rightarrow> ('p, unit) gw" where
  "enqueue E op now = call_gw E Central (\<lambda>w.
     case enqueue_write_op op now (me_central w) of
       None \<Rightarrow> (Inl Central, w)
     | Some c \<Rightarrow> (Inr (), w\<lparr>me_central := c\<rparr>))"

definition bound_error :: GatewayError where
  "bound_error = UnsupportedSql ''bound-parameter writes are not supported yet; inline the values''"

definition op_name :: "op_kind \<Rightarrow> string" where
  "op_name k = (case k of INSERT \<Rightarrow> ''INSERT'' | UPDATE \<Rightarrow> ''UPDATE'' | DELETE \<Rightarrow> ''DELETE'' | RAW \<Rightarrow> ''RAW'')"

definition write_payload :: "write_stmt \<Rightarrow> string \<Rightarrow> (string \<times> string option) list option \<Rightarrow> json" where
  "write_payload ws pk captured =
     (let base = (case captured of
            None \<Rightarrow> [(''sql'', JStr (ws_sql ws))]
          | Some row \<Rightarrow> map (\<lambda>(k, v). (k, case v of None \<Rightarrow> JNull | Some s \<Rightarrow> JStr s)) row);
          target = (case ws_conflict ws of Some (c # cs) \<Rightarrow> c # cs | _ \<Rightarrow> [pk]);
          with_target = AList.update ''_conflictColumns'' (JArr (map JStr target)) base
      in JObj (case ws_predicate ws of
           None \<Rightarrow> with_target
         | Some p \<Rightarrow> AList.update ''_conflictPredicate'' (JStr p) with_target))"

text \<open>The end of the path: the owner of the row, the buffered operation and its placement.\<close>

definition buffer_write ::
  "'p mesh_env \<Rightarrow> write_stmt \<Rightarrow> string \<Rightarrow> string \<Rightarrow> (string \<times> string option) list option \<Rightarrow> int \<Rightarrow> string \<Rightarrow> ('p, nat) gw" where
  "buffer_write E ws pk row_id captured now i =
     bind_gw get_roster (\<lambda>providers.
     bind_gw (ce_read E (get_placement (ws_table ws) row_id)) (\<lambda>placed.
       case select_owner row_id providers (case placed of None \<Rightarrow> [] | Some (replicas, _) \<Rightarrow> replicas) of
         None \<Rightarrow> raise_gw NoProviders
       | Some owner \<Rightarrow>
           if ws_kind ws = RAW then raise_gw (UnsupportedSql ''unexpected write kind'')
           else bind_gw (enqueue E \<lparr>wo_id = i, wo_table = ws_table ws, wo_op = op_name (ws_kind ws), wo_rowId = row_id,
                    wo_payload = Some (write_payload ws pk captured)\<rparr> now) (\<lambda>_.
                bind_gw (ce_write E (upsert_placement (ws_table ws) row_id [owner] ''PENDING'')) (\<lambda>_. return_gw 1))))"

text \<open>A RAW operation sent to every provider, until one fails; \<open>ids\<close> are the fresh identifiers.\<close>

definition raw_op :: "string \<Rightarrow> string \<Rightarrow> WriteOp" where
  "raw_op i q = \<lparr>wo_id = i, wo_table = [], wo_op = ''RAW'', wo_rowId = [], wo_payload = Some (JObj [(''sql'', JStr q)])\<rparr>"

fun broadcast :: "'p mesh_env \<Rightarrow> string \<Rightarrow> (nat \<Rightarrow> string) \<Rightarrow> nat \<Rightarrow> ActivePgStorage list \<Rightarrow> ('p, unit) gw" where
  "broadcast E q ids k [] = return_gw ()"
| "broadcast E q ids k (p # ps) =
     bind_gw (provider_apply E (ap_url p) [raw_op (ids k) q]) (\<lambda>_. broadcast E q ids (Suc k) ps)"

definition apply_broad_write :: "'p mesh_env \<Rightarrow> string \<Rightarrow> (nat \<Rightarrow> string) \<Rightarrow> ('p, nat) gw" where
  "apply_broad_write E q ids =
     (if \<not> mv_broadWrites E then raise_gw WriteRequiresPk
      else bind_gw get_roster (\<lambda>providers.
        if providers = [] then raise_gw NoProviders
        else bind_gw (execute_capture E q) (\<lambda>_. bind_gw (broadcast E q ids 0 providers) (\<lambda>_. return_gw 0))))"

text \<open>
  A write to a table of the registry, on the statement with its parameters inlined. The result
  is the number of rows; what RETURNING sends back is not modelled.
\<close>

definition write_known ::
  "'p mesh_env \<Rightarrow> write_stmt \<Rightarrow> string option \<Rightarrow> int \<Rightarrow> string \<Rightarrow> MeshTable \<Rightarrow> ('p, nat) gw" where
  "write_known E ws bound now i t =
     (let pk = pk_column_of t in
      if ws_placeholder ws \<and> bound = None then raise_gw bound_error
      else if ws_kind ws = INSERT
      then (case ws_capture ws of
              Inl e \<Rightarrow> raise_gw e
            | Inr q \<Rightarrow>
                bind_gw (execute_capture E q) (\<lambda>rows.
                  case rows of
                    [] \<Rightarrow> return_gw 0
                  | row # _ \<Rightarrow>
                      (case map_of row pk of
                         Some (Some row_id) \<Rightarrow> buffer_write E ws pk row_id (Some row) now i
                       | _ \<Rightarrow> raise_gw (UnsupportedSql ''table has no primary-key column''))))
      else buffer_write E ws pk
             (if ws_placeholder ws then the bound else if ws_generate ws then [] else ws_rowId ws) None now i)"

definition gateway_write ::
  "'p mesh_env \<Rightarrow> write_stmt \<Rightarrow> string option \<Rightarrow> int \<Rightarrow> string \<Rightarrow> (nat \<Rightarrow> string) \<Rightarrow> ('p, nat) gw" where
  "gateway_write E ws bound now i ids =
     (if ws_broad ws then apply_broad_write E (ws_sql ws) ids
      else bind_gw (ce_read E (get_table (ws_table ws))) (\<lambda>found.
        case found of
          None \<Rightarrow> raise_gw (UnknownTable (ws_table ws))
        | Some t \<Rightarrow> write_known E ws bound now i t))"

section \<open>Migrations\<close>

text \<open>\<open>add_table_columns\<close>: new columns, by name without regard to case.\<close>

definition column_name :: "json \<Rightarrow> string option" where
  "column_name c = (case jprop ''name'' c of Some (JStr n) \<Rightarrow> Some (to_lower n) | _ \<Rightarrow> None)"

fun merge_columns :: "json list \<Rightarrow> json list \<Rightarrow> json list" where
  "merge_columns cs [] = cs"
| "merge_columns cs (c # added) =
     (let n = (case column_name c of None \<Rightarrow> [] | Some n \<Rightarrow> n) in
      if list_ex (\<lambda>x. column_name x = Some n) cs then merge_columns cs added else merge_columns (cs @ [c]) added)"

definition add_table_columns :: "string \<Rightarrow> json list \<Rightarrow> central \<Rightarrow> central" where
  "add_table_columns name added c = c\<lparr>ce_tables := update_row mt_name name
     (\<lambda>t. t\<lparr>mt_columns := (case mt_columns t of JArr cs \<Rightarrow> JArr (merge_columns cs added) | j \<Rightarrow> j), mt_version := mt_version t + 1\<rparr>)
     (ce_tables c)\<rparr>"

text \<open>The pending migrations to every provider; a provider that fails is left to the catch-up loop.\<close>

fun push_migrations :: "'p mesh_env \<Rightarrow> migration list \<Rightarrow> ActivePgStorage list \<Rightarrow> ('p, unit) gw" where
  "push_migrations E ms [] = return_gw ()"
| "push_migrations E ms (p # ps) =
     bind_gw (attempt_gw (provider_schema E (ap_url p) ms)) (\<lambda>r.
       case r of
         Inl _ \<Rightarrow> push_migrations E ms ps
       | Inr v \<Rightarrow> bind_gw (ce_write E (record_migration_state (ap_npub p) v)) (\<lambda>_. push_migrations E ms ps))"

definition propagate_now :: "'p mesh_env \<Rightarrow> string \<Rightarrow> ('p, unit) gw" where
  "propagate_now E i =
     bind_gw (ce_read E pending_migrations) (\<lambda>ms.
       if ms = [] then return_gw ()
       else bind_gw get_roster (\<lambda>providers.
         bind_gw (push_migrations E ms providers) (\<lambda>_. ce_write E (mark_migration_applied i))))"

text \<open>\<open>propagate_ddl\<close> and \<open>record_raw_ddl\<close>.\<close>

definition propagate_ddl :: "'p mesh_env \<Rightarrow> string \<Rightarrow> string \<Rightarrow> ('p, unit) gw" where
  "propagate_ddl E ddl i = bind_gw (ce_write E (add_migration i ddl)) (\<lambda>_. propagate_now E i)"

text \<open>\<open>handle_ddl\<close> on an additive statement; the columns are those the analysis extracts.\<close>

datatype ddl_kind = CreateTable json | AlterTable "json list"

definition handle_ddl :: "'p mesh_env \<Rightarrow> ddl_kind \<Rightarrow> string \<Rightarrow> string \<Rightarrow> string \<Rightarrow> ('p, unit) gw" where
  "handle_ddl E kind table ddl i =
     (case kind of
        CreateTable columns \<Rightarrow>
          bind_gw (ce_read E (get_table table)) (\<lambda>found.
            if found \<noteq> None then raise_gw (UnsupportedSql ''table already exists in the mesh registry'')
            else bind_gw (ce_write E (create_table table columns 1 ddl i)) (\<lambda>_. propagate_now E i))
      | AlterTable added \<Rightarrow>
          bind_gw (if added = [] then return_gw ()
                   else bind_gw (ce_read E (get_table table)) (\<lambda>found.
                     if found = None then raise_gw (UnknownTable table)
                     else ce_write E (add_table_columns table added))) (\<lambda>_.
          propagate_ddl E ddl i))"

text \<open>
  \<open>fallback_ddl\<close>: applied to every provider and recorded as a migration, whose errors are
  only logged. The catalog mirror is another database and not modelled.
\<close>

definition ddl_shaped :: "string \<Rightarrow> bool" where
  "ddl_shaped q \<longleftrightarrow> list_ex (starts_with (to_lower (trim q))) [''create'', ''alter'', ''drop'', ''delete'', ''update'', ''with'']"

definition fallback_ddl :: "'p mesh_env \<Rightarrow> string \<Rightarrow> (nat \<Rightarrow> string) \<Rightarrow> string \<Rightarrow> ('p, unit) gw" where
  "fallback_ddl E q ids i =
     (if \<not> ddl_shaped q \<or> \<not> mv_broadWrites E then raise_gw (UnsupportedSql q)
      else bind_gw get_roster (\<lambda>providers.
        bind_gw (broadcast E q ids 0 providers) (\<lambda>_.
        bind_gw (attempt_gw (propagate_ddl E q i)) (\<lambda>_. return_gw ()))))"

definition catch_up_provider :: "'p mesh_env \<Rightarrow> string \<Rightarrow> string \<Rightarrow> ('p, unit) gw" where
  "catch_up_provider E n url =
     bind_gw (ce_read E (provider_schema_version n)) (\<lambda>current.
     bind_gw (ce_read E (migrations_since current)) (\<lambda>ms.
       if ms = [] then return_gw ()
       else bind_gw (provider_schema E url ms) (\<lambda>v. ce_write E (record_migration_state n v))))"

fun catch_up_sweep :: "'p mesh_env \<Rightarrow> ActivePgStorage list \<Rightarrow> ('p, unit) gw" where
  "catch_up_sweep E [] = return_gw ()"
| "catch_up_sweep E (p # ps) =
     bind_gw (attempt_gw (catch_up_provider E (ap_npub p) (ap_url p))) (\<lambda>_. catch_up_sweep E ps)"

end
