(* ===== verification/Mesh_Props.thy ===== *)
theory Mesh_Props
  imports Mesh_Write
begin

text \<open>
  The promise of the write path: over any sequence of writes, dispatcher ticks, schema changes
  and roster changes, with requests that fail or whose answers are lost, every buffered
  operation reaches a provider and no provider runs one twice. Triples
  \<open>gtriple P m Q X\<close> (before, after a result, after an error) carry the proofs, with rules in
  the collection \<open>gw_rules\<close>.
\<close>

section \<open>Triples\<close>

definition gtriple :: "('p mesh_state \<Rightarrow> bool) \<Rightarrow> ('p, 'a) gw \<Rightarrow> ('a \<Rightarrow> 'p mesh_state \<Rightarrow> bool) \<Rightarrow> ('p mesh_state \<Rightarrow> bool) \<Rightarrow> bool" where
  "gtriple P m Q X \<longleftrightarrow> (\<forall>w. P w \<longrightarrow> (case m w of (Inl _, w') \<Rightarrow> X w' | (Inr x, w') \<Rightarrow> Q x w'))"

named_theorems gw_rules

lemma g_return [gw_rules]: "(\<And>w. P w \<Longrightarrow> Q x w) \<Longrightarrow> gtriple P (return_gw x) Q X"
  by (simp add: gtriple_def return_gw_def)

lemma g_raise [gw_rules]: "(\<And>w. P w \<Longrightarrow> X w) \<Longrightarrow> gtriple P (raise_gw e) Q X"
  by (simp add: gtriple_def raise_gw_def)

lemma g_roster: "(\<And>w. P w \<Longrightarrow> Q (me_roster w) w) \<Longrightarrow> gtriple P get_roster Q X"
  by (simp add: gtriple_def get_roster_def)

lemma g_bind: "gtriple P m R X \<Longrightarrow> (\<And>x. gtriple (R x) (f x) Q X) \<Longrightarrow> gtriple P (bind_gw m f) Q X"
  by (fastforce simp: gtriple_def bind_gw_def split: prod.splits sum.splits)

lemma g_attempt:
  assumes "gtriple P m (\<lambda>x. Q (Inr x)) (\<lambda>w. \<forall>e. Q (Inl e) w)"
  shows "gtriple P (attempt_gw m) Q X"
  unfolding gtriple_def
proof (intro allI impI)
  fix w assume "P w"
  moreover obtain r w' where "m w = (r, w')" by fastforce
  ultimately show "case attempt_gw m w of (Inl _, w') \<Rightarrow> X w' | (Inr x, w') \<Rightarrow> Q x w'"
    using assms by (cases r) (auto simp: gtriple_def attempt_gw_def)
qed

lemma g_if [gw_rules]:
  "(b \<Longrightarrow> gtriple P m Q X) \<Longrightarrow> (\<not> b \<Longrightarrow> gtriple P n Q X) \<Longrightarrow> gtriple P (if b then m else n) Q X"
  by simp

lemma g_option [gw_rules]:
  "(v = None \<Longrightarrow> gtriple P m Q X) \<Longrightarrow> (\<And>x. v = Some x \<Longrightarrow> gtriple P (f x) Q X)
    \<Longrightarrow> gtriple P (case v of None \<Rightarrow> m | Some x \<Rightarrow> f x) Q X"
  by (cases v) simp_all

lemma g_sum [gw_rules]:
  "(\<And>x. v = Inl x \<Longrightarrow> gtriple P (f x) Q X) \<Longrightarrow> (\<And>x. v = Inr x \<Longrightarrow> gtriple P (g x) Q X)
    \<Longrightarrow> gtriple P (case v of Inl x \<Rightarrow> f x | Inr x \<Rightarrow> g x) Q X"
  by (cases v) simp_all

lemma g_list [gw_rules]:
  "(v = [] \<Longrightarrow> gtriple P m Q X) \<Longrightarrow> (\<And>x xs. v = x # xs \<Longrightarrow> gtriple P (f x xs) Q X)
    \<Longrightarrow> gtriple P (case v of [] \<Rightarrow> m | x # xs \<Rightarrow> f x xs) Q X"
  by (cases v) simp_all

lemma g_pre: "gtriple P m Q X \<Longrightarrow> (\<And>w. P' w \<Longrightarrow> P w) \<Longrightarrow> gtriple P' m Q X"
  by (simp add: gtriple_def)

lemma g_post:
  assumes "gtriple P m Q X" and "\<And>x w. Q x w \<Longrightarrow> Q' x w" and "\<And>w. X w \<Longrightarrow> X' w"
  shows "gtriple P m Q' X'"
  using assms by (fastforce simp: gtriple_def split: prod.splits sum.splits)

text \<open>A call does not depend on the number of calls made; a lost answer leaves what the call did.\<close>

lemma g_call:
  assumes "gtriple P f Q X" and "\<And>w n. P w \<Longrightarrow> P (w\<lparr>me_calls := n\<rparr>)" and "\<And>w. P w \<Longrightarrow> X w" and "\<And>x w. Q x w \<Longrightarrow> X w"
  shows "gtriple P (call_gw E e f) Q X"
  unfolding gtriple_def
proof (intro allI impI)
  fix w assume "P w"
  let ?w1 = "w\<lparr>me_calls := Suc (me_calls w)\<rparr>"
  have "P ?w1" using assms(2) \<open>P w\<close> by blast
  obtain r w2 where r: "f ?w1 = (r, w2)" by fastforce
  have "case f ?w1 of (Inl _, w') \<Rightarrow> X w' | (Inr x, w') \<Rightarrow> Q x w'"
    using assms(1) \<open>P ?w1\<close> by (simp add: gtriple_def)
  with r assms(3) [OF \<open>P ?w1\<close>] assms(4) show "case call_gw E e f w of (Inl _, w') \<Rightarrow> X w' | (Inr x, w') \<Rightarrow> Q x w'"
    by (cases r) (auto simp: call_gw_def Let_def split: call_fate.split)
qed

lemma gtripleD: "gtriple P m (\<lambda>_. Q) Q \<Longrightarrow> P w \<Longrightarrow> Q (snd (m w))"
  unfolding gtriple_def by (cases "m w"; cases "fst (m w)") force+

section \<open>The invariant\<close>

text \<open>
  \<open>H\<close> are the operations ever buffered and \<open>db0\<close> the databases of the agents at the start.
  Every agent has a history in which an operation of \<open>H\<close> is the one that was buffered; what
  is in the buffer is in \<open>H\<close>, on a registered table; and what is in \<open>H\<close> is in the buffer or
  was applied.
\<close>

definition sent_as :: "WriteOp \<Rightarrow> pg_op \<Rightarrow> bool" where
  "sent_as r op \<longleftrightarrow> parse_op (op_json r) = Some op"

definition agent_ok :: "'p pg_server \<Rightarrow> 'p \<Rightarrow> WriteOp list \<Rightarrow> 'p agent \<Rightarrow> bool" where
  "agent_ok S db0 H a \<longleftrightarrow>
     (\<exists>L. history S db0 L a \<and> (\<forall>op \<in> set (ops_in L). \<forall>r \<in> set H. op_id op = wo_id r \<longrightarrow> sent_as r op))"

definition delivered :: "'p mesh_state \<Rightarrow> string \<Rightarrow> bool" where
  "delivered w i \<longleftrightarrow> (\<exists>url. applied (me_agents w url) i)"

definition gateway_ok :: "'p mesh_env \<Rightarrow> (string \<Rightarrow> 'p) \<Rightarrow> WriteOp list \<Rightarrow> 'p mesh_state \<Rightarrow> bool" where
  "gateway_ok E db0 H w \<longleftrightarrow>
     (\<forall>url. agent_ok (mv_server E) (db0 url) H (me_agents w url))
     \<and> (\<forall>b \<in> set (ce_writes (me_central w)). WriteOp.truncate b \<in> set H)
     \<and> (\<forall>r \<in> set H. get_table (wo_table r) (me_central w) \<noteq> None)
     \<and> (\<forall>r \<in> set H. (\<exists>b \<in> set (ce_writes (me_central w)). wo_id b = wo_id r) \<or> delivered w (wo_id r))
     \<and> distinct (map wo_id H)"

text \<open>Changes the invariant does not see.\<close>

definition same_view :: "'p mesh_state \<Rightarrow> 'p mesh_state \<Rightarrow> bool" where
  "same_view w w' \<longleftrightarrow> me_agents w' = me_agents w \<and> ce_writes (me_central w') = ce_writes (me_central w)
     \<and> (\<forall>t. get_table t (me_central w) \<noteq> None \<longrightarrow> get_table t (me_central w') \<noteq> None)"

lemma gateway_ok_view: "gateway_ok E db0 H w \<Longrightarrow> same_view w w' \<Longrightarrow> gateway_ok E db0 H w'"
  unfolding gateway_ok_def same_view_def delivered_def by metis

lemma same_view_simps [simp]:
  "same_view w (w\<lparr>me_calls := n\<rparr>)" "same_view w (w\<lparr>me_data := d\<rparr>)" "same_view w (w\<lparr>me_roster := ps\<rparr>)" "same_view w w"
  "same_view w (w\<lparr>me_central := upsert_placement t r ns st (me_central w)\<rparr>)"
  "same_view w (w\<lparr>me_central := mark_migration_applied i (me_central w)\<rparr>)"
  "same_view w (w\<lparr>me_central := add_migration i ddl (me_central w)\<rparr>)"
  "same_view w (w\<lparr>me_central := record_migration_state np v (me_central w)\<rparr>)"
  by (simp_all add: same_view_def upsert_placement_def mark_migration_applied_def add_migration_def
      record_migration_state_def get_table_def)

lemma find_row_update_some: "find_row key k t \<noteq> None \<Longrightarrow> (\<And>r. key (f r) = key r) \<Longrightarrow> find_row key k (update_row key k' f t) \<noteq> None"
  by (simp add: find_row_None_iff)

lemma same_view_tables [simp]:
  "same_view w (w\<lparr>me_central := create_table t cs n ddl i (me_central w)\<rparr>)"
  "same_view w (w\<lparr>me_central := add_table_columns t added (me_central w)\<rparr>)"
  by (auto simp: same_view_def create_table_def add_migration_def add_table_columns_def get_table_def Let_def
      find_row_append find_row_None_iff split: option.splits)

lemma gateway_ok_calls [simp]: "gateway_ok E db0 H (w\<lparr>me_calls := n\<rparr>) = gateway_ok E db0 H w"
  by (simp add: gateway_ok_def delivered_def)

lemma gateway_ok_parts:
  assumes "gateway_ok E db0 H w"
  shows "b \<in> set (ce_writes (me_central w)) \<Longrightarrow> WriteOp.truncate b \<in> set H"
    and "r \<in> set H \<Longrightarrow> get_table (wo_table r) (me_central w) \<noteq> None"
    and "distinct (map wo_id H)"
  using assms by (simp_all add: gateway_ok_def)

lemma g_read:
  assumes "\<And>w. P w \<Longrightarrow> Q (q (me_central w)) w" and "\<And>w n. P w \<Longrightarrow> P (w\<lparr>me_calls := n\<rparr>)" and "\<And>w. P w \<Longrightarrow> X w"
  shows "gtriple P (ce_read E q) Q X"
proof -
  have "gtriple P (\<lambda>w. (Inr (q (me_central w)), w)) (\<lambda>x w. x = q (me_central w) \<and> P w) X"
    by (simp add: gtriple_def)
  then have "gtriple P (ce_read E q) (\<lambda>x w. x = q (me_central w) \<and> P w) X"
    unfolding ce_read_def by (rule g_call) (use assms(2,3) in auto)
  then show ?thesis by (rule g_post) (use assms(1) in auto)
qed

lemma g_write:
  assumes "\<And>w. P w \<Longrightarrow> Q () (w\<lparr>me_central := q (me_central w)\<rparr>)" and "\<And>w n. P w \<Longrightarrow> P (w\<lparr>me_calls := n\<rparr>)"
    and "\<And>w. P w \<Longrightarrow> X w" and "\<And>w. Q () w \<Longrightarrow> X w"
  shows "gtriple P (ce_write E q) Q X"
  unfolding ce_write_def by (rule g_call) (use assms in \<open>auto simp: gtriple_def\<close>)

lemma write_view:
  fixes E :: "'p mesh_env"
  assumes "\<And>w :: 'p mesh_state. same_view w (w\<lparr>me_central := q (me_central w)\<rparr>)"
  shows "gtriple (gateway_ok E db0 H) (ce_write E q) (\<lambda>_. gateway_ok E db0 H) (gateway_ok E db0 H)"
  by (rule g_write) (auto intro: gateway_ok_view [OF _ assms])

section \<open>Requests to the agents\<close>

lemma parse_op_json_id: "parse_op (op_json r) = Some op \<Longrightarrow> op_id op = wo_id r"
  by (auto simp: parse_op_def op_json_def Let_def split: option.splits json.splits if_splits)

lemma parse_one: "ApplySchema (Some (JObj [(''ops'', JArr (map op_json [r]))])) = map_option (\<lambda>op. [op]) (parse_op (op_json r))"
  by (simp add: ApplySchema_def split: option.split)

text \<open>One operation at an agent: what it does to a history, and that success means applied.\<close>

lemma post_apply_one:
  assumes "agent_ok S db0 H a" and "\<And>r'. r' \<in> set H \<Longrightarrow> wo_id r' = wo_id r \<Longrightarrow> r' = r"
    and "post_apply S (Some (JObj [(''ops'', JArr (map op_json [r]))])) a = (reply, a')"
  shows "agent_ok S db0 H a' \<and> (\<forall>i. applied a i \<longrightarrow> applied a' i) \<and> (\<forall>n. reply = AgApplied n \<longrightarrow> applied a' (wo_id r))"
proof (cases "\<exists>op. parse_op (op_json r) = Some op \<and> apply_ops S [op] a = Inr a' \<and> reply = AgApplied 1")
  case False
  then have "a' = a" "\<forall>n. reply \<noteq> AgApplied n"
    using assms(3) unfolding post_apply_def parse_one by (auto split: option.splits sum.splits)
  with assms(1) show ?thesis by simp
next
  case True
  then obtain op where op: "parse_op (op_json r) = Some op" "apply_ops S [op] a = Inr a'" by blast
  have oid: "op_id op = wo_id r" by (rule parse_op_json_id [OF op(1)])
  from assms(1) obtain L where L: "history S db0 L a" "\<forall>op \<in> set (ops_in L). \<forall>r \<in> set H. op_id op = wo_id r \<longrightarrow> sent_as r op"
    unfolding agent_ok_def by blast
  from apply_ops_history [OF L(1) op(2)] obtain L' where L': "history S db0 (L @ L') a'" "set (ops_in L') \<subseteq> {op}"
    "applied a' (op_id op)" by auto
  have "sent_as r' x" if "x \<in> set (ops_in (L @ L'))" "r' \<in> set H" "op_id x = wo_id r'" for x r'
  proof (cases "x \<in> set (ops_in L)")
    case True
    with L(2) that show ?thesis by blast
  next
    case False
    with that L'(2) have "x = op" by auto
    with that assms(2) oid op(1) show ?thesis by (auto simp: sent_as_def)
  qed
  with L'(1) have "agent_ok S db0 H a'" unfolding agent_ok_def by blast
  moreover have "applied a' i" if "applied a i" for i
    using that history_applied [OF L(1)] history_applied [OF L'(1)] by auto
  ultimately show ?thesis using L'(3) oid by simp
qed

lemma agent_ok_post_schema:
  assumes "agent_ok S db0 H a" and "post_schema S ms a = (reply, a')"
  shows "agent_ok S db0 H a' \<and> (\<forall>i. applied a i \<longrightarrow> applied a' i)"
proof (cases "length ms \<le> 200 \<and> list_all migration_ok ms")
  case False
  with assms show ?thesis by (auto simp: post_schema_def)
next
  case True
  obtain r a1 where r: "run_migrations S ms (currentVersion a) a = (r, a1)" by fastforce
  from assms(1) obtain L where L: "history S db0 L a" "\<forall>op \<in> set (ops_in L). \<forall>r \<in> set H. op_id op = wo_id r \<longrightarrow> sent_as r op"
    unfolding agent_ok_def by blast
  from run_migrations_history [OF L(1) r] obtain L' where L': "history S db0 (L @ L') a1" "ops_in L' = []" by blast
  have same: "ag_db a' = ag_db a1" "ag_meta a' = ag_meta a1"
    using assms(2) True r by (auto simp: post_schema_def split: sum.splits)
  then have "history S db0 (L @ L') a'" using L'(1) by (simp add: history_def)
  with L L'(2) show ?thesis unfolding agent_ok_def
    using history_applied [OF L(1)] history_applied [OF \<open>history S db0 (L @ L') a'\<close>] by fastforce
qed

lemma gateway_ok_agent:
  assumes "gateway_ok E db0 H w" and "agent_ok (mv_server E) (db0 url) H a" and "\<And>i. applied (me_agents w url) i \<Longrightarrow> applied a i"
  shows "gateway_ok E db0 H (w\<lparr>me_agents := (me_agents w)(url := a)\<rparr>)"
proof -
  have "delivered (w\<lparr>me_agents := (me_agents w)(url := a)\<rparr>) i" if "delivered w i" for i
    using that assms(3) unfolding delivered_def by (metis mesh_state.select_convs(4) mesh_state.surjective mesh_state.update_convs(4) fun_upd_apply)
  with assms(1,2) show ?thesis unfolding gateway_ok_def by simp blast
qed

text \<open>An operation that is the only one with its id in \<open>H\<close>, or has none there.\<close>

definition lone :: "WriteOp list \<Rightarrow> WriteOp \<Rightarrow> bool" where
  "lone H r \<longleftrightarrow> (\<forall>r' \<in> set H. wo_id r' = wo_id r \<longrightarrow> r' = r)"

lemma lone_member: "distinct (map wo_id H) \<Longrightarrow> r \<in> set H \<Longrightarrow> lone H r"
  unfolding lone_def by (metis distinct_map inj_onD)

lemma apply_keeps:
  assumes "lone H r"
  shows "gtriple (gateway_ok E db0 H) (provider_apply E url [r]) (\<lambda>_ w. gateway_ok E db0 H w \<and> delivered w (wo_id r)) (gateway_ok E db0 H)"
  unfolding provider_apply_def
proof (rule g_call)
  let ?post = "post_apply (mv_server E) (Some (JObj [(''ops'', JArr (map op_json [r]))]))"
  show "gtriple (gateway_ok E db0 H) (\<lambda>w. case guarded E url ''/pg/apply'' ?post (me_agents w url) of
      (reply, a) \<Rightarrow> (case reply of AgApplied _ \<Rightarrow> Inr () | _ \<Rightarrow> Inl Provider, w\<lparr>me_agents := (me_agents w)(url := a)\<rparr>))
      (\<lambda>_ w. gateway_ok E db0 H w \<and> delivered w (wo_id r)) (gateway_ok E db0 H)"
    unfolding gtriple_def
  proof (intro allI impI)
    fix w assume ok: "gateway_ok E db0 H w"
    obtain reply a where ra: "guarded E url ''/pg/apply'' ?post (me_agents w url) = (reply, a)" by fastforce
    have aok: "agent_ok (mv_server E) (db0 url) H (me_agents w url)" using ok by (simp add: gateway_ok_def)
    have *: "agent_ok (mv_server E) (db0 url) H a \<and> (\<forall>i. applied (me_agents w url) i \<longrightarrow> applied a i)
        \<and> (\<forall>n. reply = AgApplied n \<longrightarrow> applied a (wo_id r))"
    proof (cases "agent_auth (mv_agentToken E url) ''/pg/apply'' (map_option (\<lambda>t. ''Bearer '' @ t) (mv_token E))")
      case None
      then have "?post (me_agents w url) = (reply, a)" using ra by (simp add: guarded_def)
      from post_apply_one [OF aok _ this] assms show ?thesis unfolding lone_def by blast
    next
      case (Some x)
      then have "a = me_agents w url" "\<forall>n. reply \<noteq> AgApplied n"
        using ra by (auto simp: guarded_def agent_auth_def split: if_splits)
      with aok show ?thesis by simp
    qed
    then have "gateway_ok E db0 H (w\<lparr>me_agents := (me_agents w)(url := a)\<rparr>)" using gateway_ok_agent [OF ok] by blast
    moreover have "delivered (w\<lparr>me_agents := (me_agents w)(url := a)\<rparr>) (wo_id r)" if "reply = AgApplied n" for n
      using * that unfolding delivered_def by (intro exI [of _ url]) simp
    ultimately show "case (case guarded E url ''/pg/apply'' ?post (me_agents w url) of
      (reply, a) \<Rightarrow> (case reply of AgApplied _ \<Rightarrow> Inr () | _ \<Rightarrow> Inl Provider, w\<lparr>me_agents := (me_agents w)(url := a)\<rparr>)) of
        (Inl _, w') \<Rightarrow> gateway_ok E db0 H w' | (Inr x, w') \<Rightarrow> gateway_ok E db0 H w' \<and> delivered w' (wo_id r)"
      unfolding ra by (cases reply) auto
  qed
qed auto

lemma schema_keeps: "gtriple (gateway_ok E db0 H) (provider_schema E url ms) (\<lambda>_. gateway_ok E db0 H) (gateway_ok E db0 H)"
  unfolding provider_schema_def
proof (rule g_call)
  show "gtriple (gateway_ok E db0 H) (\<lambda>w. case guarded E url ''/pg/schema'' (post_schema (mv_server E) ms) (me_agents w url) of
      (reply, a) \<Rightarrow> (case reply of AgVersion v \<Rightarrow> Inr v | _ \<Rightarrow> Inl Provider, w\<lparr>me_agents := (me_agents w)(url := a)\<rparr>))
      (\<lambda>_. gateway_ok E db0 H) (gateway_ok E db0 H)"
    unfolding gtriple_def
  proof (intro allI impI)
    fix w assume ok: "gateway_ok E db0 H w"
    obtain reply a where ra: "guarded E url ''/pg/schema'' (post_schema (mv_server E) ms) (me_agents w url) = (reply, a)" by fastforce
    have aok: "agent_ok (mv_server E) (db0 url) H (me_agents w url)" using ok by (simp add: gateway_ok_def)
    have "agent_ok (mv_server E) (db0 url) H a \<and> (\<forall>i. applied (me_agents w url) i \<longrightarrow> applied a i)"
      using ra aok agent_ok_post_schema [OF aok] by (auto simp: guarded_def split: option.splits)
    then have "gateway_ok E db0 H (w\<lparr>me_agents := (me_agents w)(url := a)\<rparr>)" using gateway_ok_agent [OF ok] by blast
    then show "case (case guarded E url ''/pg/schema'' (post_schema (mv_server E) ms) (me_agents w url) of
      (reply, a) \<Rightarrow> (case reply of AgVersion v \<Rightarrow> Inr v | _ \<Rightarrow> Inl Provider, w\<lparr>me_agents := (me_agents w)(url := a)\<rparr>)) of
        (Inl _, w') \<Rightarrow> gateway_ok E db0 H w' | (Inr x, w') \<Rightarrow> gateway_ok E db0 H w'"
      unfolding ra by (cases reply) auto
  qed
qed auto

section \<open>The dispatcher\<close>

lemma read_op_keeps [gw_rules]:
  "gtriple (gateway_ok E db0 H) (ce_read E q) (\<lambda>_. gateway_ok E db0 H) (gateway_ok E db0 H)"
  by (rule g_read) auto

lemma target_keeps:
  assumes "lone H r"
  shows "gtriple (gateway_ok E db0 H) (apply_targets E ps r [t])
    (\<lambda>acked w. gateway_ok E db0 H w \<and> (acked \<noteq> [] \<longrightarrow> delivered w (wo_id r))) (gateway_ok E db0 H)"
  unfolding apply_targets.simps
proof (rule g_bind)
  show "gtriple (gateway_ok E db0 H) (attempt_gw (provider_apply E (url_of ps t) [r]))
      (\<lambda>x w. gateway_ok E db0 H w \<and> (x \<noteq> Inl undefined \<and> (\<exists>y. x = Inr y) \<longrightarrow> delivered w (wo_id r))) (gateway_ok E db0 H)"
    by (rule g_attempt, rule g_post [OF apply_keeps [OF assms]]) auto
next
  fix x :: "GatewayError + unit"
  show "gtriple (\<lambda>w. gateway_ok E db0 H w \<and> (x \<noteq> Inl undefined \<and> (\<exists>y. x = Inr y) \<longrightarrow> delivered w (wo_id r)))
      (case x of Inl _ \<Rightarrow> return_gw [] | Inr _ \<Rightarrow> bind_gw (return_gw []) (\<lambda>acked. return_gw (t # acked)))
      (\<lambda>acked w. gateway_ok E db0 H w \<and> (acked \<noteq> [] \<longrightarrow> delivered w (wo_id r))) (gateway_ok E db0 H)"
    by (cases x) (auto simp: gtriple_def gw_simps)
qed

lemma failure_keeps:
  "gtriple (gateway_ok E db0 H) (ce_write E (record_write_failure i msg)) (\<lambda>_. gateway_ok E db0 H) (gateway_ok E db0 H)"
proof (rule g_write)
  fix w :: "'a mesh_state"
  assume ok: "gateway_ok E db0 H w"
  let ?ws = "ce_writes (me_central w)"
  let ?f = "\<lambda>r. r\<lparr>wr_retryCount := Suc (wr_retryCount r), wr_error := Some msg\<rparr>"
  have "WriteOp.truncate b \<in> set H" if "b \<in> set (update_row wo_id i ?f ?ws)" for b
    using that ok unfolding gateway_ok_def update_row_def by (auto simp: WriteOp.truncate_def split: if_splits)
  moreover have "wo_id ` set (update_row wo_id i ?f ?ws) = wo_id ` set ?ws" by simp
  moreover have "(\<exists>b \<in> set xs. wo_id b = j) = (j \<in> wo_id ` set xs)" for xs :: "write_row list" and j by auto
  ultimately show "gateway_ok E db0 H (w\<lparr>me_central := record_write_failure i msg (me_central w)\<rparr>)"
    using ok unfolding gateway_ok_def by (simp add: record_write_failure_def get_table_def delivered_def)
qed auto

lemma delete_op_keeps:
  "gtriple (\<lambda>w. gateway_ok E db0 H w \<and> delivered w i) (ce_write E (delete_write_ops [i])) (\<lambda>_. gateway_ok E db0 H) (gateway_ok E db0 H)"
proof (rule g_write)
  fix w :: "'a mesh_state"
  assume ok: "gateway_ok E db0 H w \<and> delivered w i"
  let ?w = "w\<lparr>me_central := delete_write_ops [i] (me_central w)\<rparr>"
  have "(\<exists>b \<in> set (ce_writes (me_central ?w)). wo_id b = wo_id r) \<or> delivered ?w (wo_id r)" if "r \<in> set H" for r
  proof (cases "wo_id r = i")
    case True
    then show ?thesis using ok by (simp add: delivered_def)
  next
    case False
    from ok that consider b where "b \<in> set (ce_writes (me_central w))" "wo_id b = wo_id r" | "delivered w (wo_id r)"
      unfolding gateway_ok_def by blast
    then show ?thesis using False by cases (auto simp: delete_write_ops_def delivered_def)
  qed
  with ok show "gateway_ok E db0 H ?w" unfolding gateway_ok_def by (simp add: delete_write_ops_def get_table_def)
qed (auto simp: delivered_def)

lemma dispatch_keeps:
  assumes "r \<in> set H" and "distinct (map wo_id H)"
  shows "gtriple (gateway_ok E db0 H) (dispatch_op E ps r) (\<lambda>_. gateway_ok E db0 H) (gateway_ok E db0 H)"
proof -
  note lone = lone_member [OF assms(2,1)]
  have place: "gtriple (\<lambda>w. gateway_ok E db0 H w \<and> delivered w i) (ce_write E (upsert_placement t x ns st))
      (\<lambda>_ w. gateway_ok E db0 H w \<and> delivered w i) (gateway_ok E db0 H)" for i t x ns st
    by (rule g_write) (auto simp: delivered_def intro: gateway_ok_view)
  show ?thesis unfolding dispatch_op_def
  proof (intro g_bind [OF read_op_keeps] g_option failure_keeps g_bind [OF target_keeps [OF lone]] g_if)
    fix acked :: "string list"
    assume "1 \<le> length acked"
    then have "acked \<noteq> []" by auto
    then show "gtriple (\<lambda>w. gateway_ok E db0 H w \<and> (acked \<noteq> [] \<longrightarrow> delivered w (wo_id r)))
        (bind_gw (ce_write E (upsert_placement (wo_table r) (wo_rowId r) acked ''ACTIVE'')) (\<lambda>_. ce_write E (delete_write_ops [wo_id r])))
        (\<lambda>_. gateway_ok E db0 H) (gateway_ok E db0 H)"
      by (simp only: simp_thms) (rule g_bind [OF place delete_op_keeps])
  next
    fix acked :: "string list"
    show "gtriple (\<lambda>w. gateway_ok E db0 H w \<and> (acked \<noteq> [] \<longrightarrow> delivered w (wo_id r)))
        (ce_write E (record_write_failure (wo_id r) ''provider apply incomplete'')) (\<lambda>_. gateway_ok E db0 H) (gateway_ok E db0 H)"
      by (rule g_pre [OF failure_keeps]) simp
  qed
qed

lemma dispatch_ops_keep:
  assumes "set ops \<subseteq> set H" and "distinct (map wo_id H)"
  shows "gtriple (gateway_ok E db0 H) (dispatch_ops E ps known ops) (\<lambda>_. gateway_ok E db0 H) (gateway_ok E db0 H)"
  using assms(1)
proof (induction ops)
  case Nil
  show ?case unfolding dispatch_ops.simps by (rule g_return)
next
  case (Cons r ops)
  then show ?case unfolding dispatch_ops.simps
    by (intro g_if g_bind [OF dispatch_keeps [OF _ assms(2)]] Cons.IH) auto
qed

text \<open>Every operation of the batch is on a registered table, so none is dropped.\<close>

lemma load_keeps:
  assumes "set ops \<subseteq> set H"
  shows "gtriple (gateway_ok E db0 H) (load_tables E ops known) (\<lambda>_. gateway_ok E db0 H) (gateway_ok E db0 H)"
  using assms
proof (induction ops arbitrary: known)
  case Nil
  show ?case unfolding load_tables.simps by (rule g_return)
next
  case (Cons r ops)
  then have r: "r \<in> set H" and ops: "set ops \<subseteq> set H" by auto
  have found: "gtriple (gateway_ok E db0 H) (ce_read E (get_table (wo_table r)))
      (\<lambda>t w. gateway_ok E db0 H w \<and> t \<noteq> None) (gateway_ok E db0 H)"
    by (rule g_read) (use r in \<open>auto dest: gateway_ok_parts(2)\<close>)
  show ?case unfolding load_tables.simps
  proof (rule g_if [OF Cons.IH [OF ops]], rule g_bind [OF found], rule g_option)
    fix t :: "MeshTable option"
    show "gtriple (\<lambda>w. gateway_ok E db0 H w \<and> t \<noteq> None) m Q X" if "t = None" for m :: "('a, string list) gw" and Q X
      using that by (simp add: gtriple_def)
    show "gtriple (\<lambda>w. gateway_ok E db0 H w \<and> t \<noteq> None) (load_tables E ops (wo_table r # known)) (\<lambda>_. gateway_ok E db0 H) (gateway_ok E db0 H)"
      by (rule g_pre [OF Cons.IH [OF ops]]) simp
  qed
qed

lemma tick_keeps: "gtriple (gateway_ok E db0 H) (tick_dispatcher E n) (\<lambda>_. gateway_ok E db0 H) (gateway_ok E db0 H)"
proof -
  let ?T = "\<lambda>ops w. gateway_ok E db0 H w \<and> set ops \<subseteq> set H \<and> distinct (map wo_id H)"
  have taken: "gtriple (gateway_ok E db0 H) (ce_read E (take_write_ops n)) ?T (gateway_ok E db0 H)"
    by (rule g_read) (auto simp: take_write_ops_def dest: gateway_ok_parts(3) dest!: in_set_takeD intro: gateway_ok_parts(1))
  have rest: "gtriple (?T ops) (bind_gw (load_tables E ops []) (\<lambda>known. bind_gw (dispatch_ops E ps known ops) (\<lambda>_. return_gw 0)))
      (\<lambda>_. gateway_ok E db0 H) (gateway_ok E db0 H)" for ops ps
  proof (cases "set ops \<subseteq> set H \<and> distinct (map wo_id H)")
    case True
    then have "gtriple (gateway_ok E db0 H) (bind_gw (load_tables E ops []) (\<lambda>known. bind_gw (dispatch_ops E ps known ops) (\<lambda>_. return_gw 0)))
      (\<lambda>_. gateway_ok E db0 H) (gateway_ok E db0 H)"
      by (intro g_bind [OF load_keeps] g_bind [OF dispatch_ops_keep] g_return) auto
    then show ?thesis by (rule g_pre) simp
  next
    case False
    then show ?thesis unfolding gtriple_def by blast
  qed
  have batch: "gtriple (gateway_ok E db0 H) (bind_gw (ce_read E (take_write_ops n)) (\<lambda>ops. if ops = [] then return_gw 0
      else bind_gw (load_tables E ops []) (\<lambda>known. bind_gw (dispatch_ops E ps known ops) (\<lambda>_. return_gw 0))))
      (\<lambda>_. gateway_ok E db0 H) (gateway_ok E db0 H)" for ps
    by (rule g_bind [OF taken], rule g_if, rule g_return, blast, rule rest)
  show ?thesis unfolding tick_dispatcher_def
    by (rule g_bind [OF g_roster], assumption, rule g_if, rule g_return, assumption, rule batch)
qed

section \<open>Schema changes and broad writes\<close>

lemma roster_keeps: "gtriple (gateway_ok E db0 H) get_roster (\<lambda>_. gateway_ok E db0 H) (gateway_ok E db0 H)"
  by (rule g_roster)

lemma attempt_keeps:
  "gtriple (gateway_ok E db0 H) m (\<lambda>_. gateway_ok E db0 H) (gateway_ok E db0 H)
    \<Longrightarrow> gtriple (gateway_ok E db0 H) (attempt_gw m) (\<lambda>_. gateway_ok E db0 H) (gateway_ok E db0 H)"
  by (rule g_attempt, erule g_post) auto

lemma push_keeps: "gtriple (gateway_ok E db0 H) (push_migrations E ms ps) (\<lambda>_. gateway_ok E db0 H) (gateway_ok E db0 H)"
proof (induction ps)
  case Nil
  show ?case unfolding push_migrations.simps by (rule g_return)
next
  case (Cons p ps)
  show ?case unfolding push_migrations.simps
    by (intro g_bind [OF attempt_keeps [OF schema_keeps]] g_sum Cons.IH g_bind [OF write_view] same_view_simps)
qed

lemma propagate_keeps: "gtriple (gateway_ok E db0 H) (propagate_now E i) (\<lambda>_. gateway_ok E db0 H) (gateway_ok E db0 H)"
  unfolding propagate_now_def
  by (intro g_bind [OF read_op_keeps] g_if g_return g_bind [OF roster_keeps] g_bind [OF push_keeps] write_view same_view_simps)

lemma propagate_ddl_keeps: "gtriple (gateway_ok E db0 H) (propagate_ddl E ddl i) (\<lambda>_. gateway_ok E db0 H) (gateway_ok E db0 H)"
  unfolding propagate_ddl_def by (intro g_bind [OF write_view] same_view_simps propagate_keeps)

lemma handle_ddl_keeps: "gtriple (gateway_ok E db0 H) (handle_ddl E kind table ddl i) (\<lambda>_. gateway_ok E db0 H) (gateway_ok E db0 H)"
proof (cases kind)
  case (CreateTable columns)
  have "gtriple (gateway_ok E db0 H) (ce_write E (create_table table columns 1 ddl i)) (\<lambda>_. gateway_ok E db0 H) (gateway_ok E db0 H)"
    by (rule write_view) simp
  then show ?thesis unfolding handle_ddl_def CreateTable ddl_kind.case
    by (intro g_bind [OF read_op_keeps] g_if g_raise g_bind [OF _ propagate_keeps])
next
  case (AlterTable added)
  have "gtriple (gateway_ok E db0 H) (ce_write E (add_table_columns table added)) (\<lambda>_. gateway_ok E db0 H) (gateway_ok E db0 H)"
    by (rule write_view) simp
  then have "gtriple (gateway_ok E db0 H) (if added = [] then return_gw ()
      else bind_gw (ce_read E (get_table table)) (\<lambda>found. if found = None then raise_gw (UnknownTable table)
        else ce_write E (add_table_columns table added))) (\<lambda>_. gateway_ok E db0 H) (gateway_ok E db0 H)"
    by (intro g_if g_return g_bind [OF read_op_keeps] g_raise)
  then show ?thesis unfolding handle_ddl_def AlterTable ddl_kind.case by (rule g_bind [OF _ propagate_ddl_keeps])
qed

text \<open>Identifiers of RAW operations are not those of buffered ones.\<close>

lemma broadcast_keeps:
  assumes "\<And>k. ids k \<notin> wo_id ` set H"
  shows "gtriple (gateway_ok E db0 H) (broadcast E q ids k ps) (\<lambda>_. gateway_ok E db0 H) (gateway_ok E db0 H)"
proof (induction ps arbitrary: k)
  case Nil
  show ?case unfolding broadcast.simps by (rule g_return)
next
  case (Cons p ps)
  have "lone H (raw_op (ids k) q)" using assms [of k] by (force simp: lone_def raw_op_def)
  then have "gtriple (gateway_ok E db0 H) (provider_apply E (ap_url p) [raw_op (ids k) q]) (\<lambda>_. gateway_ok E db0 H) (gateway_ok E db0 H)"
    by (intro g_post [OF apply_keeps]) auto
  then show ?case unfolding broadcast.simps by (rule g_bind) (rule Cons.IH)
qed

lemma capture_keeps: "gtriple (gateway_ok E db0 H) (execute_capture E q) (\<lambda>_. gateway_ok E db0 H) (gateway_ok E db0 H)"
  unfolding execute_capture_def
  by (rule g_call) (auto simp: gtriple_def split: option.splits intro: gateway_ok_view)

lemma broad_keeps:
  assumes "\<And>k. ids k \<notin> wo_id ` set H"
  shows "gtriple (gateway_ok E db0 H) (apply_broad_write E q ids) (\<lambda>_. gateway_ok E db0 H) (gateway_ok E db0 H)"
  unfolding apply_broad_write_def
  by (intro g_if g_raise g_bind [OF roster_keeps] g_bind [OF capture_keeps] g_bind [OF broadcast_keeps [OF assms]] g_return)

lemma fallback_keeps:
  assumes "\<And>k. ids k \<notin> wo_id ` set H"
  shows "gtriple (gateway_ok E db0 H) (fallback_ddl E q ids i) (\<lambda>_. gateway_ok E db0 H) (gateway_ok E db0 H)"
  unfolding fallback_ddl_def
  by (intro g_if g_raise g_bind [OF roster_keeps] g_bind [OF broadcast_keeps [OF assms]]
      g_bind [OF attempt_keeps [OF propagate_ddl_keeps]] g_return)

lemma catch_up_keeps: "gtriple (gateway_ok E db0 H) (catch_up_provider E n url) (\<lambda>_. gateway_ok E db0 H) (gateway_ok E db0 H)"
  unfolding catch_up_provider_def
  by (intro g_bind [OF read_op_keeps] g_if g_return g_bind [OF schema_keeps] write_view same_view_simps)

lemma sweep_keeps: "gtriple (gateway_ok E db0 H) (catch_up_sweep E ps) (\<lambda>_. gateway_ok E db0 H) (gateway_ok E db0 H)"
proof (induction ps)
  case Nil
  show ?case unfolding catch_up_sweep.simps by (rule g_return)
next
  case (Cons p ps)
  show ?case unfolding catch_up_sweep.simps by (rule g_bind [OF attempt_keeps [OF catch_up_keeps] Cons.IH])
qed

section \<open>Writes\<close>

text \<open>The history after a write with the identifier \<open>i\<close>: it grows by what the write buffered.\<close>

definition grown :: "WriteOp list \<Rightarrow> string \<Rightarrow> 'p mesh_state \<Rightarrow> WriteOp list" where
  "grown H i w = H @ map WriteOp.truncate (filter (\<lambda>b. wo_id b = i) (ce_writes (me_central w)))"

definition fresh_id :: "WriteOp list \<Rightarrow> string \<Rightarrow> 'p mesh_state \<Rightarrow> bool" where
  "fresh_id H i w \<longleftrightarrow> i \<notin> wo_id ` set H \<and> \<not> delivered w i"

lemma grown_none: "gateway_ok E db0 H w \<Longrightarrow> i \<notin> wo_id ` set H \<Longrightarrow> grown H i w = H"
  using gateway_ok_parts(1) [of E db0 H w]
  by (force simp: grown_def filter_empty_conv WriteOp.truncate_def)

lemma fresh_calls [simp]: "fresh_id H i (w\<lparr>me_calls := n\<rparr>) = fresh_id H i w" "fresh_id H i (w\<lparr>me_data := d\<rparr>) = fresh_id H i w"
  by (simp_all add: fresh_id_def delivered_def)

text \<open>Before the operation is buffered; the table is registered.\<close>

definition ready :: "'p mesh_env \<Rightarrow> (string \<Rightarrow> 'p) \<Rightarrow> WriteOp list \<Rightarrow> string \<Rightarrow> string \<Rightarrow> 'p mesh_state \<Rightarrow> bool" where
  "ready E db0 H i t w \<longleftrightarrow> gateway_ok E db0 H w \<and> fresh_id H i w \<and> get_table t (me_central w) \<noteq> None"

definition written :: "'p mesh_env \<Rightarrow> (string \<Rightarrow> 'p) \<Rightarrow> WriteOp list \<Rightarrow> string \<Rightarrow> 'p mesh_state \<Rightarrow> bool" where
  "written E db0 H i w \<longleftrightarrow> gateway_ok E db0 (grown H i w) w"

lemma ready_written: "gateway_ok E db0 H w \<Longrightarrow> fresh_id H i w \<Longrightarrow> written E db0 H i w"
  by (simp add: written_def grown_none fresh_id_def)

lemma extend_op [simp]: "WriteOp.truncate (WriteOp.extend op x) = op" "wo_id (WriteOp.extend op x) = wo_id op"
  by (simp_all add: WriteOp.defs)

lemma enqueue_written:
  assumes "ready E db0 H (wo_id op) (wo_table op) w" and "enqueue_write_op op now (me_central w) = Some c"
  shows "written E db0 H (wo_id op) (w\<lparr>me_central := c\<rparr>)"
proof -
  let ?w = "w\<lparr>me_central := c\<rparr>"
  from assms(2) have c: "ce_writes c = ce_writes (me_central w) @ [WriteOp.extend op \<lparr>wr_createdAt = now, wr_retryCount = 0, wr_error = None\<rparr>]"
    "ce_tables c = ce_tables (me_central w)" by (auto simp: enqueue_write_op_def split: if_splits)
  have ok: "gateway_ok E db0 H w" and fresh: "fresh_id H (wo_id op) w" and t: "get_table (wo_table op) (me_central w) \<noteq> None"
    using assms(1) by (simp_all add: ready_def)
  have grown: "grown H (wo_id op) ?w = H @ [op]"
    using grown_none [OF ok, of "wo_id op"] fresh c(1) by (simp add: grown_def fresh_id_def)
  have agents: "agent_ok (mv_server E) (db0 url) (H @ [op]) (me_agents w url)" for url
  proof -
    from ok obtain L where L: "history (mv_server E) (db0 url) L (me_agents w url)"
      "\<forall>x \<in> set (ops_in L). \<forall>r \<in> set H. op_id x = wo_id r \<longrightarrow> sent_as r x" unfolding gateway_ok_def agent_ok_def by blast
    moreover have "wo_id op \<notin> op_id ` set (ops_in L)"
      using fresh history_applied [OF L(1)] unfolding fresh_id_def delivered_def by blast
    then have "op_id x \<noteq> wo_id op" if "x \<in> set (ops_in L)" for x using that by (metis imageI)
    ultimately show ?thesis unfolding agent_ok_def by (intro exI [of _ L]) auto
  qed
  have "distinct (map wo_id (H @ [op]))" using gateway_ok_parts(3) [OF ok] fresh by (simp add: fresh_id_def)
  then show ?thesis unfolding written_def grown
    using ok agents t c unfolding gateway_ok_def by (auto simp: get_table_def delivered_def)
qed

lemma written_calls [simp]: "written E db0 H i (w\<lparr>me_calls := n\<rparr>) = written E db0 H i w"
  by (simp add: written_def grown_def)

lemma ready_calls [simp]: "ready E db0 H i t (w\<lparr>me_calls := n\<rparr>) = ready E db0 H i t w"
  by (simp add: ready_def)

lemma ready_is_written: "ready E db0 H i t w \<Longrightarrow> written E db0 H i w"
  by (simp add: ready_def ready_written)

lemma enqueue_keeps:
  assumes "wo_id op = i" and "wo_table op = t"
  shows "gtriple (ready E db0 H i t) (enqueue E op now) (\<lambda>_. written E db0 H i) (written E db0 H i)"
  unfolding enqueue_def
  by (rule g_call) (use assms in \<open>auto simp: gtriple_def split: option.splits intro: enqueue_written ready_is_written\<close>)

lemma placement_written:
  "gtriple (written E db0 H i) (ce_write E (upsert_placement t r ns st)) (\<lambda>_. written E db0 H i) (written E db0 H i)"
proof (rule g_write)
  fix w :: "'a mesh_state"
  assume "written E db0 H i w"
  then show "written E db0 H i (w\<lparr>me_central := upsert_placement t r ns st (me_central w)\<rparr>)"
    using gateway_ok_view [OF _ same_view_simps(5)] by (simp add: written_def grown_def upsert_placement_def)
qed auto

lemma buffer_keeps:
  "gtriple (ready E db0 H i (ws_table ws)) (buffer_write E ws pk row_id captured now i) (\<lambda>_. written E db0 H i) (written E db0 H i)"
proof -
  have read: "gtriple (ready E db0 H i t) (ce_read E q) (\<lambda>_. ready E db0 H i t) (written E db0 H i)" for t q
    by (rule g_read) (auto intro: ready_is_written)
  have roster: "gtriple (ready E db0 H i t) get_roster (\<lambda>_. ready E db0 H i t) (written E db0 H i)" for t
    by (rule g_roster)
  show ?thesis unfolding buffer_write_def
    by (rule g_bind [OF roster], rule g_bind [OF read], rule g_option, rule g_raise, erule ready_is_written, rule g_if,
        rule g_raise, erule ready_is_written, rule g_bind [OF enqueue_keeps], simp, simp, rule g_bind [OF placement_written], rule g_return)
qed

lemma write_keeps:
  assumes "\<And>k. ids k \<notin> wo_id ` set H" and "i \<notin> wo_id ` set H"
  shows "gtriple (\<lambda>w. gateway_ok E db0 H w \<and> fresh_id H i w) (gateway_write E ws bound now i ids) (\<lambda>_. written E db0 H i) (written E db0 H i)"
proof (cases "ws_broad ws")
  case True
  have "written E db0 H i w" if "gateway_ok E db0 H w" for w
    using that assms(2) by (simp add: written_def grown_none)
  then show ?thesis using True
    by (simp add: gateway_write_def) (rule g_pre [OF g_post [OF broad_keeps [OF assms(1)]]], auto)
next
  case False
  let ?F = "\<lambda>w. gateway_ok E db0 H w \<and> fresh_id H i w"
  let ?R = "ready E db0 H i (ws_table ws)"
  have table: "gtriple ?F (ce_read E (get_table (ws_table ws))) (\<lambda>t w. ?F w \<and> (t \<noteq> None \<longrightarrow> ?R w)) (written E db0 H i)"
    by (rule g_read) (auto simp: ready_def intro: ready_written)
  have capture: "gtriple ?R (execute_capture E q) (\<lambda>_. ?R) (written E db0 H i)" for q
    unfolding execute_capture_def
    by (rule g_call) (auto simp: gtriple_def ready_def split: option.splits intro: gateway_ok_view ready_written)
  have known: "gtriple ?R (write_known E ws bound now i t) (\<lambda>_. written E db0 H i) (written E db0 H i)" for t
    unfolding write_known_def Let_def
    by (intro g_if g_raise ready_is_written g_sum g_bind [OF capture] g_list g_return g_option buffer_keeps)
  show ?thesis unfolding gateway_write_def
  proof (simp only: False if_False, rule g_bind [OF table], rule g_option)
    fix t :: "MeshTable option"
    show "gtriple (\<lambda>w. ?F w \<and> (t \<noteq> None \<longrightarrow> ?R w)) (raise_gw (UnknownTable (ws_table ws))) (\<lambda>_. written E db0 H i) (written E db0 H i)"
      by (rule g_raise) (auto intro: ready_written)
  next
    fix t :: "MeshTable option" and x assume "t = Some x"
    then show "gtriple (\<lambda>w. ?F w \<and> (t \<noteq> None \<longrightarrow> ?R w)) (write_known E ws bound now i x) (\<lambda>_. written E db0 H i) (written E db0 H i)"
      by (intro g_pre [OF known]) simp
  qed
qed

section \<open>Reachable states\<close>

text \<open>
  Any sequence of writes, ticks, roster changes, schema changes and catch-up sweeps, with the
  list of the operations buffered so far. Identifiers are not used twice.
\<close>

inductive mesh_reach :: "'p mesh_env \<Rightarrow> 'p mesh_state \<Rightarrow> 'p mesh_state \<Rightarrow> WriteOp list \<Rightarrow> bool" for E w0 where
  start: "mesh_reach E w0 w0 []"
| put: "mesh_reach E w0 w H \<Longrightarrow> fresh_id H i w \<Longrightarrow> (\<And>k. ids k \<notin> wo_id ` set H)
    \<Longrightarrow> w' = snd (gateway_write E ws bound now i ids w) \<Longrightarrow> mesh_reach E w0 w' (grown H i w')"
| tick: "mesh_reach E w0 w H \<Longrightarrow> mesh_reach E w0 (snd (tick_dispatcher E n w)) H"
| roster: "mesh_reach E w0 w H \<Longrightarrow> mesh_reach E w0 (w\<lparr>me_roster := ps\<rparr>) H"
| ddl: "mesh_reach E w0 w H \<Longrightarrow> mesh_reach E w0 (snd (handle_ddl E kind table ddl i w)) H"
| ddl_index: "mesh_reach E w0 w H \<Longrightarrow> mesh_reach E w0 (snd (propagate_ddl E ddl i w)) H"
| ddl_raw: "mesh_reach E w0 w H \<Longrightarrow> (\<And>k. ids k \<notin> wo_id ` set H) \<Longrightarrow> mesh_reach E w0 (snd (fallback_ddl E q ids i w)) H"
| sweep: "mesh_reach E w0 w H \<Longrightarrow> mesh_reach E w0 (snd (catch_up_sweep E (me_roster w) w)) H"

lemma mesh_reach_ok:
  assumes "mesh_reach E w0 w H" and "ce_writes (me_central w0) = []" and "\<And>url. ag_meta (me_agents w0 url) = []"
  shows "gateway_ok E (\<lambda>url. ag_db (me_agents w0 url)) H w"
  using assms(1)
proof induction
  case start
  have "history S (ag_db (me_agents w0 url)) [] (me_agents w0 url)" for S url by (simp add: history_def assms(3))
  then have "agent_ok S (ag_db (me_agents w0 url)) [] (me_agents w0 url)" for S url
    unfolding agent_ok_def by (intro exI [of _ "[]"]) simp
  then show ?case using assms(2) by (simp add: gateway_ok_def)
next
  case (put w H i ids w' ws bound now)
  then have "i \<notin> wo_id ` set H" by (simp add: fresh_id_def)
  with put.hyps(3) have "gtriple (\<lambda>w. gateway_ok E (\<lambda>url. ag_db (me_agents w0 url)) H w \<and> fresh_id H i w)
      (gateway_write E ws bound now i ids) (\<lambda>_. written E (\<lambda>url. ag_db (me_agents w0 url)) H i)
      (written E (\<lambda>url. ag_db (me_agents w0 url)) H i)" by (rule write_keeps)
  from gtripleD [OF this] put show ?case by (simp add: written_def)
next
  case (tick w H n)
  show ?case by (rule gtripleD [OF tick_keeps tick.IH])
next
  case (roster w H ps)
  show ?case by (rule gateway_ok_view [OF roster.IH]) simp
next
  case (ddl w H kind table ddl i)
  show ?case by (rule gtripleD [OF handle_ddl_keeps ddl.IH])
next
  case (ddl_index w H ddl i)
  show ?case by (rule gtripleD [OF propagate_ddl_keeps ddl_index.IH])
next
  case (ddl_raw w H ids q i)
  show ?case by (rule gtripleD [OF fallback_keeps [OF ddl_raw.hyps(2)] ddl_raw.IH])
next
  case (sweep w H)
  show ?case by (rule gtripleD [OF sweep_keeps sweep.IH])
qed

section \<open>Properties\<close>

text \<open>
  C34. Writes reach a provider and take effect once. In a mesh that starts with an empty buffer,
  after any sequence of writes, dispatcher ticks, roster changes, schema changes and catch-up
  sweeps, whatever requests fail and whatever answers are lost: the database of every provider
  is the result of running a list of operations and migrations in which no operation occurs
  twice, and every write that was ever buffered is still in the buffer or its operation is in
  the list of some provider.
\<close>

theorem writes_effectively_once:
  assumes "mesh_reach E w0 w H" and "ce_writes (me_central w0) = []" and "\<And>url. ag_meta (me_agents w0 url) = []"
  shows "\<exists>Ls. (\<forall>url. replay (mv_server E) (Ls url) (ag_db (me_agents w0 url)) = Some (ag_db (me_agents w url))
      \<and> distinct (map op_id (ops_in (Ls url))))
    \<and> (\<forall>r \<in> set H. (\<exists>b \<in> set (ce_writes (me_central w)). WriteOp.truncate b = r)
        \<or> (\<exists>url. \<exists>op \<in> set (ops_in (Ls url)). sent_as r op))"
proof -
  have ok: "gateway_ok E (\<lambda>url. ag_db (me_agents w0 url)) H w" by (rule mesh_reach_ok [OF assms])
  then have "\<forall>url. \<exists>L. history (mv_server E) (ag_db (me_agents w0 url)) L (me_agents w url)
      \<and> (\<forall>op \<in> set (ops_in L). \<forall>r \<in> set H. op_id op = wo_id r \<longrightarrow> sent_as r op)"
    by (simp add: gateway_ok_def agent_ok_def)
  then obtain Ls where Ls: "\<And>url. history (mv_server E) (ag_db (me_agents w0 url)) (Ls url) (me_agents w url)"
    "\<And>url op r. op \<in> set (ops_in (Ls url)) \<Longrightarrow> r \<in> set H \<Longrightarrow> op_id op = wo_id r \<Longrightarrow> sent_as r op" by metis
  have "(\<exists>b \<in> set (ce_writes (me_central w)). WriteOp.truncate b = r) \<or> (\<exists>url. \<exists>op \<in> set (ops_in (Ls url)). sent_as r op)"
    if r: "r \<in> set H" for r
  proof -
    from ok r consider b where "b \<in> set (ce_writes (me_central w))" "wo_id b = wo_id r" | url where "applied (me_agents w url) (wo_id r)"
      unfolding gateway_ok_def delivered_def by blast
    then show ?thesis
    proof cases
      case 1
      then have "WriteOp.truncate b \<in> set H" "wo_id (WriteOp.truncate b) = wo_id r"
        using gateway_ok_parts(1) [OF ok 1(1)] by (simp_all add: WriteOp.truncate_def)
      then have "WriteOp.truncate b = r" using lone_member [OF gateway_ok_parts(3) [OF ok] r] by (simp add: lone_def)
      with 1 show ?thesis by blast
    next
      case 2
      then show ?thesis using history_applied [OF Ls(1)] Ls(2) r by (metis imageE)
    qed
  qed
  with Ls(1) show ?thesis unfolding history_def by (intro exI [of _ Ls]) simp
qed

text \<open>
  A mesh of one provider whose database counts statements. The answer to the first request of
  the dispatcher is lost, so the operation is sent twice.
\<close>

definition count_server :: "nat pg_server" where
  "count_server = \<lparr>pg_exec = (\<lambda>_ db. Inr (Suc db)), pg_types = (\<lambda>_ _ _. None), pg_covers = (\<lambda>_ _ _. False),
     pg_ident = (\<lambda>_. []), pg_parse = (\<lambda>_. None), pg_strip = (\<lambda>d. d), pg_now = []\<rparr>"

definition count_env :: "(nat \<Rightarrow> call_fate) \<Rightarrow> nat mesh_env" where
  "count_env fate = \<lparr>mv_server = count_server, mv_fate = fate, mv_capture = (\<lambda>_ _. None), mv_token = None,
     mv_agentToken = (\<lambda>_. None), mv_broadWrites = False\<rparr>"

definition count_table :: MeshTable where
  "count_table = \<lparr>mt_name = ''t'', mt_columns = JNull, mt_version = 1, mt_replicaN = 1\<rparr>"

definition count_mesh :: "nat mesh_state" where
  "count_mesh = \<lparr>me_central = \<lparr>ce_tables = [count_table], ce_migrations = [], ce_acked = [], ce_writes = [],
       ce_placements = [((''t'', ''r''), [''n''], ''ACTIVE'')]\<rparr>,
     me_data = 0, me_roster = [\<lparr>ap_npub = ''n'', ap_url = ''u''\<rparr>],
     me_agents = (\<lambda>_. \<lparr>ag_meta = [], ag_version = None, ag_migrations = [], ag_db = 0\<rparr>), me_calls = 0\<rparr>"

definition count_update :: write_stmt where
  "count_update = \<lparr>ws_kind = UPDATE, ws_table = ''t'', ws_rowId = ''r'', ws_sql = ''q'', ws_placeholder = False,
     ws_generate = False, ws_broad = False, ws_conflict = None, ws_predicate = None, ws_capture = Inr []\<rparr>"

definition lossy :: "nat mesh_env" where
  "lossy = count_env (\<lambda>n. if n = 7 then AnswerLost else Answered)"

definition after_write :: "nat mesh_state" where
  "after_write = snd (gateway_write lossy count_update None 5 ''i'' (\<lambda>_. ''x'') count_mesh)"

definition after_ticks :: "nat mesh_state" where
  "after_ticks = snd (tick_dispatcher lossy 9 (snd (tick_dispatcher lossy 9 after_write)))"

lemma one_tick: "me_calls after_write = 4 \<and> length (ce_writes (me_central (snd (tick_dispatcher lossy 9 after_write)))) = 1
    \<and> ag_db (me_agents (snd (tick_dispatcher lossy 9 after_write)) ''u'') = 1"
  by code_simp

lemma two_ticks: "ce_writes (me_central after_ticks) = [] \<and> ag_db (me_agents after_ticks ''u'') = 1 \<and> grown [] ''i'' after_write \<noteq> []"
  by code_simp

theorem writes_effectively_once_witness:
  "\<exists>L. replay count_server L 0 = Some 1 \<and> distinct (map op_id (ops_in L))
    \<and> replay count_server L 0 = Some (ag_db (me_agents after_ticks ''u''))"
proof -
  have "mesh_reach lossy count_mesh after_write (grown [] ''i'' after_write)"
    by (rule mesh_reach.put [OF mesh_reach.start, where ids = "\<lambda>_. ''x''" and ws = count_update and bound = None and now = 5])
      (simp_all add: fresh_id_def delivered_def applied_def count_mesh_def after_write_def)
  then have reach: "mesh_reach lossy count_mesh after_ticks (grown [] ''i'' after_write)"
    unfolding after_ticks_def by (intro mesh_reach.tick)
  have "ag_meta (me_agents count_mesh url) = []" "ag_db (me_agents count_mesh url) = 0" for url by (simp_all add: count_mesh_def)
  with writes_effectively_once [OF reach] obtain Ls where
    "replay (mv_server lossy) (Ls ''u'') 0 = Some (ag_db (me_agents after_ticks ''u''))" "distinct (map op_id (ops_in (Ls ''u'')))"
    by (auto simp: count_mesh_def)
  then show ?thesis using two_ticks by (intro exI [of _ "Ls ''u''"]) (simp add: lossy_def count_env_def)
qed

text \<open>
  An operation that fails is overtaken by later operations on its row: after a tick in which
  the request for the first of two writes does not arrive, the second is applied and the first
  is still in the buffer.
\<close>

definition stalled :: "nat mesh_env" where
  "stalled = count_env (\<lambda>n. if n = 11 then NotReached else Answered)"

definition after_two_writes :: "nat mesh_state" where
  "after_two_writes = snd (gateway_write stalled count_update None 6 ''j'' (\<lambda>_. ''x'')
     (snd (gateway_write stalled count_update None 5 ''i'' (\<lambda>_. ''x'') count_mesh)))"

lemma failed_write_overtaken:
  "map wo_id (take_write_ops 9 (me_central after_two_writes)) = [''i'', ''j'']
    \<and> map wo_id (ce_writes (me_central (snd (tick_dispatcher stalled 9 after_two_writes)))) = [''i'']
    \<and> map fst (ag_meta (me_agents (snd (tick_dispatcher stalled 9 after_two_writes)) ''u'')) = [op_key ''j'']"
  by code_simp

section \<open>Migrations\<close>

text \<open>What the recorded version of a provider is meant to say: it has every migration up to it.\<close>

definition acked_sound :: "string \<Rightarrow> string \<Rightarrow> 'p mesh_state \<Rightarrow> bool" where
  "acked_sound n url w \<longleftrightarrow> (\<forall>m \<in> set (ce_migrations (me_central w)).
     mg_version m \<le> provider_schema_version n (me_central w) \<longrightarrow> mg_id m \<in> fst ` set (ag_migrations (me_agents w url)))"

lemma post_schema_known:
  assumes "post_schema S ms a = (AgVersion v, a')"
  shows "mg_id ` set ms \<subseteq> fst ` set (ag_migrations a') \<and> fst ` set (ag_migrations a) \<subseteq> fst ` set (ag_migrations a')"
proof -
  from assms obtain a1 where "run_migrations S ms (currentVersion a) a = (Inr v, a1)" "a' = a1\<lparr>ag_version := Some v\<rparr>"
    by (auto simp: post_schema_def split: if_splits prod.splits sum.splits)
  with run_migrations_known [of S ms "currentVersion a" a v a1] show ?thesis by simp
qed

lemma provider_schema_ok:
  assumes "provider_schema E url ms w = (Inr v, w')"
  shows "mg_id ` set ms \<subseteq> fst ` set (ag_migrations (me_agents w' url))
    \<and> fst ` set (ag_migrations (me_agents w url)) \<subseteq> fst ` set (ag_migrations (me_agents w' url))
    \<and> me_central w' = me_central w"
proof -
  obtain reply a where ra: "guarded E url ''/pg/schema'' (post_schema (mv_server E) ms) (me_agents w url) = (reply, a)" by fastforce
  with assms have reply: "reply = AgVersion v" and w': "w' = w\<lparr>me_calls := Suc (me_calls w), me_agents := (me_agents w)(url := a)\<rparr>"
    by (auto simp: provider_schema_def call_gw_def Let_def split: call_fate.splits agent_reply.splits)
  have "post_schema (mv_server E) ms (me_agents w url) = (AgVersion v, a)"
    using ra reply by (auto simp: guarded_def agent_auth_def split: if_splits option.splits)
  from post_schema_known [OF this] w' show ?thesis by simp
qed

lemma ce_read_ok: "ce_read E q w = (Inr x, w') \<Longrightarrow> x = q (me_central w) \<and> w' = w\<lparr>me_calls := Suc (me_calls w)\<rparr>"
  by (auto simp: ce_read_def call_gw_def Let_def split: call_fate.splits)

lemma ce_write_ok: "ce_write E q w = (Inr x, w') \<Longrightarrow> w' = w\<lparr>me_calls := Suc (me_calls w), me_central := q (me_central w)\<rparr>"
  by (auto simp: ce_write_def call_gw_def Let_def split: call_fate.splits)

lemma bind_gw_ok: "bind_gw m f w = (Inr y, w') \<Longrightarrow> \<exists>x w1. m w = (Inr x, w1) \<and> f x w1 = (Inr y, w')"
  by (auto simp: bind_gw_def split: prod.splits sum.splits)

text \<open>
  C35. A catch-up that succeeds is complete. If a provider has every migration up to the version
  recorded for it, then after a successful catch-up it has every migration there is.
\<close>

theorem catch_up_complete:
  assumes "acked_sound n url w" and "catch_up_provider E n url w = (Inr (), w')"
  shows "mg_id ` set (ce_migrations (me_central w')) \<subseteq> fst ` set (ag_migrations (me_agents w' url))
    \<and> ce_migrations (me_central w') = ce_migrations (me_central w)"
proof -
  let ?c = "me_central w" and ?v = "provider_schema_version n (me_central w)"
  let ?known = "\<lambda>w. fst ` set (ag_migrations (me_agents w url))"
  have since: "mg_id ` set (migrations_since v c) = mg_id ` {m \<in> set (ce_migrations c). v < mg_version m}" for v c
    by (force simp: migrations_since_def migration.truncate_def)
  have all: "mg_id ` set (ce_migrations ?c) \<subseteq> ?known w \<union> mg_id ` set (migrations_since ?v ?c)"
    unfolding since using assms(1) by (force simp: acked_sound_def not_less [symmetric])
  let ?rest = "\<lambda>ms. if ms = [] then return_gw () else bind_gw (provider_schema E url ms) (\<lambda>v. ce_write E (record_migration_state n v))"
  from bind_gw_ok [OF assms(2) [unfolded catch_up_provider_def]] obtain cur wa where
    a: "ce_read E (provider_schema_version n) w = (Inr cur, wa)" "bind_gw (ce_read E (migrations_since cur)) ?rest wa = (Inr (), w')" by blast
  from bind_gw_ok [OF a(2)] obtain ms w1 where
    b: "ce_read E (migrations_since cur) wa = (Inr ms, w1)" "?rest ms w1 = (Inr (), w')" by blast
  from ce_read_ok [OF a(1)] ce_read_ok [OF b(1)] have ms: "ms = migrations_since ?v ?c"
    and w1: "me_central w1 = ?c" "me_agents w1 = me_agents w" by simp_all
  note rest = b(2) [unfolded ms]
  show ?thesis
  proof (cases "migrations_since ?v ?c = []")
    case True
    with rest w1 have "me_central w' = ?c" "me_agents w' = me_agents w" by (simp_all add: return_gw_def)
    with all True show ?thesis by simp
  next
    case False
    from bind_gw_ok [OF rest [unfolded if_not_P [OF False]]] obtain v w2 where
      w2: "provider_schema E url (migrations_since ?v ?c) w1 = (Inr v, w2)" "ce_write E (record_migration_state n v) w2 = (Inr (), w')" by blast
    have same: "me_agents w' = me_agents w2" "ce_migrations (me_central w') = ce_migrations (me_central w2)"
      using ce_write_ok [OF w2(2)] by (simp_all add: record_migration_state_def)
    from provider_schema_ok [OF w2(1)] w1 have "?known w \<union> mg_id ` set (migrations_since ?v ?c) \<subseteq> ?known w2" "me_central w2 = ?c" by simp_all
    with same all show ?thesis by (simp add: subset_trans)
  qed
qed

text \<open>
  The hypothesis is needed. A provider that joins after the first migration and before a
  catch-up is sent the second one alone; its recorded version is then 2, the catch-up sends
  nothing and succeeds, and the first migration never arrives.
\<close>

definition after_ddl :: "nat mesh_state" where
  "after_ddl = snd (propagate_ddl (count_env (\<lambda>_. Answered)) ''d'' ''m1'' (count_mesh\<lparr>me_roster := []\<rparr>))"

definition after_join :: "nat mesh_state" where
  "after_join = snd (propagate_ddl (count_env (\<lambda>_. Answered)) ''e'' ''m2'' (after_ddl\<lparr>me_roster := me_roster count_mesh\<rparr>))"

lemma joined_provider_skips_migration:
  "fst (catch_up_provider (count_env (\<lambda>_. Answered)) ''n'' ''u'' after_join) = Inr ()
    \<and> map mg_id (ce_migrations (me_central after_join)) = [''m1'', ''m2'']
    \<and> map fst (ag_migrations (me_agents (snd (catch_up_provider (count_env (\<lambda>_. Answered)) ''n'' ''u'' after_join)) ''u'')) = [''m2'']"
  by code_simp

lemma late_joiner:
  "fst (catch_up_provider (count_env (\<lambda>_. Answered)) ''n'' ''u'' after_ddl) = Inr ()
    \<and> map mg_id (ce_migrations (me_central after_ddl)) = [''m1''] \<and> provider_schema_version ''n'' (me_central after_ddl) = 0
    \<and> map mg_version (ce_migrations (me_central after_ddl)) = [1]"
  by code_simp

theorem catch_up_complete_witness:
  "''m1'' \<in> fst ` set (ag_migrations (me_agents (snd (catch_up_provider (count_env (\<lambda>_. Answered)) ''n'' ''u'' after_ddl)) ''u''))"
proof -
  have sound: "acked_sound ''n'' ''u'' after_ddl"
    using late_joiner by (auto simp: acked_sound_def map_eq_Cons_conv)
  obtain w' where run: "catch_up_provider (count_env (\<lambda>_. Answered)) ''n'' ''u'' after_ddl = (Inr (), w')"
    using late_joiner by (metis prod.collapse)
  from catch_up_complete [OF sound run] late_joiner run show ?thesis by (auto simp: map_eq_Cons_conv)
qed

end
