(* ===== verification/Spec2Isabelle.thy ===== *)
theory Spec2Isabelle
  imports Inflight Notifier_Props Node_Refine Mesh_Props
begin

text \<open>
  Verification of the Nostr storage orchestrator.

  \<^bold>\<open>The program.\<close> Users store blobs through a public \<^emph>\<open>proxy\<close> (\<open>proxy/blossom\<close>), which checks
  their Blossom tokens and their plan, places the bytes on \<^emph>\<open>storage nodes\<close>
  (\<open>storage-client/blossom\<close>) run by mesh members, and records who owns what in the \<^emph>\<open>data service\<close>
  (\<open>packages/db\<close>). Services talk to each other with signed requests (\<open>packages/nip98\<close>) through
  \<open>packages/db-client\<close>. A plan is a row with an expiry and an allowance; \<open>packages/lifecycle\<close> computes
  from it what the account may do. The \<^emph>\<open>notifier\<close> (\<open>packages/notifier\<close>) walks over the users, sends what
  is due and asks the proxy to purge expired accounts. Beside the blobs there is a Postgres mesh: the
  \<^emph>\<open>gateway\<close> (\<open>pg-gateway\<close>) speaks to clients, keeps a buffer of writes and the list of migrations in
  central tables, and sends both to the \<^emph>\<open>Postgres agents\<close> (\<open>storage-client/pg-agent\<close>) of the
  providers, each of which runs them on its own server.

  \<^bold>\<open>Base theories.\<close>
  \<^item> \<open>JsBase\<close>: numbers with NaN and infinities, \<open>Number(s)\<close>, \<open>BigInt(v)\<close>, JSON values, \<open>Map\<close> as an
    association list in insertion order, texts, HTTP results, and shared list lemmas.
  \<^item> \<open>JsDate\<close>: the calendar of \<open>Date\<close> and the texts it prints and reads.
  \<^item> \<open>Tables\<close>: tables as lists of rows with keys, and the locale \<open>invariant_system\<close> (a step relation
    and a predicate that every step keeps). It is interpreted on the data service, the quotas, the
    in-flight counter, the mesh tables, the notifier and the storage node.

  \<^bold>\<open>Accounts and the data service.\<close>
  \<^item> \<open>Lifecycle\<close> (\<open>state.ts\<close>, \<open>load.ts\<close>): \<open>deriveAccess\<close> and the validated configuration. The status at
    every instant (C5), and that it only gets more severe as time passes (C4).
  \<^item> \<open>Entitlement\<close> (\<open>entitlement.ts\<close>): validation of a request and the new expiry and allowance; a paid
    grant moves the expiry by the bought days (C6).
  \<^item> \<open>DbApi\<close> (\<open>index.ts\<close>, \<open>routes/\<close>, \<open>pagination.ts\<close>, \<open>schema.prisma\<close>): the record \<open>db\<close> has one list of
    rows per table, and each route is a function from a state to a response and a state. An
    exception inside a transaction gives back the old state. \<open>DbApi_Inv\<close> has the invariant and
    \<open>DbApi_Props\<close> what clients rely on: exact accounting over any interleaving of transactions (C1),
    quotas (C2), payments that count once (C3), the effect of a deletion (C7), upload and deletion
    as inverses (C8), complete page walks (C9).
  \<^item> \<open>Providers\<close> (\<open>routes/members.ts\<close>, \<open>routes/storages.ts\<close>): membership, the life of a provider with the
    race of two registrations, capacity, and the backfill of replica ids. \<open>Providers_Props\<close>: the
    backfill and the registry of the proxy refine plain readings of the tables (C27, C28), owners are
    fixed (C29), capacity is not oversold (C30).
  \<^item> \<open>Serialize\<close> (\<open>serialize.ts\<close>): the JSON bodies. The other theories pass typed rows between
    services; C40 is why nothing is lost by that.

  \<^bold>\<open>Authentication.\<close> \<open>Nip98\<close> (\<open>index.ts\<close>, \<open>verify.ts\<close>, \<open>internal-auth.ts\<close>): signer, verifier, replay
  cache and the gate of the data service (C18 to C20). The locale \<open>replay_guard\<close> states what the verifier
  asks of a replay cache; the in-memory cache interprets it. \<open>Proxy_Auth\<close> (\<open>nostr.ts\<close>, \<open>admin-auth.ts\<close>,
  \<open>rate-limit.ts\<close>, \<open>access.ts\<close>): tokens, limiter and the two caches, which share the locale \<open>ttl_cache\<close>
  (C21 to C24).

  \<^bold>\<open>The proxy.\<close>
  \<^item> \<open>Placement\<close> (\<open>servers.ts\<close>): registry, placement hash on 64-bit words, upload loop, reads and
    deletions over replicas (C25, C26). The locale \<open>provider_put\<close> is what the loop asks of a provider:
    an accepted upload is held afterwards, and later uploads take nothing away.
  \<^item> \<open>Proxy\<close> (\<open>index.ts\<close>, \<open>db-client/src/client.ts\<close>): the record \<open>proxy\<close> has the data service, the blobs on
    each node, the registry, the caches, the in-flight counter and a call counter. Every handler is
    an exception-state program over it.
  \<^item> \<open>Proxy_Props\<close>: what a created upload leaves behind (C10), that a failed one changes nothing (C11).
    \<open>Proxy_Access\<close>: reads (C12, C13), deletions (C14), purges (C15), refusals on fresh rows (C16).
    \<open>Inflight\<close>: the cap on bytes in flight under interleaved requests (C17).

  \<^bold>\<open>The notifier.\<close> \<open>Notifier\<close> (\<open>notifications.ts\<close>, \<open>scheduler.ts\<close>, \<open>dm.ts\<close>, \<open>email.ts\<close>) adds the messages that
  left it to the state of the proxy. \<open>Notifier_Props\<close>: at most once (C31), no early purge (C32), and a
  pass that is complete when the data service answers (C33).

  \<^bold>\<open>The storage node.\<close>
  \<^item> \<open>Node_Db\<close> (\<open>db/blobs.ts\<close>): the statements on the metadata tables.
  \<^item> \<open>Node_Range\<close>: the \<open>Range\<close> header and the two range readers (C39).
  \<^item> \<open>Node_Rules\<close> (\<open>prune/rules.ts\<close>): durations, MIME patterns and the upload gate.
  \<^item> \<open>Node_Store\<close> (\<open>storage/local.ts\<close>, \<open>workers/upload-worker.ts\<close>): the state of a node (tables, committed and
    temporary files, call counter), the exception-state monad of the handlers and its Hoare triples.
  \<^item> \<open>Node_Auth\<close>, \<open>Node_Http\<close>, \<open>Node_Prune\<close>: the token checks, the four handlers, a pruning run (C38).
  \<^item> \<open>Node_Props\<close>: every handler and pruning keep the integrity of the node. \<open>Node_Refine\<close>: the reachable
    nodes (C37), and the node as an interpretation of \<open>provider_put\<close>, so that every replica that an
    upload of the proxy reports serves the uploaded bytes (C36).

  \<^bold>\<open>The Postgres mesh.\<close>
  \<^item> \<open>Mesh_Agent\<close> (\<open>apply.ts\<close>, \<open>schema.ts\<close>, \<open>query.ts\<close>, \<open>middleware.ts\<close>): batches, migrations, and the history
    of an agent as the list of what its server ran; the server's state is the replay of the history.
  \<^item> \<open>Mesh_Gateway\<close> (\<open>central.rs\<close>, \<open>registry.rs\<close>, \<open>provider.rs\<close>, \<open>dispatcher.rs\<close>): the central tables and the
    write buffer, the owner of a row, the requests to agents, and a tick of the dispatcher.
  \<^item> \<open>Mesh_Write\<close> (\<open>pgwirehandler.rs\<close>, \<open>schema.rs\<close>): the write path, statements for every provider,
    migrations and the catch-up of a provider.
  \<^item> \<open>Mesh_Props\<close>: triples for these programs; every buffered operation stays buffered or was run, and
    no provider runs one twice (C34); a successful catch-up misses no migration (C35). Two lemmas
    show orders the code permits: a failed write that is overtaken by a later one, and a provider that
    joins during a migration and skips it.

  \<^bold>\<open>Failures.\<close> Every remote call asks an argument for its fate, indexed by a call counter in the state,
  so the theorems hold for any pattern of failures unless they say otherwise. At the proxy and the
  notifier a call works, works with its answer lost, never arrives, or is rejected. A call of a storage
  node that fails changes nothing. A request of the gateway is answered, not delivered, or delivered
  with its answer lost; a lost answer is the case that retries make dangerous. Agents run a batch in one
  transaction.

  \<^bold>\<open>Loops.\<close> No definition takes fuel: every loop is a total function. Loops over lists are structural.
  The others have a measure that the code decreases: \<open>upload_loop\<close> the providers not yet tried,
  \<open>purge_loop\<close> the rows of the blob table (each round deletes the rows of its page or stops with an
  error), \<open>run_pages\<close> of the notifier the users with an expiry beyond the current page (a pass does not
  change their number), \<open>year_up\<close> and \<open>format_scale\<close> a number. The timers that repeat a pass of the
  notifier, a tick of the dispatcher or a catch-up sweep are step relations with one step per run.

  \<^bold>\<open>Arguments of the model.\<close> Code that is not in the repository: signatures, SHA-256, base64, parsing of
  JSON, YAML and URLs, relays and the mail service, the Postgres server and the SQL parser. What a theorem needs of
  them is a hypothesis of the theorem, and its witness has a concrete instance.

  \<^bold>\<open>Not modelled.\<close> Media transcoding, mirroring of foreign URLs and reports at the storage node, its S3
  backend, its message bridge between threads and the import of an old database; two handlers of a
  node that interleave. Of the gateway: the wire protocol, the analysis of SQL texts (an argument), reads
  and aggregates over providers, the catalog mirror. Of the agent: the text substitutions of
  \<open>stripServerGenerators\<close> (an argument) and the encoding of results. The control plane, the storage agent,
  \<open>pg-explorer\<close>, loaders of configuration files, user interfaces, the browser signer, deployment. Numbers are exact:
  the rounding of IEEE doubles beyond \<open>2^53\<close> is not modelled; texts are byte strings with the case
  conversion and the white space of ASCII.
\<close>

end
